(* ===== verification/Go_Prelude.thy ===== *)
theory Go_Prelude
  imports Complex_Main
begin

text \<open>
  Shared vocabulary of the development: results of fallible Go functions, Go's integer
  arithmetic, Go maps as association lists, and the interfaces (locales) that several
  components implement.

  \<^item> \<open>'e + 'a\<close> is a Go pair \<^verbatim>\<open>(value, error)\<close>: \<open>Inl e\<close> for a non-nil error.
  \<^item> A pointer that may be \<^verbatim>\<open>nil\<close> is an \<open>option\<close>.
  \<^item> A Go \<^verbatim>\<open>int\<close> or \<^verbatim>\<open>int64\<close> is an \<open>int\<close>; \<open>wrap64\<close> is
    written where the code's arithmetic can leave the range.
  \<^item> A Go map that is iterated over is an association list with distinct keys; looking a
    key up is \<open>map_of\<close>. The order of the list is the order of insertion; Go leaves
    the iteration order open, so no theorem about a result that depends on it is stated.
\<close>

named_theorems res_simps \<open>equations of the error-propagating operations\<close>
named_theorems counter_simps \<open>what an operation does to the counters of its state\<close>
named_theorems frame_simps \<open>fields an operation leaves alone\<close>

section \<open>Results\<close>

definition result_bind :: "'e + 'a \<Rightarrow> ('a \<Rightarrow> 'e + 'b) \<Rightarrow> 'e + 'b" where
  "result_bind m f = (case m of Inl e \<Rightarrow> Inl e | Inr a \<Rightarrow> f a)"

lemma result_bind_simps [simp, res_simps]:
  "result_bind (Inl e) f = Inl e"
  "result_bind (Inr a) f = f a"
  by (simp_all add: result_bind_def)

lemma result_bind_Inr [res_simps]:
  "result_bind m f = Inr b \<longleftrightarrow> (\<exists>a. m = Inr a \<and> f a = Inr b)"
  by (cases m) auto

lemma result_bind_cong [fundef_cong]:
  "m = m' \<Longrightarrow> (\<And>a. m' = Inr a \<Longrightarrow> f a = f' a) \<Longrightarrow> result_bind m f = result_bind m' f'"
  by (cases m') auto

text \<open>A loop whose body may return an error.\<close>

primrec result_fold :: "('s \<Rightarrow> 'a \<Rightarrow> 'e + 's) \<Rightarrow> 's \<Rightarrow> 'a list \<Rightarrow> 'e + 's" where
  "result_fold f s [] = Inr s"
| "result_fold f s (x # xs) = result_bind (f s x) (\<lambda>s'. result_fold f s' xs)"

lemma result_fold_append:
  "result_fold f s (xs @ ys) = result_bind (result_fold f s xs) (\<lambda>s'. result_fold f s' ys)"
proof (induction xs arbitrary: s)
  case (Cons x xs)
  then show ?case by (cases "f s x") auto
qed simp

lemma result_fold_total:
  "(\<And>s x. f s x = Inr (g s x)) \<Longrightarrow> result_fold f s xs = Inr (foldl g s xs)"
  by (induction xs arbitrary: s) auto

lemma result_fold_invariant:
  assumes "result_fold f s xs = Inr s'" and "P s"
    and "\<And>s x t. P s \<Longrightarrow> x \<in> set xs \<Longrightarrow> f s x = Inr t \<Longrightarrow> P t"
  shows "P s'"
  using assms
proof (induction xs arbitrary: s)
  case (Cons x xs)
  from Cons.prems(1) obtain t where t: "f s x = Inr t" "result_fold f t xs = Inr s'"
    by (auto simp: result_bind_Inr)
  have "P t" using Cons.prems(3) [OF Cons.prems(2) _ t(1)] by simp
  moreover have "\<And>s x u. P s \<Longrightarrow> x \<in> set xs \<Longrightarrow> f s x = Inr u \<Longrightarrow> P u"
    by (rule Cons.prems(3)) simp_all
  ultimately show ?case by (rule Cons.IH [OF t(2)])
qed simp

lemma foldl_counter:
  fixes get :: "'s \<Rightarrow> int"
  assumes "\<And>s x. get (f s x) = get s + val x"
  shows "get (foldl f s xs) = get s + (\<Sum>x\<leftarrow>xs. val x)"
  by (induction xs arbitrary: s) (simp_all add: assms)

lemma foldl_invariant:
  assumes "P s" "\<And>s x. P s \<Longrightarrow> x \<in> set xs \<Longrightarrow> P (f s x)"
  shows "P (foldl f s xs)"
  using assms by (induction xs arbitrary: s) auto

lemma sum_list_concat: "sum_list (concat xss) = sum_list (map sum_list xss)"
  by (induction xss) auto

section \<open>Go integers\<close>

definition wrap64 :: "int \<Rightarrow> int" where
  "wrap64 n = (n + 2 ^ 63) mod 2 ^ 64 - 2 ^ 63"

definition int64 :: "int \<Rightarrow> bool" where
  "int64 n \<longleftrightarrow> - (2 ^ 63) \<le> n \<and> n < 2 ^ 63"

lemma wrap64_id: "int64 n \<Longrightarrow> wrap64 n = n"
  by (simp add: wrap64_def int64_def)

lemma wrap64_range [simp]: "int64 (wrap64 n)"
proof -
  have "0 \<le> (n + 2 ^ 63) mod (2 ^ 64 :: int)" "(n + 2 ^ 63) mod (2 ^ 64 :: int) < 2 ^ 64"
    by (rule pos_mod_sign pos_mod_bound, simp)+
  then show ?thesis by (simp add: wrap64_def int64_def)
qed

abbreviation MaxInt64 :: int where "MaxInt64 \<equiv> 9223372036854775807"

text \<open>Go's \<^verbatim>\<open>/\<close> and \<^verbatim>\<open>%\<close> truncate towards zero.\<close>

definition go_div :: "int \<Rightarrow> int \<Rightarrow> int" where
  "go_div a b = sgn a * sgn b * (\<bar>a\<bar> div \<bar>b\<bar>)"

definition go_mod :: "int \<Rightarrow> int \<Rightarrow> int" where
  "go_mod a b = a - b * go_div a b"

lemma go_div_nonneg: "0 \<le> a \<Longrightarrow> 0 < b \<Longrightarrow> go_div a b = a div b"
  by (cases "a = 0") (auto simp: go_div_def)

lemma go_mod_nonneg: "0 \<le> a \<Longrightarrow> 0 < b \<Longrightarrow> go_mod a b = a mod b"
  by (simp add: go_mod_def go_div_nonneg minus_mult_div_eq_mod)

lemma go_mod_range:
  assumes "b \<noteq> 0" shows "\<bar>go_mod a b\<bar> < \<bar>b\<bar>"
proof -
  have b: "b = sgn b * \<bar>b\<bar>" and a: "a = sgn a * \<bar>a\<bar>" by (simp_all add: sgn_mult_abs)
  have s: "sgn b * sgn b = 1" using assms by (simp add: sgn_if)
  have "go_mod a b = sgn a * \<bar>a\<bar> - sgn b * \<bar>b\<bar> * (sgn a * sgn b * (\<bar>a\<bar> div \<bar>b\<bar>))"
    using a b by (simp add: go_mod_def go_div_def)
  also have "\<dots> = sgn a * (\<bar>a\<bar> - \<bar>b\<bar> * (\<bar>a\<bar> div \<bar>b\<bar>))"
    using s by (simp add: algebra_simps)
  also have "\<dots> = sgn a * (\<bar>a\<bar> mod \<bar>b\<bar>)" by (simp add: minus_mult_div_eq_mod)
  finally have "\<bar>go_mod a b\<bar> \<le> \<bar>a\<bar> mod \<bar>b\<bar>" using assms by (simp add: abs_mult abs_sgn_eq pos_mod_sign)
  then show ?thesis using assms pos_mod_bound [of "\<bar>b\<bar>" "\<bar>a\<bar>"] by linarith
qed

section \<open>Go maps with a default value, as association lists\<close>

primrec gm_add :: "'k \<Rightarrow> int \<Rightarrow> ('k \<times> int) list \<Rightarrow> ('k \<times> int) list" where
  "gm_add k n [] = [(k, n)]"
| "gm_add k n (p # m) = (if fst p = k then (k, snd p + n) # m else p # gm_add k n m)"

primrec gm_put :: "'k \<Rightarrow> 'v \<Rightarrow> ('k \<times> 'v) list \<Rightarrow> ('k \<times> 'v) list" where
  "gm_put k v [] = [(k, v)]"
| "gm_put k v (p # m) = (if fst p = k then (k, v) # m else p # gm_put k v m)"

definition gm_get :: "'v \<Rightarrow> ('k \<times> 'v) list \<Rightarrow> 'k \<Rightarrow> 'v" where
  "gm_get d m k = (case map_of m k of None \<Rightarrow> d | Some v \<Rightarrow> v)"

lemma map_of_gm_put [simp]: "map_of (gm_put k v m) = (map_of m)(k \<mapsto> v)"
  by (induction m) (auto simp: fun_eq_iff)

lemma keys_gm_put: "fst ` set (gm_put k v m) = insert k (fst ` set m)"
  by (induction m) auto

lemma distinct_gm_put: "distinct (map fst m) \<Longrightarrow> distinct (map fst (gm_put k v m))"
proof (induction m)
  case (Cons p m)
  then show ?case using keys_gm_put [of k v m] by auto
qed simp

lemma gm_get_add [simp]: "gm_get 0 (gm_add k n m) j = gm_get 0 m j + (if j = k then n else 0)"
  by (induction m) (auto simp: gm_get_def)

lemma keys_gm_add: "fst ` set (gm_add k n m) = insert k (fst ` set m)"
  by (induction m) auto

lemma gm_get_sum:
  "distinct (map fst m) \<Longrightarrow> gm_get 0 m k = (\<Sum>p\<leftarrow>m. if fst p = k then snd p else 0)"
proof (induction m)
  case (Cons p m)
  have "k \<notin> fst ` set m \<Longrightarrow> (\<Sum>p\<leftarrow>m. if fst p = k then snd p else 0) = 0"
    by (induction m) auto
  then show ?case using Cons by (auto simp: gm_get_def)
qed (simp add: gm_get_def)

lemma gm_get_fold_add:
  assumes "distinct (map fst src)"
  shows "gm_get 0 (foldl (\<lambda>m p. gm_add (fst p) (snd p) m) dst src) k = gm_get 0 dst k + gm_get 0 src k"
proof -
  have "gm_get 0 (foldl (\<lambda>m p. gm_add (fst p) (snd p) m) dst src) k =
        gm_get 0 dst k + (\<Sum>p\<leftarrow>src. if fst p = k then snd p else 0)"
    by (induction src arbitrary: dst) auto
  then show ?thesis using gm_get_sum [OF assms] by simp
qed

section \<open>Interfaces\<close>

subsection \<open>Transition systems and their invariants\<close>

inductive reach :: "('s \<Rightarrow> bool) \<Rightarrow> ('s \<Rightarrow> 's \<Rightarrow> bool) \<Rightarrow> 's \<Rightarrow> bool" for start step where
  reach_start: "start s \<Longrightarrow> reach start step s"
| reach_step: "reach start step s \<Longrightarrow> step s t \<Longrightarrow> reach start step t"

locale inductive_invariant =
  fixes start :: "'s \<Rightarrow> bool" and step :: "'s \<Rightarrow> 's \<Rightarrow> bool" and inv :: "'s \<Rightarrow> bool"
  assumes inv_start: "start s \<Longrightarrow> inv s"
    and inv_step: "inv s \<Longrightarrow> step s t \<Longrightarrow> inv t"
begin

lemma reach_inv: "reach start step s \<Longrightarrow> inv s"
  by (induction rule: reach.induct) (auto intro: inv_start inv_step)

lemma run_inv: "inv s \<Longrightarrow> step\<^sup>*\<^sup>* s t \<Longrightarrow> inv t"
  by (rotate_tac, induction rule: rtranclp_induct) (auto intro: inv_step)

end

text \<open>
  A progress measure: every step that changes the state goes down in it. Runs of such a
  system end.
\<close>

locale ranked_steps =
  fixes step :: "'s \<Rightarrow> 's \<Rightarrow> bool" and rank :: "'s \<Rightarrow> nat"
  assumes rank_step: "step s t \<Longrightarrow> rank t < rank s"
begin

lemma rank_run: "(step ^^ n) s t \<Longrightarrow> rank t + n \<le> rank s"
proof (induction n arbitrary: t)
  case (Suc n)
  then obtain u where u: "(step ^^ n) s u" "step u t" by auto
  then show ?case using Suc.IH [OF u(1)] rank_step [OF u(2)] by simp
qed simp

lemma step_terminates: "wfP (\<lambda>t s. step s t)"
  by (rule wfp_if_convertible_to_nat [of _ rank]) (rule rank_step)

end

subsection \<open>Counters that add up over a loop\<close>

text \<open>
  A loop body \<open>body\<close> over a list of inputs, a counter \<open>get\<close> of the loop's state
  and the amount \<open>val\<close> each input contributes. The client lemma is the loop's total.
\<close>

locale additive_counter =
  fixes body :: "'s \<Rightarrow> 'w \<Rightarrow> 'e + 's" and get :: "'s \<Rightarrow> int" and val :: "'w \<Rightarrow> int"
  assumes get_body: "body s w = Inr s' \<Longrightarrow> get s' = get s + val w"
begin

lemma get_fold: "result_fold body s ws = Inr s' \<Longrightarrow> get s' = get s + (\<Sum>w\<leftarrow>ws. val w)"
proof (induction ws arbitrary: s)
  case (Cons w ws)
  then obtain t where "body s w = Inr t" "result_fold body t ws = Inr s'"
    by (auto simp: result_bind_Inr)
  then show ?case using Cons.IH get_body by fastforce
qed simp

end

subsection \<open>Bounded, duplicate-free sample lists\<close>

definition add_sample :: "nat \<Rightarrow> ('a list \<Rightarrow> 'a \<Rightarrow> bool) \<Rightarrow> 'a list \<Rightarrow> 'a \<Rightarrow> 'a list" where
  "add_sample cap contains xs x = (if length xs < cap \<and> \<not> contains xs x then xs @ [x] else xs)"

definition add_samples :: "nat \<Rightarrow> ('a list \<Rightarrow> 'a \<Rightarrow> bool) \<Rightarrow> 'a list \<Rightarrow> 'a list \<Rightarrow> 'a list" where
  "add_samples cap contains xs ys = foldl (add_sample cap contains) xs ys"

definition samples_ok :: "nat \<Rightarrow> 'a list \<Rightarrow> bool" where
  "samples_ok cap xs \<longleftrightarrow> length xs \<le> cap \<and> distinct xs"

locale sample_membership =
  fixes contains :: "'a list \<Rightarrow> 'a \<Rightarrow> bool"
  assumes contains_iff: "contains xs x \<longleftrightarrow> x \<in> set xs"
begin

lemma add_sample_ok: "samples_ok cap xs \<Longrightarrow> samples_ok cap (add_sample cap contains xs x)"
  by (auto simp: samples_ok_def add_sample_def contains_iff)

lemma add_samples_ok: "samples_ok cap xs \<Longrightarrow> samples_ok cap (add_samples cap contains xs ys)"
  unfolding add_samples_def by (induction ys arbitrary: xs) (auto intro: add_sample_ok)

lemma add_sample_mono: "set xs \<subseteq> set (add_sample cap contains xs x)"
  by (auto simp: add_sample_def)

lemma add_samples_set:
  "set xs \<subseteq> set (add_samples cap contains xs ys) \<and> set (add_samples cap contains xs ys) \<subseteq> set xs \<union> set ys"
  unfolding add_samples_def
proof (induction ys arbitrary: xs)
  case (Cons y ys)
  have "set xs \<subseteq> set (add_sample cap contains xs y)" "set (add_sample cap contains xs y) \<subseteq> insert y (set xs)"
    by (auto simp: add_sample_def)
  then show ?case using Cons [of "add_sample cap contains xs y"] by auto
qed simp

text \<open>A sample is lost only when the list is full.\<close>

lemma add_samples_complete:
  "length (add_samples cap contains xs ys) < cap \<Longrightarrow> set (add_samples cap contains xs ys) = set xs \<union> set ys"
  unfolding add_samples_def
proof (induction ys arbitrary: xs)
  case (Cons y ys)
  have mono: "length xs \<le> length (foldl (add_sample cap contains) xs zs)" for xs zs
  proof (induction zs arbitrary: xs)
    case (Cons z zs)
    have "length xs \<le> length (add_sample cap contains xs z)" by (simp add: add_sample_def)
    then show ?case using Cons [of "add_sample cap contains xs z"] by simp
  qed simp
  let ?x = "add_sample cap contains xs y"
  have "length xs < cap"
    using mono [of xs "y # ys"] Cons.prems by simp
  then have "set ?x = insert y (set xs)" by (auto simp: add_sample_def contains_iff)
  then show ?case using Cons.IH [of ?x] Cons.prems by auto
qed simp

end

end
