(* ===== verification/Go_Float.thy ===== *)
theory Go_Float
  imports Complex_Main "HOL-Library.Log_Nat"
begin

text \<open>
  Go's \<^verbatim>\<open>float64\<close> (IEEE-754 binary64), as an executable type.

  A value is NaN, an infinity or a finite rational; the two signed zeros are identified,
  which no branch of the modelled code can tell apart (it divides only by values it has
  checked to be non-zero or that are positive). Every arithmetic operation is the exact
  operation on rationals followed by \<open>rnd\<close>: round to nearest, ties to even, with
  gradual underflow below \<open>2 ^ - 1022\<close> and overflow to an infinity at
  \<open>2 ^ 1024\<close>. Comparisons are those of Go: every comparison with NaN is false.

  The lemmas are what the components need of the arithmetic: rounding is monotone, keeps
  representable values (in particular integers up to \<open>2 ^ 53\<close>) and keeps signs.
\<close>

section \<open>Powers of two and binary logarithm of a rational\<close>

definition pow2 :: "int \<Rightarrow> rat" where
  "pow2 k = (if 0 \<le> k then 2 ^ nat k else 1 / 2 ^ nat (- k))"

lemma pow2_powi: "pow2 k = 2 powi k"
  unfolding pow2_def power_int_def by (simp add: inverse_eq_divide power_one_over)

lemma pow2_pos [simp]: "0 < pow2 k"
  by (simp add: pow2_def)

lemma pow2_add: "pow2 (a + b) = pow2 a * pow2 b"
  by (simp add: pow2_powi power_int_add)

lemma pow2_diff: "pow2 (a - b) = pow2 a / pow2 b"
  by (simp add: pow2_powi power_int_diff)

lemma pow2_mono: "a \<le> b \<Longrightarrow> pow2 a \<le> pow2 b"
  by (simp add: pow2_powi power_int_increasing)

lemma pow2_strict: "a < b \<Longrightarrow> pow2 a < pow2 b"
  by (simp add: pow2_powi power_int_strict_increasing)

lemma pow2_less_iff: "pow2 a < pow2 b \<longleftrightarrow> a < b"
  by (meson leD not_le_imp_less pow2_mono pow2_strict)

definition ilog2 :: "rat \<Rightarrow> int" where
  "ilog2 x = (let (p, q) = quotient_of x; k = bitlen p - bitlen q
              in if pow2 k \<le> x then k else k - 1)"

lemma bitlen_pow2:
  assumes "0 < p"
  shows "pow2 (bitlen p - 1) \<le> of_int p" and "of_int p < pow2 (bitlen p)"
proof -
  have b: "2 ^ nat (bitlen p - 1) \<le> p" "p < 2 ^ nat (bitlen p)"
    using bitlen_bounds [OF assms] by auto
  have g: "0 < bitlen p"
    using assms by (simp add: bitlen_eq_zero_iff bitlen_nonneg order_less_le)
  show "pow2 (bitlen p - 1) \<le> of_int p" and "of_int p < pow2 (bitlen p)"
    using b g by (auto simp: pow2_def simp flip: of_int_power of_int_le_iff of_int_less_iff)
qed

lemma ilog2_bounds:
  assumes "0 < x"
  shows "pow2 (ilog2 x) \<le> x" and "x < pow2 (ilog2 x + 1)"
proof -
  obtain p q where pq: "quotient_of x = (p, q)" by (cases "quotient_of x")
  define k where "k = bitlen p - bitlen q"
  have q: "0 < q" using quotient_of_denom_pos [OF pq] .
  have x: "x = of_int p / of_int q" using quotient_of_div [OF pq] .
  have p: "0 < p" using assms q x by (simp add: zero_less_divide_iff)
  note P = bitlen_pow2 [OF p] and Q = bitlen_pow2 [OF q]
  have "pow2 (k - 1) = pow2 (bitlen p - 1) / pow2 (bitlen q)"
    by (simp add: k_def flip: pow2_diff) (simp add: algebra_simps)
  also have "\<dots> \<le> of_int p / of_int q"
    using P(1) Q(2) q p by (intro frac_le) auto
  finally have lo: "pow2 (k - 1) \<le> x" using x by simp
  have "x < pow2 (bitlen p) / pow2 (bitlen q - 1)"
    unfolding x using P(2) Q(1) p by (intro frac_less) auto
  also have "\<dots> = pow2 (k + 1)"
    by (simp add: k_def flip: pow2_diff) (simp add: algebra_simps)
  finally have hi: "x < pow2 (k + 1)" .
  have i: "ilog2 x = (if pow2 k \<le> x then k else k - 1)"
    by (simp add: ilog2_def pq k_def)
  show "pow2 (ilog2 x) \<le> x" using lo i by simp
  show "x < pow2 (ilog2 x + 1)" using hi i by simp
qed

section \<open>Rounding to nearest, ties to even\<close>

definition round_even :: "rat \<Rightarrow> int" where
  "round_even y = (let f = \<lfloor>y\<rfloor>; d = y - of_int f
     in if d < 1/2 then f else if 1/2 < d then f + 1
        else if even f then f else f + 1)"

lemma round_even_of_int [simp]: "round_even (of_int n) = n"
  by (simp add: round_even_def)

lemma round_even_bounds: "of_int (round_even y) \<le> y + 1/2 \<and> y - 1/2 \<le> of_int (round_even y)"
  unfolding round_even_def Let_def
  by (auto simp: algebra_simps) linarith+

lemma round_even_mono:
  assumes "y \<le> z" shows "round_even y \<le> round_even z"
proof (cases "\<lfloor>y\<rfloor> = \<lfloor>z\<rfloor>")
  case True
  then show ?thesis using assms by (auto simp: round_even_def Let_def)
next
  case False
  have "\<lfloor>y\<rfloor> \<le> \<lfloor>z\<rfloor>" using assms by (rule floor_mono)
  with False have "\<lfloor>y\<rfloor> + 1 \<le> \<lfloor>z\<rfloor>" by simp
  moreover have "round_even y \<le> \<lfloor>y\<rfloor> + 1" by (simp add: round_even_def Let_def)
  moreover have "\<lfloor>z\<rfloor> \<le> round_even z" by (simp add: round_even_def Let_def)
  ultimately show ?thesis by linarith
qed

section \<open>The type and its rounding function\<close>

datatype f64 = F_NaN | F_PInf | F_NInf | F_Fin rat

definition ulp_exp :: "rat \<Rightarrow> int" where
  "ulp_exp x = max (- 1074) (ilog2 x - 52)"

definition round_pos :: "rat \<Rightarrow> rat" where
  "round_pos x = of_int (round_even (x / pow2 (ulp_exp x))) * pow2 (ulp_exp x)"

definition rnd :: "rat \<Rightarrow> f64" where
  "rnd x = (if x = 0 then F_Fin 0
            else let r = round_pos \<bar>x\<bar>
                 in if pow2 1024 \<le> r then (if x < 0 then F_NInf else F_PInf)
                    else F_Fin (if x < 0 then - r else r))"

instantiation f64 :: ord
begin

fun less_eq_f64 :: "f64 \<Rightarrow> f64 \<Rightarrow> bool" where
  "less_eq_f64 (F_Fin x) (F_Fin y) = (x \<le> y)"
| "less_eq_f64 a b = (a \<noteq> F_NaN \<and> b \<noteq> F_NaN \<and> (a = F_NInf \<or> b = F_PInf))"

fun less_f64 :: "f64 \<Rightarrow> f64 \<Rightarrow> bool" where
  "less_f64 (F_Fin x) (F_Fin y) = (x < y)"
| "less_f64 a b = (a \<noteq> F_NaN \<and> b \<noteq> F_NaN \<and> a \<noteq> b \<and> (a = F_NInf \<or> b = F_PInf))"

instance ..

end

definition feq :: "f64 \<Rightarrow> f64 \<Rightarrow> bool" where
  "feq a b = (a \<noteq> F_NaN \<and> a = b)"

fun is_finite :: "f64 \<Rightarrow> bool" where
  "is_finite (F_Fin x) = True"
| "is_finite a = False"

definition f0 :: f64 where "f0 = F_Fin 0"

lemma f64_le_NaN [simp]: "\<not> F_NaN \<le> a" "\<not> a \<le> F_NaN" "\<not> F_NaN < a" "\<not> a < F_NaN"
  by (cases a; simp)+

lemma f64_le_refl: "a \<noteq> F_NaN \<Longrightarrow> a \<le> a" for a :: f64
  by (cases a) auto

lemma f64_le_trans: "a \<le> b \<Longrightarrow> b \<le> c \<Longrightarrow> a \<le> c" for a b c :: f64
  by (cases a; cases b; cases c) auto

lemma f64_le_less_trans: "a \<le> b \<Longrightarrow> b < c \<Longrightarrow> a < c" for a b c :: f64
  by (cases a; cases b; cases c) auto

lemma f64_less_le_trans: "a < b \<Longrightarrow> b \<le> c \<Longrightarrow> a < c" for a b c :: f64
  by (cases a; cases b; cases c) auto

lemma f64_less_imp_le: "a < b \<Longrightarrow> a \<le> b" for a b :: f64
  by (cases a; cases b) auto

lemma f64_not_less: "a \<noteq> F_NaN \<Longrightarrow> b \<noteq> F_NaN \<Longrightarrow> (\<not> a < b) = (b \<le> a)" for a b :: f64
  by (cases a; cases b) auto

lemma f64_antisym: "a \<le> b \<Longrightarrow> b \<le> a \<Longrightarrow> a = b" for a b :: f64
  by (cases a; cases b) auto

section \<open>Rounding is monotone and keeps representable values\<close>

lemma ilog2_mono:
  assumes "0 < x" "x \<le> y" shows "ilog2 x \<le> ilog2 y"
proof -
  have "pow2 (ilog2 x) < pow2 (ilog2 y + 1)"
    using ilog2_bounds [of x] ilog2_bounds [of y] assms by (meson le_less_trans less_le_trans)
  then show ?thesis by (simp add: pow2_less_iff)
qed

lemma ulp_exp_mono: "0 < x \<Longrightarrow> x \<le> y \<Longrightarrow> ulp_exp x \<le> ulp_exp y"
  using ilog2_mono [of x y] by (auto simp: ulp_exp_def)

lemma scaled_bound:
  assumes "0 < x" shows "x / pow2 (ulp_exp x) < of_int (2 ^ 53)"
proof -
  have "x < pow2 (ilog2 x + 1)" using ilog2_bounds assms by blast
  also have "\<dots> \<le> pow2 (ulp_exp x + 53)" by (rule pow2_mono) (simp add: ulp_exp_def)
  also have "\<dots> = pow2 (ulp_exp x) * of_int (2 ^ 53)" by (simp add: pow2_add pow2_def [of 53])
  finally show ?thesis by (simp add: divide_less_eq mult.commute)
qed

lemma round_pos_upper:
  assumes "0 < x" shows "round_pos x \<le> pow2 (ulp_exp x + 53)"
proof -
  have "round_even (x / pow2 (ulp_exp x)) \<le> round_even (of_int (2 ^ 53))"
    using scaled_bound [OF assms] by (intro round_even_mono) simp
  then have "round_even (x / pow2 (ulp_exp x)) \<le> 2 ^ 53" by (simp only: round_even_of_int)
  then have "(of_int (round_even (x / pow2 (ulp_exp x))) :: rat) \<le> of_int (2 ^ 53)"
    by (simp only: of_int_le_iff)
  then have "round_pos x \<le> of_int (2 ^ 53) * pow2 (ulp_exp x)"
    unfolding round_pos_def by (intro mult_right_mono) (simp_all add: less_imp_le)
  then show ?thesis by (simp add: pow2_add pow2_def [of 53] mult.commute)
qed

lemma round_pos_lower:
  assumes "0 < x" "ulp_exp x = ilog2 x - 52" shows "pow2 (ilog2 x) \<le> round_pos x"
proof -
  have "of_int (2 ^ 52) * pow2 (ulp_exp x) = pow2 (ilog2 x)"
    by (simp add: assms(2) pow2_diff pow2_def [of 52])
  then have "of_int (2 ^ 52) \<le> x / pow2 (ulp_exp x)"
    using ilog2_bounds(1) [OF assms(1)] by (simp add: le_divide_eq)
  then have "round_even (of_int (2 ^ 52)) \<le> round_even (x / pow2 (ulp_exp x))"
    by (rule round_even_mono)
  then have "(of_int (2 ^ 52) :: rat) \<le> of_int (round_even (x / pow2 (ulp_exp x)))"
    by (simp only: round_even_of_int of_int_le_iff)
  then have "of_int (2 ^ 52) * pow2 (ulp_exp x) \<le> round_pos x"
    unfolding round_pos_def by (intro mult_right_mono) (simp_all add: less_imp_le)
  then show ?thesis using \<open>_ = pow2 (ilog2 x)\<close> by simp
qed

lemma round_pos_mono:
  assumes "0 < x" "x \<le> y" shows "round_pos x \<le> round_pos y"
proof (cases "ulp_exp x = ulp_exp y")
  case True
  have "round_even (x / pow2 (ulp_exp y)) \<le> round_even (y / pow2 (ulp_exp y))"
    using assms by (intro round_even_mono divide_right_mono) (simp_all add: less_imp_le)
  then show ?thesis
    by (simp add: round_pos_def True mult_right_mono less_imp_le)
next
  case False
  with ulp_exp_mono [OF assms] have lt: "ulp_exp x < ulp_exp y" by simp
  then have uy: "ulp_exp y = ilog2 y - 52" by (auto simp: ulp_exp_def split: if_splits)
  have "round_pos x \<le> pow2 (ulp_exp x + 53)" using round_pos_upper assms by blast
  also have "\<dots> \<le> pow2 (ilog2 y)" using lt uy by (intro pow2_mono) simp
  also have "\<dots> \<le> round_pos y" using assms uy by (intro round_pos_lower) auto
  finally show ?thesis .
qed

lemma round_pos_nonneg: "0 < x \<Longrightarrow> 0 \<le> round_pos x"
  using round_even_mono [of 0 "x / pow2 (ulp_exp x)"] round_even_of_int [of 0]
  by (simp add: round_pos_def less_imp_le)

theorem rnd_mono: "x \<le> y \<Longrightarrow> rnd x \<le> rnd y"
  using round_pos_mono [of x y] round_pos_mono [of "- y" "- x"]
    round_pos_nonneg [of "- x"] round_pos_nonneg [of x] round_pos_nonneg [of "- y"] round_pos_nonneg [of y]
  by (auto simp: rnd_def Let_def abs_if split: if_splits)

text \<open>For evaluation: overflow is decided on the exponent, without computing \<open>2 ^ 1024\<close>.\<close>

lemma pow2_le_iff_ilog2: "0 < r \<Longrightarrow> pow2 k \<le> r \<longleftrightarrow> k \<le> ilog2 r"
  using ilog2_bounds [of r] pow2_mono [of k "ilog2 r"] pow2_less_iff [of k "ilog2 r + 1"]
  by (meson leD le_less_trans linorder_not_less order_trans zle_add1_eq_le)

lemma rnd_code [code]:
  "rnd x = (if x = 0 then F_Fin 0
            else let r = round_pos \<bar>x\<bar>
                 in if 0 < r \<and> 1024 \<le> ilog2 r then (if x < 0 then F_NInf else F_PInf)
                    else F_Fin (if x < 0 then - r else r))"
proof -
  have "pow2 1024 \<le> r \<longleftrightarrow> 0 < r \<and> 1024 \<le> ilog2 r" for r
    using pow2_le_iff_ilog2 [of r 1024] pow2_pos [of 1024] by (meson less_le_trans)
  then show ?thesis by (simp add: rnd_def Let_def)
qed

lemma rnd_not_NaN [simp]: "rnd x \<noteq> F_NaN"
  by (simp add: rnd_def Let_def)

lemma rnd_0 [simp]: "rnd 0 = F_Fin 0"
  by (simp add: rnd_def)

lemma rnd_nonneg: "0 \<le> x \<Longrightarrow> F_Fin 0 \<le> rnd x"
  using rnd_mono [of 0 x] by simp

text \<open>A rational a finite \<^verbatim>\<open>float64\<close> can hold.\<close>

definition f64_rep :: "rat \<Rightarrow> bool" where
  "f64_rep x \<longleftrightarrow> (\<exists>m e. x = of_int m * pow2 e \<and> \<bar>m\<bar> < 2 ^ 53 \<and> - 1074 \<le> e \<and> e \<le> 971)"

lemma f64_rep_uminus [simp]: "f64_rep (- x) = f64_rep x"
proof -
  have "f64_rep x \<Longrightarrow> f64_rep (- x)" for x
  proof -
    assume "f64_rep x"
    then obtain m e where "x = of_int m * pow2 e" "\<bar>m\<bar> < 2 ^ 53" "- 1074 \<le> e" "e \<le> 971"
      by (auto simp: f64_rep_def)
    then have "- x = of_int (- m) * pow2 e \<and> \<bar>- m\<bar> < 2 ^ 53 \<and> - 1074 \<le> e \<and> e \<le> 971" by simp
    then show "f64_rep (- x)" unfolding f64_rep_def by blast
  qed
  from this [of x] this [of "- x"] show ?thesis by auto
qed

lemma round_pos_exact:
  assumes "0 < x" "f64_rep x" shows "round_pos x = x" and "x < pow2 1024"
proof -
  from assms(2) obtain m e where x: "x = of_int m * pow2 e" and m: "\<bar>m\<bar> < 2 ^ 53"
    and e: "- 1074 \<le> e" "e \<le> 971" by (auto simp: f64_rep_def)
  have "(of_int m :: rat) < of_int (2 ^ 53)" using m by (simp only: of_int_less_iff)
  then have "x < of_int (2 ^ 53) * pow2 e" unfolding x by (intro mult_strict_right_mono) simp_all
  also have "\<dots> = pow2 (e + 53)" by (simp add: pow2_add pow2_def [of 53])
  finally have xlt: "x < pow2 (e + 53)" .
  then have "pow2 (ilog2 x) < pow2 (e + 53)"
    using ilog2_bounds(1) [OF assms(1)] by (rule le_less_trans [rotated])
  then have "ulp_exp x \<le> e" using e by (simp add: pow2_less_iff ulp_exp_def)
  then have "pow2 (e - ulp_exp x) = of_int (2 ^ nat (e - ulp_exp x))" by (simp add: pow2_def)
  then have "x / pow2 (ulp_exp x) = of_int (m * 2 ^ nat (e - ulp_exp x))"
    by (subst (1) x) (simp add: pow2_diff flip: times_divide_eq_right)
  then show "round_pos x = x"
    by (simp only: round_pos_def round_even_of_int) (metis less_irrefl nonzero_eq_divide_eq pow2_pos)
  show "x < pow2 1024" using xlt pow2_mono [of "e + 53" 1024] e by simp
qed

lemma rnd_exact: "f64_rep x \<Longrightarrow> rnd x = F_Fin x"
  using round_pos_exact [of x] round_pos_exact [of "- x"]
  by (cases x "0 :: rat" rule: linorder_cases) (auto simp: rnd_def Let_def abs_if)

lemma f64_rep_of_int: "\<bar>n\<bar> < 2 ^ 53 \<Longrightarrow> f64_rep (of_int n)"
  unfolding f64_rep_def by (rule exI [of _ n], rule exI [of _ 0]) (simp add: pow2_def)

lemma rnd_of_int: "\<bar>n\<bar> < 2 ^ 53 \<Longrightarrow> rnd (of_int n) = F_Fin (of_int n)"
  by (simp add: rnd_exact f64_rep_of_int)

lemma rnd_1 [simp]: "rnd 1 = F_Fin 1"
  using rnd_of_int [of 1] by simp

lemma rnd_numeral: "(numeral n :: int) < 2 ^ 53 \<Longrightarrow> rnd (numeral n) = F_Fin (numeral n)"
  using rnd_of_int [of "numeral n"] by simp

section \<open>Arithmetic\<close>

fun fneg :: "f64 \<Rightarrow> f64" where
  "fneg F_NaN = F_NaN"
| "fneg F_PInf = F_NInf"
| "fneg F_NInf = F_PInf"
| "fneg (F_Fin x) = F_Fin (- x)"

fun fadd :: "f64 \<Rightarrow> f64 \<Rightarrow> f64" where
  "fadd (F_Fin x) (F_Fin y) = rnd (x + y)"
| "fadd a b = (if a = F_NaN \<or> b = F_NaN then F_NaN
               else if is_finite a then b
               else if is_finite b \<or> a = b then a
               else F_NaN)"

definition fsub :: "f64 \<Rightarrow> f64 \<Rightarrow> f64" where
  "fsub a b = fadd a (fneg b)"

fun fsgn :: "f64 \<Rightarrow> int" where
  "fsgn F_NaN = 0"
| "fsgn F_PInf = 1"
| "fsgn F_NInf = - 1"
| "fsgn (F_Fin x) = (if 0 < x then 1 else if x < 0 then - 1 else 0)"

definition finf :: "int \<Rightarrow> f64" where
  "finf s = (if 0 < s then F_PInf else if s < 0 then F_NInf else F_NaN)"

fun fmul :: "f64 \<Rightarrow> f64 \<Rightarrow> f64" where
  "fmul (F_Fin x) (F_Fin y) = rnd (x * y)"
| "fmul a b = (if a = F_NaN \<or> b = F_NaN then F_NaN else finf (fsgn a * fsgn b))"

fun fdiv :: "f64 \<Rightarrow> f64 \<Rightarrow> f64" where
  "fdiv (F_Fin x) (F_Fin y) = (if y = 0 then finf (fsgn (F_Fin x)) else rnd (x / y))"
| "fdiv a b = (if a = F_NaN \<or> b = F_NaN then F_NaN
               else if is_finite a then F_Fin 0
               else if is_finite b then (if fsgn b < 0 then fneg a else a)
               else F_NaN)"

fun fabs :: "f64 \<Rightarrow> f64" where
  "fabs F_NaN = F_NaN"
| "fabs (F_Fin x) = F_Fin \<bar>x\<bar>"
| "fabs a = F_PInf"

definition f_of_int :: "int \<Rightarrow> f64" where
  "f_of_int n = rnd (of_int n)"

text \<open>
  Conversion to \<^verbatim>\<open>int64\<close> truncates towards zero. Where the value does not fit
  (or is NaN) the Go specification leaves the result to the implementation: it is the
  parameter \<open>oob\<close>.
\<close>

definition rat_trunc :: "rat \<Rightarrow> int" where
  "rat_trunc x = (if 0 \<le> x then \<lfloor>x\<rfloor> else - \<lfloor>- x\<rfloor>)"

fun f_to_int64 :: "(f64 \<Rightarrow> int) \<Rightarrow> f64 \<Rightarrow> int" where
  "f_to_int64 oob (F_Fin x) =
     (let n = rat_trunc x in if - (2 ^ 63) \<le> n \<and> n < 2 ^ 63 then n else oob (F_Fin x))"
| "f_to_int64 oob a = oob a"

lemma f_of_int_not_NaN [simp]: "f_of_int n \<noteq> F_NaN"
  by (simp add: f_of_int_def)

lemma f_of_int_mono: "m \<le> n \<Longrightarrow> f_of_int m \<le> f_of_int n"
  by (simp add: f_of_int_def rnd_mono)

lemma f_of_int_exact: "\<bar>n\<bar> < 2 ^ 53 \<Longrightarrow> f_of_int n = F_Fin (of_int n)"
  by (simp add: f_of_int_def rnd_of_int)

lemma f_of_int_0 [simp]: "f_of_int 0 = F_Fin 0"
  by (simp add: f_of_int_def)

lemma f_of_int_nonneg: "0 \<le> n \<Longrightarrow> F_Fin 0 \<le> f_of_int n"
  using f_of_int_mono [of 0 n] by simp

lemma f64_rep_pow2: "0 \<le> e \<Longrightarrow> e \<le> 971 \<Longrightarrow> f64_rep (pow2 e)"
  unfolding f64_rep_def by (rule exI [of _ 1], rule exI [of _ e]) simp

lemma rnd_finite:
  assumes "\<bar>x\<bar> \<le> pow2 971" shows "\<exists>y. rnd x = F_Fin y"
proof -
  have "rnd x \<le> F_Fin (pow2 971)" "F_Fin (- pow2 971) \<le> rnd x"
    using assms rnd_mono [of x "pow2 971"] rnd_mono [of "- pow2 971" x]
    by (simp_all add: rnd_exact f64_rep_pow2 abs_le_iff)
  then show ?thesis by (cases "rnd x") auto
qed

lemma f_of_int_finite:
  assumes "\<bar>n\<bar> < 2 ^ 64" shows "\<exists>y. f_of_int n = F_Fin y"
proof -
  have "\<bar>of_int n :: rat\<bar> \<le> of_int (2 ^ 64)"
    using assms by (simp only: of_int_le_iff flip: of_int_abs)
  also have "\<dots> = pow2 64" by (simp add: pow2_def)
  also have "\<dots> \<le> pow2 971" by (rule pow2_mono) simp
  finally show ?thesis unfolding f_of_int_def by (rule rnd_finite)
qed

lemma f_of_int_pos:
  assumes "0 < n" shows "F_Fin 0 < f_of_int n"
proof -
  have "F_Fin 1 \<le> f_of_int n" using assms f_of_int_mono [of 1 n] by (simp add: f_of_int_def)
  then show ?thesis by (rule f64_less_le_trans [rotated]) simp
qed

lemma fdiv_not_NaN: "is_finite a \<Longrightarrow> is_finite b \<Longrightarrow> F_Fin 0 < b \<Longrightarrow> fdiv a b \<noteq> F_NaN"
  by (cases a; cases b) auto

lemma fdiv_unit_interval:
  assumes "F_Fin 0 \<le> a" "a \<le> b" "F_Fin 0 < b" "is_finite b"
  shows "F_Fin 0 \<le> fdiv a b" and "fdiv a b \<le> F_Fin 1"
proof -
  obtain y where b: "b = F_Fin y" using assms(4) by (cases b) auto
  obtain x where a: "a = F_Fin x" using assms(1,2) b by (cases a) auto
  have xy: "0 \<le> x" "x \<le> y" "0 < y" using assms a b by auto
  then have "0 \<le> x / y" "x / y \<le> 1" by simp_all
  then show "F_Fin 0 \<le> fdiv a b" "fdiv a b \<le> F_Fin 1"
    using rnd_mono [of "x / y" 1] rnd_mono [of 0 "x / y"] xy by (simp_all add: a b)
qed

lemma fmul_mono_pos:
  assumes "F_Fin x \<le> a" "a \<le> F_Fin y" "0 \<le> c"
  shows "rnd (x * c) \<le> fmul a (F_Fin c)" and "fmul a (F_Fin c) \<le> rnd (y * c)"
proof -
  obtain z where z: "a = F_Fin z" "x \<le> z" "z \<le> y" using assms by (cases a) auto
  then show "rnd (x * c) \<le> fmul a (F_Fin c)" "fmul a (F_Fin c) \<le> rnd (y * c)"
    using assms(3) by (simp_all add: rnd_mono mult_right_mono)
qed

text \<open>A percentage of two counts, as the code writes it, lies between 0 and 100.\<close>

lemma percent_bounds:
  assumes "0 \<le> m" "m \<le> n" "0 < n" "n < 2 ^ 63"
  shows "F_Fin 0 \<le> fmul (fdiv (f_of_int m) (f_of_int n)) (F_Fin 100)"
    and "fmul (fdiv (f_of_int m) (f_of_int n)) (F_Fin 100) \<le> F_Fin 100"
proof -
  have "is_finite (f_of_int n)" using f_of_int_finite [of n] assms by auto
  then have q: "F_Fin 0 \<le> fdiv (f_of_int m) (f_of_int n)" "fdiv (f_of_int m) (f_of_int n) \<le> F_Fin 1"
    using fdiv_unit_interval [of "f_of_int m" "f_of_int n"] assms
    by (simp_all add: f_of_int_nonneg f_of_int_mono f_of_int_pos)
  then show "F_Fin 0 \<le> fmul (fdiv (f_of_int m) (f_of_int n)) (F_Fin 100)"
    and "fmul (fdiv (f_of_int m) (f_of_int n)) (F_Fin 100) \<le> F_Fin 100"
    using fmul_mono_pos [of 0 _ 1 100] by (simp_all add: rnd_numeral)
qed

end
