(* ===== verification/Go_Strings.thy ===== *)
theory Go_Strings
  imports Go_Prelude Go_Float
begin

text \<open>
  What the code uses of Go's \<^verbatim>\<open>strings\<close> and \<^verbatim>\<open>strconv\<close> packages, on strings
  as lists of bytes.

  \<open>TrimSpace\<close> strips the UTF-8 encodings of every code point with the Unicode
  property White\_Space. \<open>ToLower\<close> and \<open>ToUpper\<close> map the ASCII letters and the
  four non-ASCII code points whose simple case mapping is ASCII (U+0130, U+212A, U+0131,
  U+017F); the other non-ASCII code points are left alone, which no comparison with an
  ASCII literal can see. \<open>ParseInt\<close> is base 10, 64 bits. \<open>ParseFloat\<close> follows
  \<^verbatim>\<open>strconv.readFloat\<close>: signs, \<^verbatim>\<open>inf\<close>, \<^verbatim>\<open>nan\<close>, decimal and
  hexadecimal mantissas, exponents, digit separators; the value is rounded once, and an
  overflow is an error, as \<^verbatim>\<open>ErrRange\<close> is.
\<close>

section \<open>Prefixes, suffixes, search\<close>

definition HasPrefix :: "string \<Rightarrow> string \<Rightarrow> bool" where
  "HasPrefix s p = (take (length p) s = p)"

definition HasSuffix :: "string \<Rightarrow> string \<Rightarrow> bool" where
  "HasSuffix s p = HasPrefix (rev s) (rev p)"

definition TrimSuffix :: "string \<Rightarrow> string \<Rightarrow> string" where
  "TrimSuffix s p = (if HasSuffix s p then take (length s - length p) s else s)"

definition TrimPrefix :: "string \<Rightarrow> string \<Rightarrow> string" where
  "TrimPrefix s p = (if HasPrefix s p then drop (length p) s else s)"

primrec Contains :: "string \<Rightarrow> string \<Rightarrow> bool" where
  "Contains [] p = (p = [])"
| "Contains (c # s) p = (HasPrefix (c # s) p \<or> Contains s p)"

primrec IndexByte :: "string \<Rightarrow> char \<Rightarrow> nat option" where
  "IndexByte [] c = None"
| "IndexByte (x # s) c = (if x = c then Some 0 else map_option Suc (IndexByte s c))"

text \<open>\<^verbatim>\<open>strings.Split\<close> with a one-byte separator: never the empty list.\<close>

primrec SplitByte :: "char \<Rightarrow> string \<Rightarrow> string list" where
  "SplitByte c [] = [[]]"
| "SplitByte c (x # s) = (if x = c then [] # SplitByte c s
     else (x # hd (SplitByte c s)) # tl (SplitByte c s))"

text \<open>\<^verbatim>\<open>strings.LastIndex(s, ".")\<close> followed by the slice after it.\<close>

definition AfterLast :: "char \<Rightarrow> string \<Rightarrow> string option" where
  "AfterLast c s = (if c \<in> set s then Some (rev (takeWhile (\<lambda>x. x \<noteq> c) (rev s))) else None)"

lemma HasPrefix_append [simp]: "HasPrefix (p @ s) p"
  by (simp add: HasPrefix_def)

lemma HasPrefix_iff: "HasPrefix s p \<longleftrightarrow> (\<exists>r. s = p @ r)"
  unfolding HasPrefix_def by (metis append_eq_conv_conj append_take_drop_id)

lemma IndexByte_Some: "IndexByte s c = Some i \<Longrightarrow> i < length s \<and> s ! i = c \<and> c \<notin> set (take i s)"
proof (induction s arbitrary: i)
  case (Cons x s)
  show ?case
  proof (cases "x = c")
    case False
    with Cons.prems obtain j where "IndexByte s c = Some j" "i = Suc j" by auto
    with Cons.IH [of j] False show ?thesis by simp
  qed (use Cons.prems in auto)
qed simp

lemma IndexByte_None: "IndexByte s c = None \<longleftrightarrow> c \<notin> set s"
  by (induction s) auto

lemma SplitByte_not_Nil [simp]: "SplitByte c s \<noteq> []"
  by (cases s) auto

section \<open>White space and letter case\<close>

definition go_spaces :: "string list" where
  "go_spaces =
    [[CHR 0x09], [CHR 0x0A], [CHR 0x0B], [CHR 0x0C], [CHR 0x0D], [CHR 0x20],
     [CHR 0xC2, CHR 0x85], [CHR 0xC2, CHR 0xA0], [CHR 0xE1, CHR 0x9A, CHR 0x80],
     [CHR 0xE2, CHR 0x80, CHR 0x80], [CHR 0xE2, CHR 0x80, CHR 0x81], [CHR 0xE2, CHR 0x80, CHR 0x82],
     [CHR 0xE2, CHR 0x80, CHR 0x83], [CHR 0xE2, CHR 0x80, CHR 0x84], [CHR 0xE2, CHR 0x80, CHR 0x85],
     [CHR 0xE2, CHR 0x80, CHR 0x86], [CHR 0xE2, CHR 0x80, CHR 0x87], [CHR 0xE2, CHR 0x80, CHR 0x88],
     [CHR 0xE2, CHR 0x80, CHR 0x89], [CHR 0xE2, CHR 0x80, CHR 0x8A], [CHR 0xE2, CHR 0x80, CHR 0xA8],
     [CHR 0xE2, CHR 0x80, CHR 0xA9], [CHR 0xE2, CHR 0x80, CHR 0xAF], [CHR 0xE2, CHR 0x81, CHR 0x9F],
     [CHR 0xE3, CHR 0x80, CHR 0x80]]"

function strip :: "string list \<Rightarrow> string \<Rightarrow> string" where
  "strip ws s = (case find (\<lambda>w. w \<noteq> [] \<and> HasPrefix s w) ws of
     None \<Rightarrow> s | Some w \<Rightarrow> strip ws (drop (length w) s))"
  by pat_completeness auto
termination
proof (relation "measure (\<lambda>(ws, s). length s)", goal_cases)
  case (2 ws s w)
  then have "w \<noteq> []" "HasPrefix s w" by (auto simp: find_Some_iff)
  then show ?case by (cases s) (auto simp: HasPrefix_def)
qed simp

declare strip.simps [simp del]

definition TrimSpace :: "string \<Rightarrow> string" where
  "TrimSpace s = rev (strip (map rev go_spaces) (rev (strip go_spaces s)))"

lemma strip_suffix: "\<exists>p. s = p @ strip ws s"
proof (induction ws s rule: strip.induct)
  case (1 ws s)
  show ?case
  proof (cases "find (\<lambda>w. w \<noteq> [] \<and> HasPrefix s w) ws")
    case None
    then show ?thesis by (simp add: strip.simps [of ws s])
  next
    case (Some w)
    with 1 [OF Some] obtain p where p: "drop (length w) s = p @ strip ws (drop (length w) s)" by blast
    have "s = take (length w) s @ drop (length w) s" by simp
    also have "\<dots> = (take (length w) s @ p) @ strip ws (drop (length w) s)" by (subst p) simp
    also have "strip ws (drop (length w) s) = strip ws s" by (simp add: strip.simps [of ws s] Some)
    finally show ?thesis by blast
  qed
qed

lemma strip_done: "find (\<lambda>w. w \<noteq> [] \<and> HasPrefix (strip ws s) w) ws = None"
proof (induction ws s rule: strip.induct)
  case (1 ws s)
  then show ?case
    by (cases "find (\<lambda>w. w \<noteq> [] \<and> HasPrefix s w) ws") (simp_all add: strip.simps [of ws s])
qed

lemma strip_fixed: "find (\<lambda>w. w \<noteq> [] \<and> HasPrefix s w) ws = None \<Longrightarrow> strip ws s = s"
  by (simp add: strip.simps [of ws s])

lemma TrimSpace_length: "length (TrimSpace s) \<le> length s"
proof -
  obtain p where "s = p @ strip go_spaces s" using strip_suffix by blast
  moreover obtain q where "rev (strip go_spaces s) = q @ strip (map rev go_spaces) (rev (strip go_spaces s))"
    using strip_suffix by blast
  ultimately have "length (strip go_spaces s) \<le> length s"
    "length (strip (map rev go_spaces) (rev (strip go_spaces s))) \<le> length (rev (strip go_spaces s))"
    by (metis le_add2 length_append)+
  then show ?thesis by (simp add: TrimSpace_def)
qed

lemma strip_suffix_fixed:
  assumes "find (\<lambda>w. w \<noteq> [] \<and> HasPrefix (s @ t) w) ws = None"
  shows "strip ws s = s"
proof (rule strip_fixed, unfold find_None_iff, intro notI)
  assume "\<exists>w. w \<in> set ws \<and> w \<noteq> [] \<and> HasPrefix s w"
  then obtain w where "w \<in> set ws" "w \<noteq> []" "HasPrefix s w" by blast
  moreover from this have "HasPrefix (s @ t) w" by (auto simp: HasPrefix_iff)
  ultimately show False using assms by (auto simp: find_None_iff)
qed

lemma TrimSpace_idem [simp]: "TrimSpace (TrimSpace s) = TrimSpace s"
proof -
  let ?a = "strip go_spaces s" and ?R = "map rev go_spaces"
  let ?b = "rev (strip ?R (rev ?a))"
  obtain q where "rev ?a = q @ strip ?R (rev ?a)" using strip_suffix by blast
  then have "?a = ?b @ rev q" by (metis rev_append rev_rev_ident)
  then have "strip go_spaces ?b = ?b" using strip_done [of go_spaces s] by (metis strip_suffix_fixed)
  moreover have "strip ?R (rev ?b) = rev ?b" using strip_done strip_fixed by simp
  ultimately show ?thesis by (simp add: TrimSpace_def)
qed

definition space_heads :: string where "space_heads = map hd go_spaces"
definition space_lasts :: string where "space_lasts = map last go_spaces"

lemma strip_head: "c \<notin> hd ` set ws \<Longrightarrow> strip ws (c # r) = c # r"
  by (rule strip_fixed) (auto simp: find_None_iff HasPrefix_iff Cons_eq_append_conv image_iff)

lemma hd_rev_spaces: "hd ` set (map rev go_spaces) = set space_lasts"
  by (simp add: space_lasts_def hd_rev image_comp)

text \<open>A string that begins and ends with something other than white space is not trimmed.\<close>

lemma TrimSpace_id:
  assumes "s \<noteq> []" "hd s \<notin> set space_heads" "last s \<notin> set space_lasts"
  shows "TrimSpace s = s"
proof -
  have "strip go_spaces s = s"
    using assms strip_head [of "hd s" go_spaces "tl s"] by (simp add: space_heads_def)
  moreover have "strip (map rev go_spaces) (rev s) = rev s"
  proof -
    have "rev s = last s # tl (rev s)" using assms(1) by (metis hd_rev list.collapse rev_is_Nil_conv)
    moreover have "last s \<notin> hd ` set (map rev go_spaces)" unfolding hd_rev_spaces by (rule assms(3))
    ultimately show ?thesis by (metis strip_head)
  qed
  ultimately show ?thesis by (simp add: TrimSpace_def)
qed

definition lower_char :: "char \<Rightarrow> char" where
  "lower_char c = (case map_of (zip ''ABCDEFGHIJKLMNOPQRSTUVWXYZ'' ''abcdefghijklmnopqrstuvwxyz'') c of
     None \<Rightarrow> c | Some d \<Rightarrow> d)"

definition upper_char :: "char \<Rightarrow> char" where
  "upper_char c = (case map_of (zip ''abcdefghijklmnopqrstuvwxyz'' ''ABCDEFGHIJKLMNOPQRSTUVWXYZ'') c of
     None \<Rightarrow> c | Some d \<Rightarrow> d)"

fun ToLower :: "string \<Rightarrow> string" where
  "ToLower [] = []"
| "ToLower (c # s) =
     (if HasPrefix (c # s) [CHR 0xC4, CHR 0xB0] then CHR ''i'' # ToLower (drop 1 s)
      else if HasPrefix (c # s) [CHR 0xE2, CHR 0x84, CHR 0xAA] then CHR ''k'' # ToLower (drop 2 s)
      else lower_char c # ToLower s)"

fun ToUpper :: "string \<Rightarrow> string" where
  "ToUpper [] = []"
| "ToUpper (c # s) =
     (if HasPrefix (c # s) [CHR 0xC4, CHR 0xB1] then CHR ''I'' # ToUpper (drop 1 s)
      else if HasPrefix (c # s) [CHR 0xC5, CHR 0xBF] then CHR ''S'' # ToUpper (drop 1 s)
      else upper_char c # ToUpper s)"

section \<open>Integers in decimal\<close>

definition digit_char :: "int \<Rightarrow> char" where
  "digit_char d = ''0123456789'' ! nat d"

definition digit_val :: "char \<Rightarrow> int option" where
  "digit_val c = map_of (zip ''0123456789'' [0, 1, 2, 3, 4, 5, 6, 7, 8, 9]) c"

function dec_string :: "int \<Rightarrow> string" where
  "dec_string n = (if n < 10 then [digit_char n] else dec_string (n div 10) @ [digit_char (n mod 10)])"
  by pat_completeness auto
termination
  by (relation "measure nat") auto

declare dec_string.simps [simp del]

text \<open>\<^verbatim>\<open>strconv.Itoa\<close>, \<^verbatim>\<open>strconv.FormatInt(n, 10)\<close> and \<^verbatim>\<open>%d\<close>.\<close>

definition Itoa :: "int \<Rightarrow> string" where
  "Itoa n = (if n < 0 then CHR ''-'' # dec_string (- n) else dec_string n)"

fun read_digits :: "int \<Rightarrow> string \<Rightarrow> int option" where
  "read_digits acc [] = Some acc"
| "read_digits acc (c # s) = (case digit_val c of None \<Rightarrow> None | Some d \<Rightarrow> read_digits (10 * acc + d) s)"

definition read_decimal :: "string \<Rightarrow> int option" where
  "read_decimal s = (if s = [] then None else read_digits 0 s)"

definition strip_sign :: "string \<Rightarrow> bool \<times> string" where
  "strip_sign s = (case s of [] \<Rightarrow> (False, [])
     | c # t \<Rightarrow> if c = CHR ''-'' then (True, t) else if c = CHR ''+'' then (False, t) else (False, s))"

definition ParseInt :: "string \<Rightarrow> int option" where
  "ParseInt s =
     (let (neg, ds) = strip_sign s
      in case read_decimal ds of None \<Rightarrow> None
         | Some n \<Rightarrow> (let v = (if neg then - n else n) in if int64 v then Some v else None))"

lemma digit_cases: "0 \<le> d \<Longrightarrow> d < 10 \<Longrightarrow>
  d = 0 \<or> d = 1 \<or> d = 2 \<or> d = 3 \<or> d = 4 \<or> d = 5 \<or> d = 6 \<or> d = 7 \<or> d = 8 \<or> d = (9 :: int)"
  by presburger

lemma digit_val_char [simp]: "0 \<le> d \<Longrightarrow> d < 10 \<Longrightarrow> digit_val (digit_char d) = Some d"
  by (drule (1) digit_cases) (auto simp: digit_val_def digit_char_def)

lemma digit_char_no_sign: "0 \<le> d \<Longrightarrow> d < 10 \<Longrightarrow> digit_char d \<noteq> CHR ''-'' \<and> digit_char d \<noteq> CHR ''+''"
  by (drule (1) digit_cases) (auto simp: digit_char_def)

lemma read_digits_append: "read_digits acc (s @ t) = Option.bind (read_digits acc s) (\<lambda>a. read_digits a t)"
  by (induction s arbitrary: acc) (auto split: option.splits)

lemma dec_string_not_Nil [simp]: "dec_string n \<noteq> []"
  by (subst dec_string.simps) simp

lemma read_dec_string: "0 \<le> n \<Longrightarrow> read_digits 0 (dec_string n) = Some n"
proof (induction n rule: dec_string.induct)
  case (1 n)
  then show ?case
    by (cases "n < 10") (simp_all add: dec_string.simps [of n] read_digits_append pos_imp_zdiv_nonneg_iff)
qed

lemma dec_string_digits: "0 \<le> n \<Longrightarrow> c \<in> set (dec_string n) \<Longrightarrow> \<exists>d. 0 \<le> d \<and> d < 10 \<and> c = digit_char d"
proof (induction n rule: dec_string.induct)
  case (1 n)
  show ?case
  proof (cases "n < 10")
    case True
    then show ?thesis using "1.prems" by (auto simp: dec_string.simps [of n])
  next
    case False
    then have "c \<in> set (dec_string (n div 10)) \<or> c = digit_char (n mod 10)"
      using "1.prems" by (auto simp: dec_string.simps [of n])
    then show ?thesis using "1.IH" False by (auto intro: exI [of _ "n mod 10"])
  qed
qed

text \<open>Printing an \<^verbatim>\<open>int64\<close> and parsing it back is the identity.\<close>

lemma ParseInt_Itoa:
  assumes n: "int64 n" shows "ParseInt (Itoa n) = Some n"
proof (cases "n < 0")
  case True
  then show ?thesis
    using n by (simp add: Itoa_def ParseInt_def strip_sign_def read_decimal_def read_dec_string)
next
  case False
  obtain c t where ct: "dec_string n = c # t" by (metis list.exhaust dec_string_not_Nil)
  then obtain d where "0 \<le> d" "d < 10" "c = digit_char d"
    using dec_string_digits [of n c] False by auto
  then have "strip_sign (c # t) = (False, c # t)"
    using digit_char_no_sign [of d] by (simp add: strip_sign_def)
  then show ?thesis using n False read_dec_string [of n]
    by (simp add: Itoa_def ParseInt_def read_decimal_def ct)
qed

section \<open>Floating-point numbers in text\<close>

definition mant_digit :: "bool \<Rightarrow> char \<Rightarrow> int option" where
  "mant_digit hex c =
     (if hex then map_of (zip ''0123456789abcdef'' [0, 1, 2, 3, 4, 5, 6, 7, 8, 9, 10, 11, 12, 13, 14, 15]) (lower_char c) else digit_val c)"

record mant =
  m_val :: int
  m_frac :: int
  m_dot :: bool
  m_digits :: bool
  m_under :: bool

fun scan_mantissa :: "bool \<Rightarrow> mant \<Rightarrow> string \<Rightarrow> mant \<times> string" where
  "scan_mantissa hex m [] = (m, [])"
| "scan_mantissa hex m (c # s) =
     (if c = CHR ''_'' then scan_mantissa hex (m\<lparr>m_under := True\<rparr>) s
      else if c = CHR ''.'' then
        (if m_dot m then (m, c # s) else scan_mantissa hex (m\<lparr>m_dot := True\<rparr>) s)
      else case mant_digit hex c of
        None \<Rightarrow> (m, c # s)
      | Some d \<Rightarrow> scan_mantissa hex
          (m\<lparr>m_val := (if hex then 16 else 10) * m_val m + d,
             m_frac := (if m_dot m then m_frac m + 1 else m_frac m), m_digits := True\<rparr>) s)"

fun scan_exponent :: "int \<Rightarrow> bool \<Rightarrow> string \<Rightarrow> int \<times> bool \<times> string" where
  "scan_exponent e us [] = (e, us, [])"
| "scan_exponent e us (c # s) =
     (if c = CHR ''_'' then scan_exponent e True s
      else case digit_val c of
        None \<Rightarrow> (e, us, c # s)
      | Some d \<Rightarrow> scan_exponent (if e < 10000 then 10 * e + d else e) us s)"

text \<open>\<^verbatim>\<open>strconv.underscoreOK\<close>; \<open>saw\<close> is the class of the last byte.\<close>

datatype saw = Saw_start | Saw_digit | Saw_under | Saw_other

fun under_scan :: "bool \<Rightarrow> saw \<Rightarrow> string \<Rightarrow> bool" where
  "under_scan hex saw [] = (saw \<noteq> Saw_under)"
| "under_scan hex saw (c # s) =
     (if mant_digit hex c \<noteq> None then under_scan hex Saw_digit s
      else if c = CHR ''_'' then saw = Saw_digit \<and> under_scan hex Saw_under s
      else saw \<noteq> Saw_under \<and> under_scan hex Saw_other s)"

definition underscoreOK :: "string \<Rightarrow> bool" where
  "underscoreOK s = (case snd (strip_sign s) of
     a # b # t \<Rightarrow> if a = CHR ''0'' \<and> lower_char b \<in> set ''box''
        then under_scan (lower_char b = CHR ''x'') Saw_digit t
        else under_scan False Saw_start (a # b # t)
   | t \<Rightarrow> under_scan False Saw_start t)"

definition scale_float :: "bool \<Rightarrow> int \<Rightarrow> int \<Rightarrow> int \<Rightarrow> rat" where
  "scale_float hex m k e =
     (if m = 0 then 0
      else if hex then of_int m * pow2 (e - 4 * k)
      else if k \<le> e then of_int (m * 10 ^ nat (e - k))
      else of_int m / of_int (10 ^ nat (k - e)))"

definition read_float :: "string \<Rightarrow> rat option" where
  "read_float s =
     (let (neg, t) = strip_sign s;
          hex = (2 < length t \<and> t ! 0 = CHR ''0'' \<and> lower_char (t ! 1) = CHR ''x'');
          (m, r) = scan_mantissa hex \<lparr>m_val = 0, m_frac = 0, m_dot = False, m_digits = False, m_under = False\<rparr>
                     (if hex then drop 2 t else t);
          finish = (\<lambda>e us. if (m_under m \<or> us) \<and> \<not> underscoreOK s then None
                     else Some ((if neg then - 1 else 1) * scale_float hex (m_val m) (m_frac m) e))
      in if \<not> m_digits m then None
         else case r of
           [] \<Rightarrow> if hex then None else finish 0 False
         | c # r1 \<Rightarrow>
             if lower_char c \<noteq> (if hex then CHR ''p'' else CHR ''e'') then None
             else (let (eneg, r2) = strip_sign r1
                   in case r2 of [] \<Rightarrow> None
                      | d # _ \<Rightarrow> if digit_val d = None then None
                          else (let (e, us, r3) = scan_exponent 0 False r2
                                in if r3 \<noteq> [] then None
                                   else finish (if eneg then - e else e) us)))"

definition special_float :: "string \<Rightarrow> f64 option" where
  "special_float s =
     (let (neg, t) = strip_sign s; w = map lower_char t
      in if w = ''inf'' \<or> w = ''infinity'' then Some (if neg then F_NInf else F_PInf)
         else if map lower_char s = ''nan'' then Some F_NaN else None)"

definition ParseFloat :: "string \<Rightarrow> f64 option" where
  "ParseFloat s =
     (case special_float s of Some f \<Rightarrow> Some f
      | None \<Rightarrow> (case read_float s of None \<Rightarrow> None
          | Some x \<Rightarrow> if is_finite (rnd x) then Some (rnd x) else None))"

lemma ParseFloat_finite_or_special:
  "ParseFloat s = Some f \<Longrightarrow> is_finite f \<or> special_float s = Some f"
  by (auto simp: ParseFloat_def split: option.splits if_splits)

text \<open>The \<^verbatim>\<open>%.2f\<close> verb: two decimals, the exact value rounded half to even.\<close>

definition two_digits :: "int \<Rightarrow> string" where
  "two_digits n = [digit_char (n div 10 mod 10), digit_char (n mod 10)]"

fun fmt_f2 :: "f64 \<Rightarrow> string" where
  "fmt_f2 F_NaN = ''NaN''"
| "fmt_f2 F_PInf = ''+Inf''"
| "fmt_f2 F_NInf = ''-Inf''"
| "fmt_f2 (F_Fin x) =
     (let n = round_even (\<bar>x\<bar> * 100)
      in (if x < 0 then ''-'' else []) @ dec_string (n div 100) @ ''.'' @ two_digits (n mod 100))"

section \<open>More on splitting and trimming\<close>

lemma SplitByte_length: "length (SplitByte c s) = Suc (count_list s c)"
  by (induction s) auto

lemma Contains_subset: "Contains s p \<Longrightarrow> set p \<subseteq> set s"
proof (induction s)
  case (Cons c s)
  have "HasPrefix (c # s) p \<Longrightarrow> set p \<subseteq> set (c # s)" by (metis HasPrefix_iff set_append Un_upper1)
  then show ?case using Cons by auto
qed simp

lemma Itoa_digits: "0 \<le> n \<Longrightarrow> c \<in> set (Itoa n) \<Longrightarrow> c \<in> set ''0123456789''"
proof -
  assume n: "0 \<le> n" and "c \<in> set (Itoa n)"
  then obtain d where "0 \<le> d" "d < 10" "c = digit_char d" using dec_string_digits by (auto simp: Itoa_def)
  then show ?thesis by (auto simp: digit_char_def dest!: digit_cases)
qed

lemma Itoa_not_Nil [simp]: "Itoa n \<noteq> []"
  by (simp add: Itoa_def)

lemma spaces_not_digits: "c \<in> set ''0123456789'' \<Longrightarrow> c \<notin> set space_heads \<and> c \<notin> set space_lasts"
  by (auto simp: space_heads_def space_lasts_def go_spaces_def)

lemma TrimSpace_Itoa: "0 \<le> n \<Longrightarrow> TrimSpace (Itoa n) = Itoa n"
  using spaces_not_digits [OF Itoa_digits] by (intro TrimSpace_id) auto

lemma TrimSpace_leading_blank: "TrimSpace (CHR '' '' # s) = TrimSpace s"
proof -
  have "strip go_spaces (CHR '' '' # s) = strip go_spaces s"
    by (subst strip.simps) (simp add: go_spaces_def HasPrefix_def)
  then show ?thesis by (simp add: TrimSpace_def)
qed

end
