(* ===== verification/Go_Time.thy ===== *)
theory Go_Time
  imports Go_Strings
begin

text \<open>
  What the code uses of Go's \<^verbatim>\<open>time\<close> package.

  A \<^verbatim>\<open>time.Duration\<close> is a number of nanoseconds, an \<^verbatim>\<open>int64\<close>. A
  \<^verbatim>\<open>time.Time\<close> is the number of nanoseconds since the zero time, which is the only
  time for which \<open>IsZero\<close> holds. \<open>time_sub\<close> saturates at the bounds of a
  duration, as \<^verbatim>\<open>Time.Sub\<close> does.
\<close>

type_synonym Duration = int
type_synonym Time = int

definition Nanosecond :: Duration where "Nanosecond = 1"
definition Millisecond :: Duration where "Millisecond = 1000000"
definition Second :: Duration where "Second = 1000000000"
definition Hour :: Duration where "Hour = 3600 * Second"

lemmas duration_units = Nanosecond_def Millisecond_def Second_def Hour_def

definition IsZero :: "Time \<Rightarrow> bool" where
  "IsZero t = (t = 0)"

definition time_sub :: "Time \<Rightarrow> Time \<Rightarrow> Duration" where
  "time_sub t u = (if t - u < - (2 ^ 63) then - (2 ^ 63) else if MaxInt64 < t - u then MaxInt64 else t - u)"

definition time_add :: "Time \<Rightarrow> Duration \<Rightarrow> Time" where
  "time_add t d = t + d"

definition Microseconds :: "Duration \<Rightarrow> int" where
  "Microseconds d = go_div d 1000"

definition Milliseconds :: "Duration \<Rightarrow> int" where
  "Milliseconds d = go_div d 1000000"

text \<open>\<^verbatim>\<open>Duration.Seconds\<close>: whole seconds and the nanosecond rest, each converted.\<close>

definition Seconds :: "Duration \<Rightarrow> f64" where
  "Seconds d = fadd (f_of_int (go_div d 1000000000)) (fdiv (f_of_int (go_mod d 1000000000)) (F_Fin 1000000000))"

lemma time_sub_range [simp]: "int64 (time_sub t u)"
  by (simp add: time_sub_def int64_def)

lemma time_sub_nonneg: "u \<le> t \<Longrightarrow> 0 \<le> time_sub t u"
  by (simp add: time_sub_def)

lemma time_sub_pos_iff: "0 < time_sub t u \<longleftrightarrow> u < t"
  by (simp add: time_sub_def)

lemma time_sub_exact: "int64 (t - u) \<Longrightarrow> time_sub t u = t - u"
  by (simp add: time_sub_def int64_def)

lemma Microseconds_nonneg: "0 \<le> d \<Longrightarrow> Microseconds d = d div 1000"
  by (simp add: Microseconds_def go_div_nonneg)

lemma Milliseconds_nonneg: "0 \<le> d \<Longrightarrow> Milliseconds d = d div 1000000"
  by (simp add: Milliseconds_def go_div_nonneg)

text \<open>A positive duration has a positive, finite number of seconds.\<close>

lemma Seconds_pos:
  assumes "0 < d" "int64 d"
  shows "F_Fin 0 < Seconds d" and "is_finite (Seconds d)"
proof -
  let ?s = "d div 1000000000" and ?n = "d mod 1000000000"
  have s: "0 \<le> ?s" "\<bar>?s\<bar> < 2 ^ 53" and n: "0 \<le> ?n" "\<bar>?n\<bar> < 2 ^ 53"
    using assms by (auto simp: int64_def)
  have eq: "Seconds d = fadd (F_Fin (of_int ?s)) (rnd (of_int ?n / 1000000000))"
    using assms s n by (simp add: Seconds_def go_div_nonneg go_mod_nonneg f_of_int_exact)
  have "rnd (of_int ?n / 1000000000) \<le> rnd 1"
    using n by (intro rnd_mono) (simp add: divide_le_eq flip: of_int_le_iff)
  moreover have "F_Fin 0 \<le> rnd (of_int ?n / 1000000000)" using n by (intro rnd_nonneg) simp
  ultimately obtain y where y: "rnd (of_int ?n / 1000000000) = F_Fin y" "0 \<le> y" "y \<le> 1"
    by (cases "rnd (of_int ?n / 1000000000)") auto
  have fin: "\<bar>of_int ?s + y\<bar> \<le> pow2 971"
  proof -
    have "(of_int ?s :: rat) \<le> of_int (2 ^ 53)" using s by (simp only: of_int_le_iff)
    moreover have "of_int (2 ^ 53) + 1 \<le> pow2 54" by (simp add: pow2_def)
    moreover have "pow2 54 \<le> pow2 971" by (rule pow2_mono) simp
    ultimately show ?thesis using y s by simp
  qed
  then show "is_finite (Seconds d)" using rnd_finite [OF fin] eq y by auto
  show "F_Fin 0 < Seconds d"
  proof (cases "?s = 0")
    case False
    then have "(1 :: rat) \<le> of_int ?s" using s by simp
    then have "rnd 1 \<le> rnd (of_int ?s + y)" using y by (intro rnd_mono) simp
    then have "F_Fin 1 \<le> Seconds d" using eq y by simp
    then show ?thesis by (rule f64_less_le_trans [rotated]) simp
  next
    case True
    then have "1 \<le> ?n" using assms by simp
    then have "pow2 (- 30) \<le> of_int ?n / 1000000000"
      by (simp add: pow2_def le_divide_eq flip: of_int_le_iff)
    then have "rnd (pow2 (- 30)) \<le> F_Fin y" using y rnd_mono by metis
    moreover have "rnd (pow2 (- 30)) = F_Fin (pow2 (- 30))"
      by (rule rnd_exact, unfold f64_rep_def, rule exI [of _ 1], rule exI [of _ "- 30"]) simp
    ultimately have yy: "pow2 (- 30) \<le> y" by simp
    then have "rnd (pow2 (- 30)) \<le> rnd (0 + y)" by (intro rnd_mono) simp
    then have "F_Fin (pow2 (- 30)) \<le> Seconds d"
      using eq y True \<open>rnd (pow2 (- 30)) = F_Fin (pow2 (- 30))\<close> by simp
    then show ?thesis by (rule f64_less_le_trans [rotated]) simp
  qed
qed

section \<open>The HTTP date format\<close>

text \<open>
  \<^verbatim>\<open>Format(http.TimeFormat)\<close> of a time in UTC, as in
  \<^verbatim>\<open>Mon, 02 Jan 2006 15:04:05 GMT\<close>. The zero time is 1 January of the year 1, a
  Monday; days are counted from 1 March of the year 0 in eras of 400 years, so that a leap day
  ends its year.
\<close>

definition civil_from_days :: "int \<Rightarrow> int \<times> int \<times> int" where
  "civil_from_days days =
     (let z = days + 306;
          era = z div 146097;
          doe = z mod 146097;
          yoe = (doe - doe div 1460 + doe div 36524 - doe div 146096) div 365;
          doy = doe - (365 * yoe + yoe div 4 - yoe div 100);
          mp = (5 * doy + 2) div 153;
          d = doy - (153 * mp + 2) div 5 + 1;
          m = (if mp < 10 then mp + 3 else mp - 9);
          y = yoe + era * 400
      in (if m \<le> 2 then y + 1 else y, m, d))"

definition pad2 :: "int \<Rightarrow> string" where
  "pad2 n = (if n < 10 then ''0'' @ Itoa n else Itoa n)"

definition pad4 :: "int \<Rightarrow> string" where
  "pad4 n = (if n < 10 then ''000'' @ Itoa n else if n < 100 then ''00'' @ Itoa n
     else if n < 1000 then ''0'' @ Itoa n else Itoa n)"

definition http_format :: "Time \<Rightarrow> string" where
  "http_format t =
     (let secs = t div Second; days = secs div 86400; rest = secs mod 86400;
          (y, m, d) = civil_from_days days;
          wd = [''Mon'', ''Tue'', ''Wed'', ''Thu'', ''Fri'', ''Sat'', ''Sun''] ! nat (days mod 7);
          mon = [''Jan'', ''Feb'', ''Mar'', ''Apr'', ''May'', ''Jun'', ''Jul'', ''Aug'', ''Sep'',
                 ''Oct'', ''Nov'', ''Dec''] ! nat (m - 1)
      in wd @ '', '' @ pad2 d @ '' '' @ mon @ '' '' @ pad4 y @ '' '' @
         pad2 (rest div 3600) @ '':'' @ pad2 (rest mod 3600 div 60) @ '':'' @ pad2 (rest mod 60) @ '' GMT'')"

end
