(* ===== verification/Core_Model.thy ===== *)
theory Core_Model
  imports Go_Strings Go_Time
begin

text \<open>
  The vocabulary of \<^verbatim>\<open>internal/core\<close>: exit codes, the lifecycle state machine,
  workload models and their parameters, request outcomes and their classification, and
  request timestamps. A Go string constant type is a datatype with the source's constants;
  its \<^verbatim>\<open>String\<close> method gives the string, and \<^verbatim>\<open>IsValid\<close>, which the
  code also applies to arbitrary strings, is a predicate on strings.

  Errors of the Go standard library are trees (\<open>goerr\<close>): the dynamic types the code
  asks for with \<^verbatim>\<open>errors.As\<close>, the sentinels it asks for with
  \<^verbatim>\<open>errors.Is\<close>, and wrappers.
\<close>

section \<open>Exit codes (exitcode.go)\<close>

datatype ExitCode =
    ExitCodeSuccess | ExitCodeThresholdFailure | ExitCodeValidationFailure
  | ExitCodeRuntimeFailure | ExitCodeSafetyRefusal

definition ExitCode_int :: "ExitCode \<Rightarrow> int" where
  "ExitCode_int c = (case c of ExitCodeSuccess \<Rightarrow> 0 | ExitCodeThresholdFailure \<Rightarrow> 1
     | ExitCodeValidationFailure \<Rightarrow> 2 | ExitCodeRuntimeFailure \<Rightarrow> 3 | ExitCodeSafetyRefusal \<Rightarrow> 4)"

definition ExitCode_String :: "int \<Rightarrow> string" where
  "ExitCode_String c =
     (if c = 0 then ''PASS''
      else if c = 1 then ''FAIL_THRESHOLDS''
      else if c = 2 then ''VALIDATION_FAILURE''
      else if c = 3 then ''RUNTIME_FAILURE''
      else if c = 4 then ''SAFETY_REFUSAL''
      else ''EXIT_CODE_'' @ Itoa c)"

definition ExitCode_Description :: "int \<Rightarrow> string" where
  "ExitCode_Description c =
     (if c = 0 then ''Test completed and all thresholds passed''
      else if c = 1 then ''Test completed but one or more thresholds failed''
      else if c = 2 then ''CLI usage or configuration validation failed''
      else if c = 3 then ''Runtime/tool failure prevented a valid test result''
      else if c = 4 then ''Safety policy refused execution''
      else ''Unknown exit code'')"

definition ExitCode_IsValid :: "int \<Rightarrow> bool" where
  "ExitCode_IsValid c \<longleftrightarrow> c \<ge> ExitCode_int ExitCodeSuccess \<and> c \<le> ExitCode_int ExitCodeSafetyRefusal"

section \<open>The lifecycle (lifecycle.go)\<close>

datatype LifecycleState =
    StateInitialized | StateWarmup | StateRunning | StateCooldown
  | StateGracefulStop | StateCanceled | StateCompleted

definition LifecycleState_String :: "LifecycleState \<Rightarrow> string" where
  "LifecycleState_String s = (case s of
       StateInitialized \<Rightarrow> ''initialized'' | StateWarmup \<Rightarrow> ''warmup'' | StateRunning \<Rightarrow> ''running''
     | StateCooldown \<Rightarrow> ''cooldown'' | StateGracefulStop \<Rightarrow> ''graceful_stop''
     | StateCanceled \<Rightarrow> ''canceled'' | StateCompleted \<Rightarrow> ''completed'')"

definition LifecycleState_IsValid :: "string \<Rightarrow> bool" where
  "LifecycleState_IsValid s \<longleftrightarrow> s \<in> set (map LifecycleState_String
     [StateInitialized, StateWarmup, StateRunning, StateCooldown, StateGracefulStop, StateCanceled, StateCompleted])"

definition CanTransitionTo :: "LifecycleState \<Rightarrow> LifecycleState \<Rightarrow> bool" where
  "CanTransitionTo s next = (case s of
       StateInitialized \<Rightarrow> next = StateWarmup \<or> next = StateRunning \<or> next = StateCanceled
     | StateWarmup \<Rightarrow> next = StateRunning \<or> next = StateGracefulStop \<or> next = StateCanceled
     | StateRunning \<Rightarrow> next = StateCooldown \<or> next = StateGracefulStop \<or> next = StateCanceled \<or> next = StateCompleted
     | StateCooldown \<Rightarrow> next = StateGracefulStop \<or> next = StateCanceled
     | StateGracefulStop \<Rightarrow> next = StateCompleted \<or> next = StateCanceled
     | StateCanceled \<Rightarrow> next = StateCompleted
     | StateCompleted \<Rightarrow> False)"

record LifecycleStateMachine =
  current :: LifecycleState

definition NewLifecycleStateMachine :: LifecycleStateMachine where
  "NewLifecycleStateMachine = \<lparr>current = StateInitialized\<rparr>"

datatype core_error =
    ErrInvalidStateTransition LifecycleState LifecycleState
  | ErrInvalidOpenModelParams string
  | ErrInvalidClosedModelParams string

text \<open>\<^verbatim>\<open>TransitionTo\<close>: the machine after the call and the error, if any.\<close>

definition TransitionTo ::
  "LifecycleStateMachine \<Rightarrow> LifecycleState \<Rightarrow> LifecycleStateMachine \<times> core_error option" where
  "TransitionTo m next =
     (if \<not> CanTransitionTo (current m) next
      then (m, Some (ErrInvalidStateTransition (current m) next))
      else (m\<lparr>current := next\<rparr>, None))"

text \<open>
  Callers that ignore the error, as the schedulers do with \<^verbatim>\<open>_ = TransitionTo(...)\<close>,
  attempt a sequence of targets.
\<close>

definition attempt :: "LifecycleStateMachine \<Rightarrow> LifecycleState \<Rightarrow> LifecycleStateMachine" where
  "attempt m next = fst (TransitionTo m next)"

section \<open>Workload models (model.go)\<close>

datatype WorkloadModel = WorkloadModelOpen | WorkloadModelClosed

definition WorkloadModel_String :: "WorkloadModel \<Rightarrow> string" where
  "WorkloadModel_String m = (case m of WorkloadModelOpen \<Rightarrow> ''open'' | WorkloadModelClosed \<Rightarrow> ''closed'')"

definition WorkloadModel_IsValid :: "string \<Rightarrow> bool" where
  "WorkloadModel_IsValid s \<longleftrightarrow> s = WorkloadModel_String WorkloadModelOpen \<or> s = WorkloadModel_String WorkloadModelClosed"

record OpenModelParams =
  omp_Rate :: f64
  omp_TimeUnit :: Duration
  omp_MaxInFlight :: int

definition OpenModelParams_Validate :: "OpenModelParams \<Rightarrow> core_error option" where
  "OpenModelParams_Validate p =
     (if omp_Rate p \<le> F_Fin 0 then Some (ErrInvalidOpenModelParams ''rate must be > 0'')
      else if omp_TimeUnit p \<le> 0 then Some (ErrInvalidOpenModelParams ''time_unit must be > 0'')
      else if omp_MaxInFlight p \<le> 0 then Some (ErrInvalidOpenModelParams ''max_in_flight must be > 0'')
      else None)"

text \<open>
  The conversion of a float outside the range of \<^verbatim>\<open>int64\<close> is left to the
  implementation by the language; \<open>oob\<close> is that choice.
\<close>

definition OpenModelParams_Interval :: "(f64 \<Rightarrow> int) \<Rightarrow> OpenModelParams \<Rightarrow> Duration" where
  "OpenModelParams_Interval oob p =
     (if omp_Rate p \<le> F_Fin 0 \<or> omp_TimeUnit p \<le> 0 then 0
      else f_to_int64 oob (fdiv (f_of_int (omp_TimeUnit p)) (omp_Rate p)))"

record ClosedModelParams =
  cmp_Users :: int
  cmp_ThinkTime :: Duration

definition ClosedModelParams_Validate :: "ClosedModelParams \<Rightarrow> core_error option" where
  "ClosedModelParams_Validate p =
     (if cmp_Users p \<le> 0 then Some (ErrInvalidClosedModelParams ''users must be > 0'')
      else if cmp_ThinkTime p < 0 then Some (ErrInvalidClosedModelParams ''think_time must be >= 0'')
      else None)"

section \<open>Outcomes (outcome.go)\<close>

datatype Outcome =
    OutcomeSuccess | OutcomeUnexpectedStatus | OutcomeRateLimited | OutcomeTimeout
  | OutcomeDNSError | OutcomeConnectError | OutcomeTLSError | OutcomeRequestBuildError
  | OutcomeResponseBodyError | OutcomeCanceled | OutcomeOtherTransportError | OutcomeDropped

definition AllOutcomes :: "Outcome list" where
  "AllOutcomes =
     [OutcomeSuccess, OutcomeUnexpectedStatus, OutcomeRateLimited, OutcomeTimeout,
      OutcomeDNSError, OutcomeConnectError, OutcomeTLSError, OutcomeRequestBuildError,
      OutcomeResponseBodyError, OutcomeCanceled, OutcomeOtherTransportError, OutcomeDropped]"

definition Outcome_String :: "Outcome \<Rightarrow> string" where
  "Outcome_String o' = (case o' of
       OutcomeSuccess \<Rightarrow> ''success'' | OutcomeUnexpectedStatus \<Rightarrow> ''unexpected_status''
     | OutcomeRateLimited \<Rightarrow> ''rate_limited'' | OutcomeTimeout \<Rightarrow> ''timeout''
     | OutcomeDNSError \<Rightarrow> ''dns_error'' | OutcomeConnectError \<Rightarrow> ''connect_error''
     | OutcomeTLSError \<Rightarrow> ''tls_error'' | OutcomeRequestBuildError \<Rightarrow> ''request_build_error''
     | OutcomeResponseBodyError \<Rightarrow> ''response_body_error'' | OutcomeCanceled \<Rightarrow> ''canceled''
     | OutcomeOtherTransportError \<Rightarrow> ''other_transport_error'' | OutcomeDropped \<Rightarrow> ''dropped'')"

definition Outcome_IsValid :: "string \<Rightarrow> bool" where
  "Outcome_IsValid s \<longleftrightarrow> s \<in> set (map Outcome_String
     [OutcomeSuccess, OutcomeUnexpectedStatus, OutcomeRateLimited, OutcomeTimeout,
      OutcomeDNSError, OutcomeConnectError, OutcomeTLSError, OutcomeRequestBuildError,
      OutcomeResponseBodyError, OutcomeCanceled, OutcomeOtherTransportError, OutcomeDropped])"

definition IsSuccess :: "Outcome \<Rightarrow> bool" where
  "IsSuccess o' \<longleftrightarrow> o' = OutcomeSuccess"

definition IsHTTPResponse :: "Outcome \<Rightarrow> bool" where
  "IsHTTPResponse o' \<longleftrightarrow> o' = OutcomeSuccess \<or> o' = OutcomeUnexpectedStatus \<or> o' = OutcomeRateLimited"

definition IsTransportFailure :: "Outcome \<Rightarrow> bool" where
  "IsTransportFailure o' \<longleftrightarrow> o' \<in> {OutcomeTimeout, OutcomeDNSError, OutcomeConnectError, OutcomeTLSError,
     OutcomeResponseBodyError, OutcomeOtherTransportError}"

definition IsClientDrop :: "Outcome \<Rightarrow> bool" where
  "IsClientDrop o' \<longleftrightarrow> o' = OutcomeDropped"

definition IsCanceled :: "Outcome \<Rightarrow> bool" where
  "IsCanceled o' \<longleftrightarrow> o' = OutcomeCanceled"

subsection \<open>Error values\<close>

datatype sentinel =
    DeadlineExceeded | ErrDeadlineExceeded | ETIMEDOUT | ECONNREFUSED | Context_Canceled | ErrClosed

text \<open>
  \<open>UrlError pre err\<close> prints as \<open>pre\<close>, a colon and its cause; \<open>OpError op addr err\<close> likewise
  after its operation and address. \<open>OtherError msg t ss\<close> is an error of any other type with
  message \<open>msg\<close>: \<open>t\<close> is the value of its \<^verbatim>\<open>Timeout\<close> method if the type is a
  \<^verbatim>\<open>net.Error\<close>, and \<open>ss\<close> are the sentinels its \<^verbatim>\<open>Is\<close> method
  answers to. \<open>WrapError\<close> is \<^verbatim>\<open>fmt.Errorf\<close> with \<^verbatim>\<open>%w\<close> or
  \<^verbatim>\<open>errors.Join\<close>. \<open>RedactedError\<close> is \<^verbatim>\<open>config.redactedError\<close>.
\<close>

datatype goerr =
    Sentinel sentinel
  | UrlError string goerr
  | OpError string string goerr
  | SyscallError string goerr
  | DNSError string bool "goerr option"
  | CertificateVerificationError goerr
  | RecordHeaderError string
  | WrapError string "goerr list"
  | RedactedError string goerr
  | OtherError string "bool option" "sentinel list"

fun sentinel_msg :: "sentinel \<Rightarrow> string" where
  "sentinel_msg DeadlineExceeded = ''context deadline exceeded''"
| "sentinel_msg ErrDeadlineExceeded = ''i/o timeout''"
| "sentinel_msg ETIMEDOUT = ''connection timed out''"
| "sentinel_msg ECONNREFUSED = ''connection refused''"
| "sentinel_msg Context_Canceled = ''context canceled''"
| "sentinel_msg ErrClosed = ''file already closed''"

fun Error :: "goerr \<Rightarrow> string" where
  "Error (Sentinel s) = sentinel_msg s"
| "Error (UrlError pre e) = pre @ '': '' @ Error e"
| "Error (OpError op addr e) = op @ addr @ '': '' @ Error e"
| "Error (SyscallError call e) = call @ '': '' @ Error e"
| "Error (DNSError msg _ _) = msg"
| "Error (CertificateVerificationError e) = ''tls: failed to verify certificate: '' @ Error e"
| "Error (RecordHeaderError msg) = ''tls: '' @ msg"
| "Error (WrapError msg _) = msg"
| "Error (RedactedError msg _) = msg"
| "Error (OtherError msg _ _) = msg"

text \<open>The \<^verbatim>\<open>Unwrap\<close> methods and the pre-order walk of \<^verbatim>\<open>errors.As\<close>.\<close>

fun chain :: "goerr \<Rightarrow> goerr list" where
  "chain (UrlError pre e) = UrlError pre e # chain e"
| "chain (OpError op addr e) = OpError op addr e # chain e"
| "chain (SyscallError call e) = SyscallError call e # chain e"
| "chain (DNSError msg t None) = [DNSError msg t None]"
| "chain (DNSError msg t (Some e)) = DNSError msg t (Some e) # chain e"
| "chain (CertificateVerificationError e) = CertificateVerificationError e # chain e"
| "chain (WrapError msg es) = WrapError msg es # concat (map chain es)"
| "chain e = [e]"

text \<open>\<^verbatim>\<open>errors.Is\<close> against a sentinel; \<^verbatim>\<open>redactedError.Is\<close> delegates to its original.\<close>

fun errors_Is :: "goerr \<Rightarrow> sentinel \<Rightarrow> bool" where
  "errors_Is (Sentinel s) t = (s = t)"
| "errors_Is (UrlError _ e) t = errors_Is e t"
| "errors_Is (OpError _ _ e) t = errors_Is e t"
| "errors_Is (SyscallError _ e) t = errors_Is e t"
| "errors_Is (DNSError _ _ None) t = False"
| "errors_Is (DNSError _ _ (Some e)) t = errors_Is e t"
| "errors_Is (CertificateVerificationError e) t = errors_Is e t"
| "errors_Is (RecordHeaderError _) t = False"
| "errors_Is (WrapError _ es) t = list_ex id (map (\<lambda>e. errors_Is e t) es)"
| "errors_Is (RedactedError _ e) t = errors_Is e t"
| "errors_Is (OtherError _ _ ss) t = (t \<in> set ss)"

text \<open>
  The \<^verbatim>\<open>Timeout\<close> method of a value, \<open>None\<close> if its type has none. A
  \<^verbatim>\<open>net.OpError\<close> looks through a \<^verbatim>\<open>SyscallError\<close>, which has the same answer.
\<close>

fun Timeout_method :: "goerr \<Rightarrow> bool option" where
  "Timeout_method (Sentinel s) = (if s = DeadlineExceeded \<or> s = ErrDeadlineExceeded \<or> s = ETIMEDOUT then Some True
     else if s = ECONNREFUSED then Some False else None)"
| "Timeout_method (UrlError _ e) = Some (Timeout_method e = Some True)"
| "Timeout_method (OpError _ _ e) = Some (Timeout_method e = Some True)"
| "Timeout_method (SyscallError _ e) = Some (Timeout_method e = Some True)"
| "Timeout_method (DNSError _ t _) = Some t"
| "Timeout_method (RedactedError _ e) = Some (Timeout_method e = Some True)"
| "Timeout_method (OtherError _ t _) = t"
| "Timeout_method _ = None"

text \<open>\<^verbatim>\<open>net.Error\<close> also needs \<^verbatim>\<open>Temporary\<close>, which a \<^verbatim>\<open>SyscallError\<close> lacks.\<close>

definition is_net_Error :: "goerr \<Rightarrow> bool" where
  "is_net_Error e \<longleftrightarrow> Timeout_method e \<noteq> None \<and> (case e of SyscallError _ _ \<Rightarrow> False | _ \<Rightarrow> True)"

definition errors_As :: "(goerr \<Rightarrow> bool) \<Rightarrow> goerr \<Rightarrow> goerr option" where
  "errors_As P e = find P (chain e)"

definition as_urlError :: "goerr \<Rightarrow> goerr option" where
  "as_urlError e = (case errors_As (\<lambda>x. case x of UrlError _ _ \<Rightarrow> True | _ \<Rightarrow> False) e of
     Some (UrlError _ c) \<Rightarrow> Some c | _ \<Rightarrow> None)"

definition as_opError :: "goerr \<Rightarrow> (string \<times> goerr) option" where
  "as_opError e = (case errors_As (\<lambda>x. case x of OpError _ _ _ \<Rightarrow> True | _ \<Rightarrow> False) e of
     Some (OpError op _ c) \<Rightarrow> Some (op, c) | _ \<Rightarrow> None)"

definition as_syscallError :: "goerr \<Rightarrow> goerr option" where
  "as_syscallError e = (case errors_As (\<lambda>x. case x of SyscallError _ _ \<Rightarrow> True | _ \<Rightarrow> False) e of
     Some (SyscallError _ c) \<Rightarrow> Some c | _ \<Rightarrow> None)"

definition as_net_timeout :: "goerr \<Rightarrow> bool" where
  "as_net_timeout e = (case errors_As is_net_Error e of Some x \<Rightarrow> Timeout_method x = Some True | None \<Rightarrow> False)"

definition has_dnsError :: "goerr \<Rightarrow> bool" where
  "has_dnsError e \<longleftrightarrow> errors_As (\<lambda>x. case x of DNSError _ _ _ \<Rightarrow> True | _ \<Rightarrow> False) e \<noteq> None"

definition has_tlsError :: "goerr \<Rightarrow> bool" where
  "has_tlsError e \<longleftrightarrow>
     errors_As (\<lambda>x. case x of CertificateVerificationError _ \<Rightarrow> True | _ \<Rightarrow> False) e \<noteq> None \<or>
     errors_As (\<lambda>x. case x of RecordHeaderError _ \<Rightarrow> True | _ \<Rightarrow> False) e \<noteq> None"

subsection \<open>Classification\<close>

text \<open>The checks of \<^verbatim>\<open>classifyError\<close> after the \<^verbatim>\<open>url.Error\<close> has been stripped.\<close>

definition is_connect_op :: "goerr \<Rightarrow> bool" where
  "is_connect_op err = (case as_opError err of
       None \<Rightarrow> False
     | Some (op, cause) \<Rightarrow>
         op = ''dial''
         \<or> (case as_syscallError cause of None \<Rightarrow> False | Some s \<Rightarrow> errors_Is s ECONNREFUSED)
         \<or> errors_Is cause ECONNREFUSED)"

definition classifyCause :: "goerr \<Rightarrow> Outcome" where
  "classifyCause err =
     (if errors_Is err DeadlineExceeded \<or> errors_Is err ErrDeadlineExceeded \<or> errors_Is err ETIMEDOUT
      then OutcomeTimeout
      else if as_net_timeout err then OutcomeTimeout
      else if has_dnsError err then OutcomeDNSError
      else if has_tlsError err then OutcomeTLSError
      else let errMsg = Error err in
      if Contains errMsg ''tls:'' \<or> Contains errMsg ''certificate'' \<or> Contains errMsg ''handshake failure''
      then OutcomeTLSError
      else if is_connect_op err then OutcomeConnectError
      else if Contains errMsg ''connection refused'' \<or> Contains errMsg ''connect: connection refused''
              \<or> Contains errMsg ''No connection could be made''
      then OutcomeConnectError
      else if errors_Is err Context_Canceled \<or> errors_Is err ErrClosed \<or> Contains errMsg ''context canceled''
      then OutcomeCanceled
      else OutcomeOtherTransportError)"

definition classifyError :: "goerr option \<Rightarrow> Outcome" where
  "classifyError e = (case e of
       None \<Rightarrow> OutcomeSuccess
     | Some err \<Rightarrow> classifyCause (case as_urlError err of None \<Rightarrow> err | Some cause \<Rightarrow> cause))"

definition isStatusExpected :: "int \<Rightarrow> int list \<Rightarrow> bool" where
  "isStatusExpected statusCode expectedStatuses =
     (if expectedStatuses = [] then statusCode = 200 else statusCode \<in> set expectedStatuses)"

record ClassifyInput =
  ci_StatusCode :: int
  ci_ExpectedStatuses :: "int list"
  ci_Err :: "goerr option"
  ci_Canceled :: bool
  ci_Dropped :: bool
  ci_ResponseBodyErr :: bool
  ci_RequestBuildErr :: bool

definition Classify :: "ClassifyInput \<Rightarrow> Outcome" where
  "Classify input =
     (if ci_Dropped input then OutcomeDropped
      else if ci_Canceled input then OutcomeCanceled
      else if ci_RequestBuildErr input then OutcomeRequestBuildError
      else if ci_ResponseBodyErr input then OutcomeResponseBodyError
      else if ci_Err input \<noteq> None then classifyError (ci_Err input)
      else if ci_StatusCode input = 429 then OutcomeRateLimited
      else if isStatusExpected (ci_StatusCode input) (ci_ExpectedStatuses input) then OutcomeSuccess
      else OutcomeUnexpectedStatus)"

section \<open>Request timestamps (timing.go)\<close>

record RequestTimestamps =
  PlannedAt :: Time
  ScheduledAt :: Time
  DispatchedAt :: Time
  HeadersReceivedAt :: Time
  BodyCompletedAt :: Time

definition Latency :: "RequestTimestamps \<Rightarrow> Duration" where
  "Latency t =
     (if IsZero (DispatchedAt t) \<or> IsZero (BodyCompletedAt t) then 0
      else if BodyCompletedAt t < DispatchedAt t then 0
      else time_sub (BodyCompletedAt t) (DispatchedAt t))"

definition TTFB :: "RequestTimestamps \<Rightarrow> Duration" where
  "TTFB t =
     (if IsZero (DispatchedAt t) \<or> IsZero (HeadersReceivedAt t) then 0
      else if HeadersReceivedAt t < DispatchedAt t then 0
      else time_sub (HeadersReceivedAt t) (DispatchedAt t))"

definition ScheduleLag :: "RequestTimestamps \<Rightarrow> Duration" where
  "ScheduleLag t =
     (if IsZero (PlannedAt t) \<or> IsZero (ScheduledAt t) then 0
      else if ScheduledAt t < PlannedAt t then 0
      else time_sub (ScheduledAt t) (PlannedAt t))"

definition TotalDuration :: "RequestTimestamps \<Rightarrow> Duration" where
  "TotalDuration t =
     (let start = (if IsZero (PlannedAt t) then DispatchedAt t else PlannedAt t) in
      if IsZero start \<or> IsZero (BodyCompletedAt t) then 0
      else if BodyCompletedAt t < start then 0
      else time_sub (BodyCompletedAt t) start)"

section \<open>Properties\<close>

subsection \<open>The lifecycle\<close>

definition transition :: "LifecycleStateMachine \<Rightarrow> LifecycleStateMachine \<Rightarrow> bool" where
  "transition m m' \<longleftrightarrow> (\<exists>next. TransitionTo m next = (m', None))"

definition lifecycle_rank :: "LifecycleStateMachine \<Rightarrow> nat" where
  "lifecycle_rank m = (case current m of StateInitialized \<Rightarrow> 6 | StateWarmup \<Rightarrow> 5 | StateRunning \<Rightarrow> 4
     | StateCooldown \<Rightarrow> 3 | StateGracefulStop \<Rightarrow> 2 | StateCanceled \<Rightarrow> 1 | StateCompleted \<Rightarrow> 0)"

lemma transition_iff: "transition m m' \<longleftrightarrow> CanTransitionTo (current m) (current m')"
proof -
  have "m\<lparr>current := current m'\<rparr> = m'" by (cases m, cases m') simp
  then show ?thesis by (auto simp: transition_def TransitionTo_def split: if_splits)
qed

lemma attempt_simps [simp]:
  "CanTransitionTo (current m) s \<Longrightarrow> current (attempt m s) = s"
  "\<not> CanTransitionTo (current m) s \<Longrightarrow> attempt m s = m"
  by (simp_all add: attempt_def TransitionTo_def)

lemma current_attempt: "current (attempt m s) = (if CanTransitionTo (current m) s then s else current m)"
  by simp

interpretation lifecycle: ranked_steps transition lifecycle_rank
  by unfold_locales
    (auto simp: transition_iff lifecycle_rank_def CanTransitionTo_def split: LifecycleState.splits)

text \<open>C20. A lifecycle machine makes at most six successful transitions after its creation, and
  it can make a further one exactly as long as it is not completed.\<close>

theorem lifecycle_terminates:
  assumes "(transition ^^ n) NewLifecycleStateMachine m"
  shows "n \<le> 6 \<and> ((\<exists>m'. transition m m') \<longleftrightarrow> current m \<noteq> StateCompleted)"
proof
  show "n \<le> 6"
    using lifecycle.rank_run [OF assms] by (simp add: lifecycle_rank_def NewLifecycleStateMachine_def)
  have "CanTransitionTo (current m) StateCanceled \<or> CanTransitionTo (current m) StateCompleted
        \<or> current m = StateCompleted"
    by (cases "current m") (simp_all add: CanTransitionTo_def)
  moreover have "current m = StateCompleted \<Longrightarrow> \<not> CanTransitionTo (current m) s" for s
    by (simp add: CanTransitionTo_def)
  moreover have "current \<lparr>current = s\<rparr> = s" for s by simp
  ultimately show "(\<exists>m'. transition m m') \<longleftrightarrow> current m \<noteq> StateCompleted"
    by (metis transition_iff)
qed

theorem lifecycle_terminates_witness:
  "(1 :: nat) \<le> 6 \<and> (\<exists>m'. transition \<lparr>current = StateWarmup\<rparr> m')"
proof -
  have "(transition ^^ 1) NewLifecycleStateMachine \<lparr>current = StateWarmup\<rparr>"
    by (auto simp: transition_iff NewLifecycleStateMachine_def CanTransitionTo_def)
  from lifecycle_terminates [OF this] show ?thesis by simp
qed

subsection \<open>Classification\<close>

lemma classifyCause_range:
  "classifyCause e \<in> {OutcomeTimeout, OutcomeDNSError, OutcomeTLSError, OutcomeConnectError,
     OutcomeCanceled, OutcomeOtherTransportError}"
  by (simp add: classifyCause_def Let_def)

lemma classifyError_range:
  "classifyError (Some e) \<in> {OutcomeTimeout, OutcomeDNSError, OutcomeTLSError, OutcomeConnectError,
     OutcomeCanceled, OutcomeOtherTransportError}"
  unfolding classifyError_def option.case by (rule classifyCause_range)

lemma outcome_valid_iff: "Outcome_IsValid s \<longleftrightarrow> (\<exists>out. s = Outcome_String out)"
proof
  assume "\<exists>out. s = Outcome_String out"
  then obtain out where "s = Outcome_String out" ..
  then show "Outcome_IsValid s" by (cases out) (simp_all add: Outcome_IsValid_def)
qed (auto simp: Outcome_IsValid_def)

lemma Outcome_String_inj: "Outcome_String a = Outcome_String b \<longleftrightarrow> a = b"
  by (cases a; cases b) (simp_all add: Outcome_String_def)

text \<open>A request counts as a success exactly when it was sent, answered and read without any
  error and its status is an expected one other than 429; an HTTP response of any kind is
  reported exactly when nothing failed; and 429 is \<^emph>\<open>rate limited\<close> even when the
  configuration expects it.\<close>

lemma Classify_response_iff:
  "(IsHTTPResponse (Classify i) \<longleftrightarrow>
      \<not> ci_Dropped i \<and> \<not> ci_Canceled i \<and> \<not> ci_RequestBuildErr i \<and> \<not> ci_ResponseBodyErr i \<and> ci_Err i = None)
   \<and> (IsSuccess (Classify i) \<longleftrightarrow>
      IsHTTPResponse (Classify i) \<and> ci_StatusCode i \<noteq> 429
      \<and> isStatusExpected (ci_StatusCode i) (ci_ExpectedStatuses i))
   \<and> (Classify i = OutcomeRateLimited \<longleftrightarrow> IsHTTPResponse (Classify i) \<and> ci_StatusCode i = 429)
   \<and> (IsClientDrop (Classify i) \<longleftrightarrow> ci_Dropped i)"
proof (cases "ci_Err i")
  case None
  then show ?thesis
    by (auto simp: Classify_def IsHTTPResponse_def IsSuccess_def IsClientDrop_def)
next
  case (Some e)
  then show ?thesis using classifyError_range [of e]
    by (auto simp: Classify_def IsHTTPResponse_def IsSuccess_def IsClientDrop_def)
qed

lemma chain_redacted [simp]: "chain (RedactedError msg e) = [RedactedError msg e]"
  by simp

lemmas classify_redacted_simps =
  classifyError_def as_urlError_def errors_As_def has_dnsError_def has_tlsError_def
  as_net_timeout_def is_net_Error_def is_connect_op_def as_opError_def

lemma classify_redacted:
  "classifyError (Some (RedactedError msg e)) =
    (if errors_Is e DeadlineExceeded \<or> errors_Is e ErrDeadlineExceeded \<or> errors_Is e ETIMEDOUT
        \<or> Timeout_method e = Some True then OutcomeTimeout
     else if Contains msg ''tls:'' \<or> Contains msg ''certificate'' \<or> Contains msg ''handshake failure''
     then OutcomeTLSError
     else if Contains msg ''connection refused'' \<or> Contains msg ''connect: connection refused''
             \<or> Contains msg ''No connection could be made'' then OutcomeConnectError
     else if errors_Is e Context_Canceled \<or> errors_Is e ErrClosed \<or> Contains msg ''context canceled''
     then OutcomeCanceled
     else OutcomeOtherTransportError)"
  by (simp add: classify_redacted_simps classifyCause_def Let_def)

text \<open>Scrubbing the error of a failed round trip before it is classified, as the executors do,
  keeps a time-out that the original answers to with \<^verbatim>\<open>errors.Is\<close> or with its
  \<^verbatim>\<open>Timeout\<close> method and adds none, but it loses the dynamic type of a name
  resolution failure: unscrubbed it is a DNS error, scrubbed it never is, whatever its text.\<close>

lemma classify_scrubbed_error:
  "(classifyError (Some (RedactedError msg (UrlError pre c))) = OutcomeTimeout \<longleftrightarrow>
      errors_Is c DeadlineExceeded \<or> errors_Is c ErrDeadlineExceeded \<or> errors_Is c ETIMEDOUT
      \<or> Timeout_method c = Some True)
   \<and> classifyError (Some (UrlError pre (OpError ''dial'' addr (DNSError host False None)))) = OutcomeDNSError
   \<and> classifyError (Some (RedactedError msg (UrlError pre (OpError ''dial'' addr (DNSError host False None)))))
       \<noteq> OutcomeDNSError"
proof (intro conjI)
  show "classifyError (Some (RedactedError msg (UrlError pre c))) = OutcomeTimeout \<longleftrightarrow>
      errors_Is c DeadlineExceeded \<or> errors_Is c ErrDeadlineExceeded \<or> errors_Is c ETIMEDOUT
      \<or> Timeout_method c = Some True"
    by (simp add: classify_redacted)
  show "classifyError (Some (UrlError pre (OpError ''dial'' addr (DNSError host False None)))) = OutcomeDNSError"
    by (simp add: classifyError_def classifyCause_def as_urlError_def errors_As_def as_net_timeout_def
        is_net_Error_def has_dnsError_def)
  show "classifyError (Some (RedactedError msg (UrlError pre (OpError ''dial'' addr (DNSError host False None)))))
       \<noteq> OutcomeDNSError"
    by (simp add: classify_redacted)
qed

subsection \<open>Timestamps\<close>

lemmas timing_defs = Latency_def TTFB_def ScheduleLag_def TotalDuration_def

text \<open>The derived durations of a request are never negative and fit a duration; when its
  timestamps are set and in order, the time to the first byte is within the latency, and lag and
  latency together are within the total duration.\<close>

lemma timing_consistent:
  assumes "0 < PlannedAt t" "PlannedAt t \<le> ScheduledAt t" "ScheduledAt t \<le> DispatchedAt t"
    "DispatchedAt t \<le> HeadersReceivedAt t" "HeadersReceivedAt t \<le> BodyCompletedAt t"
    "BodyCompletedAt t - PlannedAt t < 2 ^ 63"
  shows "0 \<le> TTFB t \<and> TTFB t \<le> Latency t \<and> 0 \<le> ScheduleLag t
    \<and> ScheduleLag t + Latency t \<le> TotalDuration t \<and> TotalDuration t < 2 ^ 63
    \<and> TotalDuration t - Latency t = DispatchedAt t - PlannedAt t"
  using assms by (simp add: timing_defs Let_def IsZero_def time_sub_def)

lemma timing_consistent_witness:
  "TTFB \<lparr>PlannedAt = 10, ScheduledAt = 12, DispatchedAt = 15, HeadersReceivedAt = 40, BodyCompletedAt = 55\<rparr> = 25
   \<and> TotalDuration \<lparr>PlannedAt = 10, ScheduledAt = 12, DispatchedAt = 15, HeadersReceivedAt = 40, BodyCompletedAt = 55\<rparr>
     < 2 ^ 63"
  using timing_consistent
    [of "\<lparr>PlannedAt = 10, ScheduledAt = 12, DispatchedAt = 15, HeadersReceivedAt = 40, BodyCompletedAt = 55\<rparr>"]
  by (simp add: TTFB_def IsZero_def time_sub_def)

lemma timing_nonneg: "0 \<le> Latency t" "0 \<le> TTFB t" "0 \<le> ScheduleLag t" "0 \<le> TotalDuration t"
  by (simp_all add: timing_defs Let_def time_sub_nonneg)

end
