(* ===== verification/Safety_Hosts.thy ===== *)
theory Safety_Hosts
  imports Core_Model
begin

text \<open>
  Host allowlists: \<^verbatim>\<open>internal/config/allowedhost.go\<close> and the host and method rules of
  \<^verbatim>\<open>internal/safety/safety.go\<close>, with what they use of Go's \<^verbatim>\<open>net\<close> package:
  \<open>ParseIP\<close> follows \<^verbatim>\<open>netip.ParseAddr\<close> (dotted decimal without leading zeros; groups of
  up to four hexadecimal digits, one \<^verbatim>\<open>::\<close>, an IPv4 tail; no zone), \<open>IP_String\<close> follows
  \<^verbatim>\<open>IP.String\<close>. An address is the list of its eight 16-bit groups; an IPv4 address is the
  mapped address \<^verbatim>\<open>::ffff:a.b.c.d\<close>, as in Go's 16-byte form.
\<close>

section \<open>IP addresses\<close>

definition octet :: "string \<Rightarrow> int option" where
  "octet f = (if f = '''' \<or> (length f > 1 \<and> hd f = CHR ''0'') then None
     else case read_digits 0 f of Some n \<Rightarrow> if n \<le> 255 then Some n else None | None \<Rightarrow> None)"

definition parseIPv4 :: "string \<Rightarrow> (int \<times> int \<times> int \<times> int) option" where
  "parseIPv4 s = (case map octet (SplitByte (CHR ''.'') s) of
       [Some a, Some b, Some c, Some d] \<Rightarrow> Some (a, b, c, d)
     | _ \<Rightarrow> None)"

definition v4_groups :: "int \<times> int \<times> int \<times> int \<Rightarrow> int list" where
  "v4_groups q = (case q of (a, b, c, d) \<Rightarrow> [256 * a + b, 256 * c + d])"

definition hex_val :: "char \<Rightarrow> int option" where
  "hex_val c = map_of (zip ''0123456789abcdefABCDEF'' ([0..15] @ [10..15])) c"

fun read_hex :: "int \<Rightarrow> string \<Rightarrow> int option" where
  "read_hex acc [] = Some acc"
| "read_hex acc (c # s) = (case hex_val c of Some d \<Rightarrow> read_hex (16 * acc + d) s | None \<Rightarrow> None)"

definition hex_group :: "string \<Rightarrow> int option" where
  "hex_group f = (if f = '''' \<or> length f > 4 then None else read_hex 0 f)"

text \<open>The groups of a colon-separated list; the last field may be an IPv4 address.\<close>

fun v6_fields :: "string list \<Rightarrow> int list option" where
  "v6_fields [] = Some []"
| "v6_fields [f] = (if CHR ''.'' \<in> set f then map_option v4_groups (parseIPv4 f) else map_option (\<lambda>g. [g]) (hex_group f))"
| "v6_fields (f # fs) = (case (hex_group f, v6_fields fs) of (Some g, Some gs) \<Rightarrow> Some (g # gs) | _ \<Rightarrow> None)"

text \<open>The text before and after the first \<^verbatim>\<open>::\<close>.\<close>

fun cut_ellipsis :: "string \<Rightarrow> (string \<times> string) option" where
  "cut_ellipsis [] = None"
| "cut_ellipsis [c] = None"
| "cut_ellipsis (c # d # s) = (if c = CHR '':'' \<and> d = CHR '':'' then Some ([], s)
     else map_option (\<lambda>(l, r). (c # l, r)) (cut_ellipsis (d # s)))"

definition v6_list :: "string \<Rightarrow> int list option" where
  "v6_list s = (if s = '''' then Some [] else v6_fields (SplitByte (CHR '':'') s))"

definition v6_no_tail :: "string \<Rightarrow> bool" where
  "v6_no_tail s = (CHR ''.'' \<notin> set s)"

definition parseIPv6 :: "string \<Rightarrow> int list option" where
  "parseIPv6 s = (case cut_ellipsis s of
       None \<Rightarrow> (case v6_list s of Some gs \<Rightarrow> if length gs = 8 then Some gs else None | None \<Rightarrow> None)
     | Some (l, r) \<Rightarrow> if \<not> v6_no_tail l then None else (case (v6_list l, v6_list r) of
           (Some ls, Some rs) \<Rightarrow>
             if length ls + length rs < 8 then Some (ls @ replicate (8 - length ls - length rs) 0 @ rs) else None
         | _ \<Rightarrow> None))"

text \<open>The first of the characters \<^verbatim>\<open>.\<close>, \<^verbatim>\<open>:\<close> and \<^verbatim>\<open>%\<close> decides; a zone is refused.\<close>

definition ParseIP :: "string \<Rightarrow> int list option" where
  "ParseIP s = (case find (\<lambda>c. c \<in> set ''.:%'') s of
       Some c \<Rightarrow>
         if c = CHR ''.'' then map_option (\<lambda>q. [0, 0, 0, 0, 0, 65535] @ v4_groups q) (parseIPv4 s)
         else if c = CHR '':'' \<and> CHR ''%'' \<notin> set s then parseIPv6 s else None
     | None \<Rightarrow> None)"

definition hex_digit :: "int \<Rightarrow> char" where
  "hex_digit d = ''0123456789abcdef'' ! nat d"

definition hex_string :: "int \<Rightarrow> string" where
  "hex_string g = (let ds = map hex_digit [g div 4096 mod 16, g div 256 mod 16, g div 16 mod 16, g mod 16];
      s = dropWhile (\<lambda>c. c = CHR ''0'') ds in if s = '''' then ''0'' else s)"

text \<open>The length of the run of zero groups that starts at each position, and the first longest run of at least two.\<close>

fun zero_runs :: "int list \<Rightarrow> nat list" where
  "zero_runs [] = []"
| "zero_runs (g # gs) = (if g = 0 then (case zero_runs gs of [] \<Rightarrow> 1 | n # _ \<Rightarrow> Suc n) else 0) # zero_runs gs"

definition longest_run :: "int list \<Rightarrow> (nat \<times> nat) option" where
  "longest_run gs = (let rs = zero_runs gs; m = foldr max rs 0 in
     if m < 2 then None else map_option (\<lambda>i. (i, m)) (find (\<lambda>i. rs ! i = m) [0..<length rs]))"

fun join_with :: "char \<Rightarrow> string list \<Rightarrow> string" where
  "join_with c [] = []"
| "join_with c [s] = s"
| "join_with c (s # ss) = s @ [c] @ join_with c ss"

definition v6_string :: "int list \<Rightarrow> string" where
  "v6_string gs = (let str = (\<lambda>gs. join_with (CHR '':'') (map hex_string gs)) in
     case longest_run gs of None \<Rightarrow> str gs
     | Some (i, n) \<Rightarrow> str (take i gs) @ ''::'' @ str (drop (i + n) gs))"

definition v4_string :: "int \<Rightarrow> int \<Rightarrow> string" where
  "v4_string g h = Itoa (g div 256) @ ''.'' @ Itoa (g mod 256) @ ''.'' @ Itoa (h div 256) @ ''.'' @ Itoa (h mod 256)"

definition IP_String :: "int list \<Rightarrow> string" where
  "IP_String gs = (if take 6 gs = [0, 0, 0, 0, 0, 65535] then v4_string (gs ! 6) (gs ! 7) else v6_string gs)"

definition IsLoopback :: "int list \<Rightarrow> bool" where
  "IsLoopback gs = (if take 6 gs = [0, 0, 0, 0, 0, 65535] then gs ! 6 div 256 = 127 else gs = [0, 0, 0, 0, 0, 0, 0, 1])"

section \<open>Allowlist entries (allowedhost.go)\<close>

definition wildcardHostPrefix :: string where "wildcardHostPrefix = ''*.''"
definition localhostHost :: string where "localhostHost = ''localhost''"
definition maxDNSNameLength :: nat where "maxDNSNameLength = 253"
definition maxDNSLabelLength :: nat where "maxDNSLabelLength = 63"

datatype host_error =
    HostEmpty | HostWildcard string | HostNotHostOnly string | HostInvalid string | HostWildcardIP string
  | HostPort string | HostDNS string | HostAt int host_error

definition dns_char :: "char \<Rightarrow> bool" where
  "dns_char c \<longleftrightarrow> c \<in> set ''abcdefghijklmnopqrstuvwxyz0123456789-''"

definition dns_label :: "string \<Rightarrow> bool" where
  "dns_label label \<longleftrightarrow> label \<noteq> '''' \<and> length label \<le> maxDNSLabelLength
     \<and> hd label \<noteq> CHR ''-'' \<and> last label \<noteq> CHR ''-'' \<and> list_all dns_char label"

definition validateDNSName :: "string \<Rightarrow> bool" where
  "validateDNSName host \<longleftrightarrow> length host \<le> maxDNSNameLength \<and> list_all dns_label (SplitByte (CHR ''.'') host)"

definition NormalizeAllowedHost :: "string \<Rightarrow> bool \<Rightarrow> host_error + string" where
  "NormalizeAllowedHost host allowWildcard =
     (let normalizedHost = ToLower (TrimSpace host) in
      if normalizedHost = '''' then Inl HostEmpty
      else let isWildcard = HasPrefix normalizedHost wildcardHostPrefix in
        if isWildcard \<and> \<not> allowWildcard then Inl (HostWildcard host)
        else let h = (if isWildcard then TrimPrefix normalizedHost wildcardHostPrefix else normalizedHost) in
          if Contains h ''://'' \<or> list_ex (\<lambda>c. c \<in> set ''/?#@'') h then Inl (HostNotHostOnly host)
          else let h = (if HasSuffix h ''.'' then TrimSuffix h ''.'' else h) in
            if h = '''' then Inl (HostInvalid host)
            else case ParseIP h of
                Some ip \<Rightarrow> if isWildcard then Inl (HostWildcardIP host) else Inr (IP_String ip)
              | None \<Rightarrow>
                  if Contains h '':'' then Inl (HostPort host)
                  else if \<not> validateDNSName h then Inl (HostDNS host)
                  else if isWildcard then Inr (wildcardHostPrefix @ h) else Inr h)"

text \<open>The loop over the entries, with the hosts collected so far.\<close>

fun normalize_loop :: "bool \<Rightarrow> int \<Rightarrow> string list \<Rightarrow> string list \<Rightarrow> host_error + string list" where
  "normalize_loop allowWildcard index acc [] = Inr acc"
| "normalize_loop allowWildcard index acc (host # hosts) = (case NormalizeAllowedHost host allowWildcard of
       Inl e \<Rightarrow> Inl (HostAt index e)
     | Inr h \<Rightarrow> normalize_loop allowWildcard (index + 1) (if h \<in> set acc then acc else acc @ [h]) hosts)"

definition NormalizeAllowedHosts :: "string list \<Rightarrow> bool \<Rightarrow> host_error + string list" where
  "NormalizeAllowedHosts hosts allowWildcard = normalize_loop allowWildcard 0 [] hosts"

definition IsLoopbackHost :: "string \<Rightarrow> bool" where
  "IsLoopbackHost host = (case NormalizeAllowedHost host False of
       Inl _ \<Rightarrow> False
     | Inr h \<Rightarrow> h = localhostHost \<or> (case ParseIP h of Some ip \<Rightarrow> IsLoopback ip | None \<Rightarrow> False))"

section \<open>Host and method rules (safety.go)\<close>

definition IsDestructiveMethod :: "string \<Rightarrow> bool" where
  "IsDestructiveMethod method \<longleftrightarrow> ToUpper (TrimSpace method) \<in> {''POST'', ''PUT'', ''PATCH'', ''DELETE''}"

definition host_matches :: "string \<Rightarrow> string \<Rightarrow> bool" where
  "host_matches normalizedHost normalizedPattern \<longleftrightarrow> normalizedPattern = normalizedHost
     \<or> (HasPrefix normalizedPattern ''*.'' \<and>
         (normalizedHost = drop 2 normalizedPattern \<or> HasSuffix normalizedHost (drop 1 normalizedPattern)))"

definition IsHostAllowed :: "string \<Rightarrow> string list \<Rightarrow> bool" where
  "IsHostAllowed host allowedHosts = (case NormalizeAllowedHost host False of
       Inl _ \<Rightarrow> False
     | Inr normalizedHost \<Rightarrow> list_ex (\<lambda>pattern. case NormalizeAllowedHost pattern True of
           Inl _ \<Rightarrow> False
         | Inr normalizedPattern \<Rightarrow> host_matches normalizedHost normalizedPattern) allowedHosts)"

section \<open>Addresses and their text\<close>

subsection \<open>Splitting and joining\<close>

lemma SplitByte_append: "c \<notin> set s \<Longrightarrow> SplitByte c (s @ c # t) = s # SplitByte c t"
  by (induction s) auto

lemma SplitByte_single: "c \<notin> set s \<Longrightarrow> SplitByte c s = [s]"
  by (induction s) auto

lemma SplitByte_join: "fs \<noteq> [] \<Longrightarrow> \<forall>f\<in>set fs. c \<notin> set f \<Longrightarrow> SplitByte c (join_with c fs) = fs"
  by (induction c fs rule: join_with.induct) (simp_all add: SplitByte_append SplitByte_single)

lemma join_with_chars: "set (join_with c fs) \<subseteq> insert c (\<Union>f\<in>set fs. set f)"
  by (induction c fs rule: join_with.induct) auto

lemma join_with_Cons: "fs \<noteq> [] \<Longrightarrow> join_with c (f # fs) = f @ c # join_with c fs"
  by (cases fs) simp_all

lemma join_with_last: "fs \<noteq> [] \<Longrightarrow> \<forall>f\<in>set fs. f \<noteq> [] \<Longrightarrow> join_with c fs \<noteq> [] \<and> last (join_with c fs) = last (last fs)"
  by (induction c fs rule: join_with.induct) (auto simp: join_with_Cons)

lemma cut_ellipsis_other: "c \<noteq> CHR '':'' \<Longrightarrow> cut_ellipsis (c # s) = map_option (\<lambda>(l, r). (c # l, r)) (cut_ellipsis s)"
  by (cases s) auto

lemma cut_ellipsis_free: "CHR '':'' \<notin> set f \<Longrightarrow> cut_ellipsis s = None \<Longrightarrow> cut_ellipsis (f @ s) = None"
  by (induction f) (auto simp: cut_ellipsis_other)

lemma cut_ellipsis_join:
  "\<forall>f\<in>set fs. f \<noteq> [] \<and> CHR '':'' \<notin> set f \<Longrightarrow> cut_ellipsis (join_with (CHR '':'') fs) = None"
proof (induction fs)
  case (Cons f fs)
  show ?case
  proof (cases fs)
    case Nil
    then show ?thesis using Cons.prems cut_ellipsis_free [of f "[]"] by simp
  next
    case (Cons g gs)
    then obtain d t where d: "join_with (CHR '':'') fs = d # t" "d \<noteq> CHR '':''"
      using Cons.prems by (cases g; cases gs) auto
    then have "cut_ellipsis (CHR '':'' # join_with (CHR '':'') fs) = None" using Cons.IH Cons.prems by simp
    then show ?thesis using Cons Cons.prems cut_ellipsis_free [of f] by (simp add: join_with_Cons)
  qed
qed simp

lemma cut_ellipsis_found:
  "cut_ellipsis l = None \<Longrightarrow> l = [] \<or> last l \<noteq> CHR '':'' \<Longrightarrow> cut_ellipsis (l @ CHR '':'' # CHR '':'' # r) = Some (l, r)"
  by (induction l rule: cut_ellipsis.induct) (auto split: if_splits)

subsection \<open>Hexadecimal groups\<close>

lemma hex_digit_cases: "0 \<le> d \<Longrightarrow> d < 16 \<Longrightarrow>
    d = 0 \<or> d = 1 \<or> d = 2 \<or> d = 3 \<or> d = 4 \<or> d = 5 \<or> d = 6 \<or> d = 7 \<or> d = 8 \<or> d = 9 \<or> d = 10 \<or> d = 11 \<or> d = 12
    \<or> d = 13 \<or> d = 14 \<or> d = (15::int)"
  by arith

lemma hex_val_digit: "0 \<le> d \<Longrightarrow> d < 16 \<Longrightarrow> hex_val (hex_digit d) = Some d"
  by (drule (1) hex_digit_cases, elim disjE) (simp_all add: hex_val_def hex_digit_def upto.simps)

lemma hex_digit_set: "0 \<le> d \<Longrightarrow> d < 16 \<Longrightarrow> hex_digit d \<in> set ''0123456789abcdef''"
  by (drule (1) hex_digit_cases, elim disjE) (simp_all add: hex_digit_def)

lemma hex_val_range: "hex_val c = Some d \<Longrightarrow> 0 \<le> d \<and> d < 16"
  by (auto simp: hex_val_def upto.simps split: if_splits)

lemma hex_val_zero: "hex_val (CHR ''0'') = Some 0"
  by (simp add: hex_val_def upto.simps)

lemma read_hex_range: "read_hex acc s = Some n \<Longrightarrow> 0 \<le> acc \<Longrightarrow> 0 \<le> n \<and> n < (acc + 1) * 16 ^ length s"
proof (induction acc s rule: read_hex.induct)
  case (2 acc c s)
  then obtain d where d: "hex_val c = Some d" "read_hex (16 * acc + d) s = Some n" by (auto split: option.splits)
  then have "0 \<le> n \<and> n < (16 * acc + d + 1) * 16 ^ length s" using 2 hex_val_range [OF d(1)] by auto
  moreover have "(16 * acc + d + 1) * 16 ^ length s \<le> ((acc + 1) * 16) * 16 ^ length s"
    using hex_val_range [OF d(1)] by (intro mult_right_mono) auto
  moreover have "((acc + 1) * 16) * 16 ^ length s = (acc + 1) * 16 ^ length (c # s)" by simp
  ultimately show ?case by linarith
qed auto

lemma hex_group_range: "hex_group f = Some g \<Longrightarrow> 0 \<le> g \<and> g < 65536"
proof -
  assume a: "hex_group f = Some g"
  then have g: "read_hex 0 f = Some g" "length f \<le> 4" by (auto simp: hex_group_def split: if_splits)
  have "(16::int) ^ length f \<le> 16 ^ 4" using g(2) by (intro power_increasing) auto
  then show ?thesis using read_hex_range [OF g(1)] by simp
qed

lemma read_hex_zeros: "read_hex 0 (dropWhile (\<lambda>c. c = CHR ''0'') s) = read_hex 0 s"
  by (induction s) (auto simp: hex_val_zero)

lemma base16_sum: "16 * a + u = g \<Longrightarrow> 16 * b + v = a \<Longrightarrow> 16 * c + w = b \<Longrightarrow> ((c * 16 + w) * 16 + v) * 16 + u = (g::int)"
  by simp

lemma hex_digits_sum:
  assumes "0 \<le> g" "g < (65536::int)"
  shows "((g div 4096 mod 16 * 16 + g div 256 mod 16) * 16 + g div 16 mod 16) * 16 + g mod 16 = g"
proof -
  have n: "(256::int) = 16 * 16" "(4096::int) = 16 * 16 * 16" by simp_all
  have 1: "g div 256 = g div 16 div 16" unfolding n by (rule zdiv_zmult2_eq) simp
  have "g div 4096 = g div (16 * 16) div 16" unfolding n by (rule zdiv_zmult2_eq) simp
  then have 2: "g div 4096 = g div 16 div 16 div 16" by (simp only: zdiv_zmult2_eq [of 16 g 16])
  have "g div 4096 mod 16 = g div 4096" using assms by (intro mod_pos_pos_trivial) simp_all
  then have 3: "g div 16 div 16 div 16 mod 16 = g div 16 div 16 div 16" unfolding 2 .
  show ?thesis unfolding 1 2 3 by (rule base16_sum [OF mult_div_mod_eq mult_div_mod_eq mult_div_mod_eq])
qed

lemma hex_string_group:
  assumes "0 \<le> g" "g < 65536"
  shows "hex_group (hex_string g) = Some g"
proof -
  define ds where "ds = map hex_digit [g div 4096 mod 16, g div 256 mod 16, g div 16 mod 16, g mod 16]"
  define s where "s = dropWhile (\<lambda>c. c = CHR ''0'') ds"
  have h: "hex_string g = (if s = '''' then ''0'' else s)" by (simp only: hex_string_def Let_def s_def ds_def)
  have "read_hex 0 ds = Some (((g div 4096 mod 16 * 16 + g div 256 mod 16) * 16 + g div 16 mod 16) * 16 + g mod 16)"
    by (simp add: ds_def hex_val_digit algebra_simps)
  also have "((g div 4096 mod 16 * 16 + g div 256 mod 16) * 16 + g div 16 mod 16) * 16 + g mod 16 = g"
    by (rule hex_digits_sum [OF assms])
  finally have r: "read_hex 0 s = Some g" by (simp only: s_def read_hex_zeros)
  have "length s \<le> length ds" unfolding s_def by (rule length_dropWhile_le)
  then have l: "length s \<le> 4" by (simp add: ds_def)
  show ?thesis
  proof (cases "s = []")
    case True
    then have "hex_string g = ''0''" "Some g = Some 0" using r h by simp_all
    moreover have "hex_group ''0'' = Some 0" by (simp add: hex_group_def hex_val_zero)
    ultimately show ?thesis by simp
  next
    case False
    then show ?thesis using r l by (simp add: h hex_group_def)
  qed
qed

lemma hex_string_chars: "c \<in> set (hex_string g) \<Longrightarrow> c \<in> set ''0123456789abcdef''"
proof -
  define ds where "ds = [g div 4096 mod 16, g div 256 mod 16, g div 16 mod 16, g mod 16]"
  define s where "s = dropWhile (\<lambda>c. c = CHR ''0'') (map hex_digit ds)"
  assume "c \<in> set (hex_string g)"
  moreover have "hex_string g = (if s = '''' then ''0'' else s)" by (simp only: hex_string_def Let_def s_def ds_def)
  ultimately have "c \<in> set s \<or> c = CHR ''0''" by (cases "s = []") simp_all
  moreover have "c \<in> set s \<Longrightarrow> c \<in> hex_digit ` set ds" unfolding s_def using set_dropWhileD by fastforce
  moreover have "hex_digit d \<in> set ''0123456789abcdef''" if "d \<in> set ds" for d
    using that by (intro hex_digit_set) (auto simp: ds_def)
  ultimately show ?thesis by auto
qed

lemma hex_string_nonempty: "hex_string g \<noteq> []"
  unfolding hex_string_def Let_def by simp

subsection \<open>Reading what was printed\<close>

definition ip_ok :: "int list \<Rightarrow> bool" where
  "ip_ok gs \<longleftrightarrow> length gs = 8 \<and> (\<forall>g\<in>set gs. 0 \<le> g \<and> g < 65536)"

lemma zero_runs_length [simp]: "length (zero_runs gs) = length gs"
  by (induction gs) auto

lemma zero_runs_zeros:
  "i < length gs \<Longrightarrow> zero_runs gs ! i \<le> length gs - i \<and> take (zero_runs gs ! i) (drop i gs) = replicate (zero_runs gs ! i) 0"
proof (induction gs arbitrary: i)
  case (Cons g gs)
  show ?case
  proof (cases i)
    case 0
    show ?thesis
    proof (cases "zero_runs gs")
      case Nil
      then have "gs = []" by (cases gs) auto
      then show ?thesis using 0 by simp
    next
      case zr: (Cons n ns)
      then have "0 < length gs" by (cases gs) auto
      from Cons.IH [OF this] show ?thesis using 0 zr by simp
    qed
  next
    case (Suc j)
    then show ?thesis using Cons by simp
  qed
qed simp

lemma longest_run_zeros:
  assumes "longest_run gs = Some (i, n)"
  shows "i + n \<le> length gs" "gs = take i gs @ replicate n 0 @ drop (i + n) gs" "2 \<le> n"
proof -
  define m where "m = foldr max (zero_runs gs) 0"
  have m: "\<not> m < 2" "find (\<lambda>i. zero_runs gs ! i = m) [0..<length gs] = Some i" "n = m"
    using assms by (auto simp: longest_run_def Let_def m_def split: if_splits)
  then have i: "i < length gs" "zero_runs gs ! i = n" by (auto simp: find_Some_iff)
  from zero_runs_zeros [OF i(1)] i have z: "n \<le> length gs - i" "take n (drop i gs) = replicate n 0" by simp_all
  then show "i + n \<le> length gs" "2 \<le> n" using i m by auto
  have "gs = take i gs @ drop i gs" by simp
  also have "drop i gs = take n (drop i gs) @ drop (i + n) gs"
    using append_take_drop_id [of n "drop i gs"] by (simp add: add.commute)
  finally show "gs = take i gs @ replicate n 0 @ drop (i + n) gs" using z(2) by simp
qed

lemma hex_strings_split:
  "\<forall>f\<in>set (map hex_string gs). f \<noteq> [] \<and> CHR '':'' \<notin> set f \<and> CHR ''.'' \<notin> set f \<and> CHR ''%'' \<notin> set f"
proof
  fix f assume "f \<in> set (map hex_string gs)"
  then obtain g where "f = hex_string g" by auto
  then show "f \<noteq> [] \<and> CHR '':'' \<notin> set f \<and> CHR ''.'' \<notin> set f \<and> CHR ''%'' \<notin> set f"
    using hex_string_nonempty [of g] hex_string_chars [of "CHR '':''" g] hex_string_chars [of "CHR ''.''" g]
      hex_string_chars [of "CHR ''%''" g] by auto
qed

lemma v6_fields_hex:
  "gs \<noteq> [] \<Longrightarrow> \<forall>g\<in>set gs. 0 \<le> g \<and> g < 65536 \<Longrightarrow> v6_fields (map hex_string gs) = Some gs"
proof (induction gs rule: induct_list012)
  case (2 g)
  then show ?case using hex_strings_split [of "[g]"] by (simp add: hex_string_group)
next
  case (3 g h gs)
  then show ?case by (simp add: hex_string_group)
qed simp

lemma v6_list_hex:
  assumes "\<forall>g\<in>set gs. 0 \<le> g \<and> g < 65536"
  shows "v6_list (join_with (CHR '':'') (map hex_string gs)) = Some gs"
proof (cases "gs = []")
  case False
  then have "join_with (CHR '':'') (map hex_string gs) \<noteq> []"
    using join_with_last [of "map hex_string gs" "CHR '':''"] hex_strings_split [of gs] by blast
  moreover have "SplitByte (CHR '':'') (join_with (CHR '':'') (map hex_string gs)) = map hex_string gs"
    using False hex_strings_split [of gs] by (intro SplitByte_join) auto
  ultimately show ?thesis using v6_fields_hex [OF False assms] by (simp add: v6_list_def)
qed (simp add: v6_list_def)

lemma join_hex_chars:
  "c \<in> set (join_with (CHR '':'') (map hex_string gs)) \<Longrightarrow> c \<noteq> CHR ''.'' \<and> c \<noteq> CHR ''%''"
  using join_with_chars [of "CHR '':''" "map hex_string gs"] hex_strings_split [of gs] by fastforce

lemma parseIPv6_string:
  assumes "ip_ok gs"
  shows "parseIPv6 (v6_string gs) = Some gs"
proof (cases "longest_run gs")
  case None
  have "cut_ellipsis (join_with (CHR '':'') (map hex_string gs)) = None"
    using hex_strings_split [of gs] by (intro cut_ellipsis_join) auto
  then show ?thesis using None assms v6_list_hex [of gs] by (simp add: parseIPv6_def v6_string_def ip_ok_def)
next
  case (Some r)
  then obtain i n where r: "longest_run gs = Some (i, n)" by (cases r) auto
  note z = longest_run_zeros [OF r]
  let ?l = "join_with (CHR '':'') (map hex_string (take i gs))"
  let ?r = "join_with (CHR '':'') (map hex_string (drop (i + n) gs))"
  have ok: "\<forall>g\<in>set (take i gs). 0 \<le> g \<and> g < 65536" "\<forall>g\<in>set (drop (i + n) gs). 0 \<le> g \<and> g < 65536"
    using assms by (auto simp: ip_ok_def dest: in_set_takeD in_set_dropD)
  have "cut_ellipsis ?l = None" using hex_strings_split [of "take i gs"] by (intro cut_ellipsis_join) auto
  moreover have "?l = [] \<or> last ?l \<noteq> CHR '':''"
  proof (cases "take i gs = []")
    case False
    then have m: "map hex_string (take i gs) \<noteq> []" by simp
    have "last ?l = last (last (map hex_string (take i gs)))"
      using join_with_last [OF m, of "CHR '':''"] hex_strings_split [of "take i gs"] by blast
    moreover have "last (map hex_string (take i gs)) \<in> set (map hex_string (take i gs))" by (rule last_in_set [OF m])
    ultimately show ?thesis using hex_strings_split [of "take i gs"] last_in_set by metis
  qed auto
  ultimately have "cut_ellipsis (v6_string gs) = Some (?l, ?r)"
    using cut_ellipsis_found [of ?l ?r] by (simp add: v6_string_def r Let_def)
  moreover have "v6_no_tail ?l" using join_hex_chars [of _ "take i gs"] by (auto simp: v6_no_tail_def)
  moreover have "length gs = 8" using assms by (simp add: ip_ok_def)
  moreover have "take i gs @ replicate (8 - length (take i gs) - length (drop (i + n) gs)) 0 @ drop (i + n) gs = gs"
    using z \<open>length gs = 8\<close> by simp
  ultimately show ?thesis using v6_list_hex [OF ok(1)] v6_list_hex [OF ok(2)] z by (simp add: parseIPv6_def)
qed

lemma hd_dec_string: "0 < n \<Longrightarrow> hd (dec_string n) \<noteq> CHR ''0''"
proof (induction n rule: dec_string.induct)
  case (1 n)
  show ?case
  proof (cases "n < 10")
    case True
    then show ?thesis using 1(2) by (auto simp: dec_string.simps [of n] digit_char_def dest!: digit_cases [rotated])
  next
    case False
    then have "hd (dec_string (n div 10)) \<noteq> CHR ''0''" using 1 by simp
    then show ?thesis using False by (simp add: dec_string.simps [of n])
  qed
qed

lemma octet_Itoa: "0 \<le> n \<Longrightarrow> n \<le> 255 \<Longrightarrow> octet (Itoa n) = Some n"
proof (cases "n = 0")
  case True
  then show ?thesis by (simp add: octet_def Itoa_def dec_string.simps digit_char_def digit_val_def)
next
  case False
  assume "0 \<le> n" "n \<le> 255"
  then show ?thesis using False hd_dec_string [of n] read_dec_string [of n] by (simp add: octet_def Itoa_def)
qed

lemma read_digits_nonneg: "read_digits acc s = Some n \<Longrightarrow> 0 \<le> acc \<Longrightarrow> 0 \<le> n"
proof (induction acc s rule: read_digits.induct)
  case (2 acc c s)
  then obtain d where d: "digit_val c = Some d" "read_digits (10 * acc + d) s = Some n" by (auto split: option.splits)
  then have "0 \<le> d" by (auto simp: digit_val_def split: if_splits)
  then show ?case using 2 d by auto
qed simp

lemma octet_range: "octet f = Some n \<Longrightarrow> 0 \<le> n \<and> n \<le> 255"
  by (auto simp: octet_def read_digits_nonneg split: if_splits option.splits)

lemma parseIPv4_range:
  assumes "parseIPv4 s = Some q"
  shows "\<forall>g\<in>set (v4_groups q). 0 \<le> g \<and> g < 65536" "length (v4_groups q) = 2"
proof -
  obtain a b c d where q: "map octet (SplitByte (CHR ''.'') s) = [Some a, Some b, Some c, Some d]" "q = (a, b, c, d)"
    using assms by (auto simp: parseIPv4_def split: list.splits option.splits)
  have "Some x \<in> set (map octet (SplitByte (CHR ''.'') s)) \<Longrightarrow> 0 \<le> x \<and> x \<le> 255" for x
    using octet_range by fastforce
  then have "0 \<le> a \<and> a \<le> 255" "0 \<le> b \<and> b \<le> 255" "0 \<le> c \<and> c \<le> 255" "0 \<le> d \<and> d \<le> 255"
    unfolding q(1) by simp_all
  then show "\<forall>g\<in>set (v4_groups q). 0 \<le> g \<and> g < 65536" "length (v4_groups q) = 2" by (auto simp: q(2) v4_groups_def)
qed

lemma parseIPv4_string:
  assumes "0 \<le> g" "g < 65536" "0 \<le> h" "h < 65536"
  shows "parseIPv4 (v4_string g h) = Some (g div 256, g mod 256, h div 256, h mod 256)"
proof -
  let ?fs = "[Itoa (g div 256), Itoa (g mod 256), Itoa (h div 256), Itoa (h mod 256)]"
  have n: "0 \<le> x \<Longrightarrow> CHR ''.'' \<notin> set (Itoa x)" for x using Itoa_digits [of x "CHR ''.''"] by auto
  have "SplitByte (CHR ''.'') (join_with (CHR ''.'') ?fs) = ?fs" using assms n by (intro SplitByte_join) auto
  moreover have "v4_string g h = join_with (CHR ''.'') ?fs" by (simp add: v4_string_def)
  ultimately show ?thesis using assms by (simp add: parseIPv4_def octet_Itoa)
qed

lemma v6_fields_range: "v6_fields fs = Some gs \<Longrightarrow> \<forall>g\<in>set gs. 0 \<le> g \<and> g < 65536"
proof (induction fs arbitrary: gs rule: v6_fields.induct)
  case (2 f)
  then show ?case using parseIPv4_range(1) hex_group_range by (auto split: if_splits)
next
  case (3 f f' fs)
  then obtain g hs where "hex_group f = Some g" "v6_fields (f' # fs) = Some hs" "gs = g # hs"
    by (auto split: option.splits)
  then show ?case using 3 hex_group_range by auto
qed simp

lemma v6_list_range: "v6_list s = Some gs \<Longrightarrow> \<forall>g\<in>set gs. 0 \<le> g \<and> g < 65536"
  using v6_fields_range by (auto simp: v6_list_def split: if_splits)

lemma parseIPv6_ok: "parseIPv6 s = Some gs \<Longrightarrow> ip_ok gs"
  using v6_list_range unfolding parseIPv6_def ip_ok_def by (fastforce split: option.splits prod.splits if_splits)

lemma ParseIP_ok:
  assumes "ParseIP s = Some gs"
  shows "ip_ok gs"
proof -
  obtain c where c: "find (\<lambda>c. c \<in> set ''.:%'') s = Some c" using assms by (cases "find (\<lambda>c. c \<in> set ''.:%'') s") (auto simp: ParseIP_def)
  show ?thesis
  proof (cases "c = CHR ''.''")
    case True
    then obtain q where "parseIPv4 s = Some q" "gs = [0, 0, 0, 0, 0, 65535] @ v4_groups q"
      using assms c by (auto simp: ParseIP_def)
    then show ?thesis using parseIPv4_range [of s q] by (auto simp: ip_ok_def)
  next
    case False
    then show ?thesis using assms c parseIPv6_ok by (auto simp: ParseIP_def split: if_splits)
  qed
qed

lemma find_in: "find P s = Some c \<Longrightarrow> c \<in> set s \<and> P c"
  by (induction s) (auto split: if_splits)

lemma find_append_free: "\<forall>c\<in>set s. \<not> P c \<Longrightarrow> find P (s @ t) = find P t"
  by (induction s) auto

lemma v6_string_chars: "c \<in> set (v6_string gs) \<Longrightarrow> c \<noteq> CHR ''.'' \<and> c \<noteq> CHR ''%'' \<and> c \<in> set ''0123456789abcdef:''"
proof -
  have j: "c \<in> set ''0123456789abcdef:''" if "c \<in> set (join_with (CHR '':'') (map hex_string hs))" for hs
  proof -
    have "c \<in> insert (CHR '':'') (\<Union>f\<in>set (map hex_string hs). set f)" by (rule subsetD [OF join_with_chars that])
    then have "c = CHR '':'' \<or> (\<exists>g. c \<in> set (hex_string g))" by (simp only: insert_iff set_map) blast
    then have "c = CHR '':'' \<or> c \<in> set ''0123456789abcdef''" using hex_string_chars by blast
    then show ?thesis by auto
  qed
  have s: "x \<in> set ''::'' \<Longrightarrow> x \<in> set ''0123456789abcdef:''" for x by auto
  assume c: "c \<in> set (v6_string gs)"
  have "c \<in> set ''0123456789abcdef:''"
  proof (cases "longest_run gs")
    case None
    then show ?thesis using c by (intro j) (simp add: v6_string_def)
  next
    case (Some r)
    then obtain i n where "longest_run gs = Some (i, n)" by (cases r) auto
    then have "c \<in> set (join_with (CHR '':'') (map hex_string (take i gs))) \<or> c \<in> set ''::''
        \<or> c \<in> set (join_with (CHR '':'') (map hex_string (drop (i + n) gs)))"
      using c by (simp only: v6_string_def Let_def option.case prod.case set_append Un_iff)
    then show ?thesis using j s by blast
  qed
  then show ?thesis by auto
qed

lemma v6_string_colon: "ip_ok gs \<Longrightarrow> CHR '':'' \<in> set (v6_string gs)"
proof (cases "longest_run gs")
  case None
  assume "ip_ok gs"
  then obtain g h hs where "gs = g # h # hs" by (auto simp: ip_ok_def length_Suc_conv numeral_eq_Suc)
  then show ?thesis using None by (simp add: v6_string_def join_with_Cons)
next
  case (Some r)
  then show ?thesis by (cases r) (simp add: v6_string_def Let_def)
qed

text \<open>Reading the text of an address gives the address back.\<close>

lemma ParseIP_String:
  assumes "ip_ok gs"
  shows "ParseIP (IP_String gs) = Some gs"
proof (cases "take 6 gs = [0, 0, 0, 0, 0, 65535]")
  case True
  obtain g h where gh: "drop 6 gs = [g, h]" "gs ! 6 = g" "gs ! 7 = h"
    using assms by (auto simp: ip_ok_def length_Suc_conv numeral_eq_Suc)
  then have gs: "gs = [0, 0, 0, 0, 0, 65535] @ [g, h]" using True append_take_drop_id [of 6 gs] by simp
  then have r: "0 \<le> g" "g < 65536" "0 \<le> h" "h < 65536" using assms by (auto simp: ip_ok_def)
  have "\<forall>c\<in>set (Itoa (g div 256)). \<not> c \<in> set ''.:%''" using Itoa_digits [of "g div 256"] r by fastforce
  then have "find (\<lambda>c. c \<in> set ''.:%'') (v4_string g h) = Some (CHR ''.'')"
    unfolding v4_string_def by (subst find_append_free) simp_all
  moreover have "[256 * (g div 256) + g mod 256, 256 * (h div 256) + h mod 256] = [g, h]" by simp
  ultimately show ?thesis using parseIPv4_string [OF r] True gh gs
    by (simp add: IP_String_def ParseIP_def v4_groups_def)
next
  case False
  have "\<exists>c. find (\<lambda>c. c \<in> set ''.:%'') (v6_string gs) = Some c" using v6_string_colon [OF assms]
    by (cases "find (\<lambda>c. c \<in> set ''.:%'') (v6_string gs)") (auto simp: find_None_iff)
  then obtain c where c: "find (\<lambda>c. c \<in> set ''.:%'') (v6_string gs) = Some c" by blast
  from find_in [OF c] have "c \<in> set (v6_string gs)" "c \<in> set ''.:%''" by blast+
  then have "c = CHR '':''" using v6_string_chars [of c gs] by auto
  moreover have "CHR ''%'' \<notin> set (v6_string gs)" using v6_string_chars by blast
  ultimately show ?thesis using c False parseIPv6_string [OF assms] by (simp add: ParseIP_def IP_String_def)
qed

section \<open>Normalisation\<close>

definition host_alphabet :: string where
  "host_alphabet = ''abcdefghijklmnopqrstuvwxyz0123456789-.:*''"

lemma alphabet_lower:
  "list_all (\<lambda>c. lower_char c = c \<and> c \<noteq> CHR 0xC4 \<and> c \<noteq> CHR 0xE2 \<and> c \<notin> set space_heads \<and> c \<notin> set space_lasts
     \<and> c \<notin> set ''/?#@'') host_alphabet"
  by code_simp

lemma alphabet_chars:
  assumes "c \<in> set host_alphabet"
  shows "lower_char c = c" "c \<noteq> CHR 0xC4" "c \<noteq> CHR 0xE2" "c \<notin> set space_heads" "c \<notin> set space_lasts" "c \<notin> set ''/?#@''"
  using alphabet_lower assms by (simp_all only: list_all_iff) blast+

lemma alphabet_subsets:
  "set ''0123456789'' \<subseteq> set host_alphabet" "set ''0123456789abcdef:'' \<subseteq> set host_alphabet"
  "set ''abcdefghijklmnopqrstuvwxyz0123456789-'' \<subseteq> set host_alphabet" "CHR ''.'' \<in> set host_alphabet"
  by code_simp+

lemma dns_char_alphabet: "dns_char c \<Longrightarrow> c \<in> set host_alphabet \<and> c \<noteq> CHR ''*'' \<and> c \<noteq> CHR ''.''"
proof -
  assume c: "dns_char c"
  have "CHR ''*'' \<notin> set ''abcdefghijklmnopqrstuvwxyz0123456789-''" "CHR ''.'' \<notin> set ''abcdefghijklmnopqrstuvwxyz0123456789-''"
    by code_simp+
  then show ?thesis using c alphabet_subsets(3) unfolding dns_char_def by blast
qed

lemma Itoa_alphabet: "0 \<le> n \<Longrightarrow> c \<in> set (Itoa n) \<Longrightarrow> c \<in> set host_alphabet \<and> c \<noteq> CHR ''*'' \<and> c \<noteq> CHR ''.''"
proof -
  assume "0 \<le> n" "c \<in> set (Itoa n)"
  then have c: "c \<in> set ''0123456789''" by (rule Itoa_digits)
  have "CHR ''*'' \<notin> set ''0123456789''" "CHR ''.'' \<notin> set ''0123456789''" by code_simp+
  then show ?thesis using c alphabet_subsets(1) by blast
qed

lemma v6_alphabet: "c \<in> set (v6_string gs) \<Longrightarrow> c \<in> set host_alphabet \<and> c \<noteq> CHR ''*'' \<and> c \<noteq> CHR ''.''"
proof -
  assume "c \<in> set (v6_string gs)"
  then have c: "c \<in> set ''0123456789abcdef:''" "c \<noteq> CHR ''.''" using v6_string_chars by blast+
  have "CHR ''*'' \<notin> set ''0123456789abcdef:''" by code_simp
  then show ?thesis using c alphabet_subsets(2) by blast
qed

lemma HasPrefix_star: "CHR ''*'' \<notin> set s \<Longrightarrow> \<not> HasPrefix s ''*.''"
  by (auto simp: HasPrefix_iff)

lemma ToLower_alphabet: "set s \<subseteq> set host_alphabet \<Longrightarrow> ToLower s = s"
proof (induction s)
  case (Cons c s)
  then have c: "lower_char c = c" "c \<noteq> CHR 0xC4" "c \<noteq> CHR 0xE2" using alphabet_chars by simp_all
  then have "\<not> HasPrefix (c # s) [CHR 0xC4, CHR 0xB0]" "\<not> HasPrefix (c # s) [CHR 0xE2, CHR 0x84, CHR 0xAA]"
    by (simp_all add: HasPrefix_def)
  then show ?case using Cons c(1) by (simp only: ToLower.simps if_False) simp
qed simp

lemma normalized_text:
  assumes "set s \<subseteq> set host_alphabet" "s \<noteq> []"
  shows "ToLower (TrimSpace s) = s"
proof -
  have "hd s \<in> set host_alphabet" "last s \<in> set host_alphabet" using assms by auto
  then have "TrimSpace s = s" using assms(2) alphabet_chars by (intro TrimSpace_id) blast+
  then show ?thesis using ToLower_alphabet [OF assms(1)] by simp
qed

lemma no_url_parts:
  assumes "set s \<subseteq> set host_alphabet"
  shows "\<not> Contains s ''://''" "\<not> list_ex (\<lambda>c. c \<in> set ''/?#@'') s"
proof -
  have "c \<in> set s \<Longrightarrow> c \<notin> set ''/?#@''" for c using assms alphabet_chars(6) by blast
  then show "\<not> Contains s ''://''" "\<not> list_ex (\<lambda>c. c \<in> set ''/?#@'') s"
    using Contains_subset [of s "''://''"] by (auto simp: list_ex_iff)
qed

lemma HasSuffix_dot: "s \<noteq> [] \<Longrightarrow> HasSuffix s ''.'' \<longleftrightarrow> last s = CHR ''.''"
  by (cases "rev s") (auto simp: HasSuffix_def HasPrefix_def last_rev [symmetric])

text \<open>A text that normalisation would not change.\<close>

lemma Normalize_fixed:
  assumes "set s \<subseteq> set host_alphabet" "s \<noteq> []" "\<not> HasPrefix s ''*.''" "last s \<noteq> CHR ''.''"
  shows "NormalizeAllowedHost s w = (case ParseIP s of Some ip \<Rightarrow> Inr (IP_String ip)
    | None \<Rightarrow> if Contains s '':'' then Inl (HostPort s) else if \<not> validateDNSName s then Inl (HostDNS s) else Inr s)"
  using assms no_url_parts [OF assms(1)] HasSuffix_dot [OF assms(2)]
  unfolding NormalizeAllowedHost_def normalized_text [OF assms(1,2)] Let_def wildcardHostPrefix_def
  by (cases "ParseIP s") simp_all

lemma Normalize_fixed_wildcard:
  assumes "set s \<subseteq> set host_alphabet" "s \<noteq> []" "last s \<noteq> CHR ''.''"
  shows "NormalizeAllowedHost (''*.'' @ s) True = (case ParseIP s of Some ip \<Rightarrow> Inl (HostWildcardIP (''*.'' @ s))
    | None \<Rightarrow> if Contains s '':'' then Inl (HostPort (''*.'' @ s)) else if \<not> validateDNSName s then Inl (HostDNS (''*.'' @ s))
        else Inr (''*.'' @ s))"
proof -
  have "set (''*.'' @ s) \<subseteq> set host_alphabet" "''*.'' @ s \<noteq> []" using assms(1) by (auto simp: host_alphabet_def)
  from normalized_text [OF this] show ?thesis
    using assms no_url_parts [OF assms(1)] HasSuffix_dot [OF assms(2)]
    unfolding NormalizeAllowedHost_def Let_def wildcardHostPrefix_def
    by (cases "ParseIP s") (simp_all add: HasPrefix_def TrimPrefix_def)
qed

lemma SplitByte_parts: "p \<in> set (SplitByte c s) \<Longrightarrow> set p \<subseteq> set s"
proof (induction s arbitrary: p)
  case (Cons x s)
  obtain q qs where q: "SplitByte c s = q # qs" by (meson neq_Nil_conv SplitByte_not_Nil)
  then show ?case using Cons by (fastforce split: if_splits)
qed simp

lemma SplitByte_cover: "x \<in> set s \<Longrightarrow> x = c \<or> (\<exists>p\<in>set (SplitByte c s). x \<in> set p)"
proof (induction s)
  case (Cons y s)
  obtain q qs where q: "SplitByte c s = q # qs" by (meson neq_Nil_conv SplitByte_not_Nil)
  then show ?case using Cons by auto
qed simp

lemma SplitByte_snoc: "SplitByte c (s @ [c]) = SplitByte c s @ [[]]"
  by (induction s) (simp_all add: hd_append)

lemma SplitByte_last: "s \<noteq> [] \<Longrightarrow> last s = c \<Longrightarrow> [] \<in> set (SplitByte c s)"
  using SplitByte_snoc [of c "butlast s"] by (auto dest: append_butlast_last_id)

lemma dns_name_text:
  assumes "validateDNSName s" "s \<noteq> []"
  shows "set s \<subseteq> set host_alphabet" "\<not> HasPrefix s ''*.''" "last s \<noteq> CHR ''.''"
proof -
  have l: "dns_label p" if "p \<in> set (SplitByte (CHR ''.'') s)" for p
    using assms(1) that by (auto simp: validateDNSName_def list_all_iff)
  have c: "x = CHR ''.'' \<or> dns_char x" if "x \<in> set s" for x
    using SplitByte_cover [OF that, of "CHR ''.''"] l by (auto simp: dns_label_def list_all_iff)
  show "set s \<subseteq> set host_alphabet" using c dns_char_alphabet alphabet_subsets(4) by blast
  show "\<not> HasPrefix s ''*.''" using c dns_char_alphabet by (intro HasPrefix_star) blast
  show "last s \<noteq> CHR ''.''" using SplitByte_last [OF assms(2)] l [of "[]"] by (auto simp: dns_label_def)
qed

lemma IP_String_text:
  assumes "ip_ok gs"
  shows "set (IP_String gs) \<subseteq> set host_alphabet \<and> IP_String gs \<noteq> [] \<and> \<not> HasPrefix (IP_String gs) ''*.''
    \<and> last (IP_String gs) \<noteq> CHR ''.''"
proof (cases "take 6 gs = [0, 0, 0, 0, 0, 65535]")
  case True
  have r: "0 \<le> gs ! 6" "0 \<le> gs ! 7" using assms by (auto simp: ip_ok_def)
  let ?s = "v4_string (gs ! 6) (gs ! 7)"
  have c: "c = CHR ''.'' \<or> (\<exists>n. 0 \<le> n \<and> c \<in> set (Itoa n))" if "c \<in> set ?s" for c
    using that r by (auto simp: v4_string_def intro: exI [of _ "gs ! 6 div 256"] exI [of _ "gs ! 6 mod 256"]
        exI [of _ "gs ! 7 div 256"] exI [of _ "gs ! 7 mod 256"])
  have "last ?s \<in> set (Itoa (gs ! 7 mod 256))" by (simp add: v4_string_def)
  then have "last ?s \<noteq> CHR ''.''" using Itoa_alphabet [of "gs ! 7 mod 256"] by simp
  moreover have "set ?s \<subseteq> set host_alphabet" using c Itoa_alphabet alphabet_subsets(4) by blast
  moreover have "CHR ''*'' \<notin> set ?s" using c [of "CHR ''*''"] Itoa_alphabet [of _ "CHR ''*''"] by auto
  moreover have "?s \<noteq> []" by (simp add: v4_string_def)
  ultimately show ?thesis using True HasPrefix_star [of ?s] by (simp add: IP_String_def)
next
  case False
  have "set (v6_string gs) \<subseteq> set host_alphabet" "CHR ''*'' \<notin> set (v6_string gs)" "CHR ''.'' \<notin> set (v6_string gs)"
    using v6_alphabet by blast+
  moreover have "v6_string gs \<noteq> []" using v6_string_colon [OF assms] by auto
  moreover from calculation have "last (v6_string gs) \<noteq> CHR ''.''" using last_in_set by metis
  ultimately show ?thesis using False HasPrefix_star [of "v6_string gs"] by (simp add: IP_String_def)
qed

lemma Normalize_cases:
  assumes "NormalizeAllowedHost host w = Inr n"
  obtains (ip) gs where "ip_ok gs" "n = IP_String gs"
  | (name) "validateDNSName n" "n \<noteq> []" "ParseIP n = None" "\<not> Contains n '':''"
  | (wildcard) d where "w" "n = ''*.'' @ d" "validateDNSName d" "d \<noteq> []" "ParseIP d = None" "\<not> Contains d '':''"
  using assms ParseIP_ok
  unfolding NormalizeAllowedHost_def Let_def wildcardHostPrefix_def
  by (auto split: if_splits option.splits)

lemma Normalize_fixpoint:
  assumes "NormalizeAllowedHost host w = Inr n"
  shows "NormalizeAllowedHost n w = Inr n"
  using assms
proof (cases rule: Normalize_cases)
  case (ip gs)
  then show ?thesis using IP_String_text [OF ip(1)] ParseIP_String [OF ip(1)] by (simp add: Normalize_fixed)
next
  case name
  then show ?thesis using dns_name_text by (simp add: Normalize_fixed)
next
  case (wildcard d)
  then show ?thesis using dns_name_text [of d] Normalize_fixed_wildcard [of d] by simp
qed

lemma normalize_loop_fixed:
  "distinct (acc @ ns) \<Longrightarrow> \<forall>n\<in>set ns. NormalizeAllowedHost n w = Inr n
   \<Longrightarrow> normalize_loop w i acc ns = Inr (acc @ ns)"
  by (induction ns arbitrary: i acc) auto

lemma normalize_loop_result:
  "normalize_loop w i acc hosts = Inr ns \<Longrightarrow> distinct acc \<Longrightarrow>
   distinct ns \<and> set ns = {n. \<exists>h\<in>set hosts. NormalizeAllowedHost h w = Inr n} \<union> set acc"
proof (induction w i acc hosts arbitrary: ns rule: normalize_loop.induct)
  case (2 w i acc h hosts)
  obtain n where n: "NormalizeAllowedHost h w = Inr n" using "2.prems" by (auto split: sum.splits)
  let ?acc = "if n \<in> set acc then acc else acc @ [n]"
  have "distinct ?acc" "set ?acc = insert n (set acc)" using "2.prems" by auto
  then show ?case using "2.IH" [OF n, of ns] "2.prems" n by auto
qed simp

lemma NormalizeAllowedHosts_fixed:
  "NormalizeAllowedHosts hosts w = Inr ns \<Longrightarrow> NormalizeAllowedHosts ns w = Inr ns"
  unfolding NormalizeAllowedHosts_def
  using normalize_loop_result [of w 0 "[]" hosts ns] normalize_loop_fixed [of "[]" ns w 0] Normalize_fixpoint by auto

text \<open>Normalising an allowlist is idempotent and loses no entry: the result has no duplicates, holds exactly the
  canonical forms of the given entries, DNS names, IP addresses (in their canonical text, whichever way they were
  written) and wildcards, and normalising it again leaves it as it is; so a list normalised once is compared, stored
  and re-validated without changing meaning.\<close>

lemma Normalize_idempotent:
  assumes "NormalizeAllowedHosts hosts w = Inr ns"
  shows "distinct ns \<and> set ns = {n. \<exists>h\<in>set hosts. NormalizeAllowedHost h w = Inr n}
    \<and> NormalizeAllowedHosts ns w = Inr ns"
  using normalize_loop_result [of w 0 "[]" hosts ns] NormalizeAllowedHosts_fixed [OF assms] assms
  by (simp add: NormalizeAllowedHosts_def)

lemma Normalize_idempotent_witness:
  "NormalizeAllowedHosts [''API.example.com.'', '' 2001:DB8:0:0::1 '', ''api.example.com''] False
     = Inr [''api.example.com'', ''2001:db8::1'']
   \<and> NormalizeAllowedHosts [''api.example.com'', ''2001:db8::1''] False = Inr [''api.example.com'', ''2001:db8::1'']"
proof -
  have "NormalizeAllowedHosts [''API.example.com.'', '' 2001:DB8:0:0::1 '', ''api.example.com''] False
     = Inr [''api.example.com'', ''2001:db8::1'']" by code_simp
  then show ?thesis using Normalize_idempotent by blast
qed

lemma HasSuffix_iff: "HasSuffix s p \<longleftrightarrow> (\<exists>r. s = r @ p)"
  unfolding HasSuffix_def HasPrefix_iff by (metis rev_append rev_rev_ident)

lemma host_matches_iff:
  "host_matches h p \<longleftrightarrow> p = h \<or> (\<exists>domain. p = ''*.'' @ domain \<and> (h = domain \<or> (\<exists>sub. h = sub @ ''.'' @ domain)))"
proof (cases "HasPrefix p ''*.''")
  case True
  then obtain d where d: "p = ''*.'' @ d" by (auto simp: HasPrefix_iff)
  then have "drop 2 p = d" "drop 1 p = ''.'' @ d" by simp_all
  then show ?thesis using d True by (simp add: host_matches_def HasSuffix_iff)
next
  case False
  then show ?thesis by (auto simp: host_matches_def HasPrefix_iff)
qed

text \<open>C22. The allowlist check decides exactly this: the host is a valid exact host, and some valid entry is that host
  itself, or is a wildcard for a domain that is the host or a parent domain of it, cut at a dot. An empty list allows
  nothing, invalid entries allow nothing, and no entry allows a host that only ends in the same letters.\<close>

theorem IsHostAllowed_iff:
  "IsHostAllowed host allowed \<longleftrightarrow> (\<exists>h. NormalizeAllowedHost host False = Inr h \<and> (\<exists>entry\<in>set allowed.
     NormalizeAllowedHost entry True = Inr h
     \<or> (\<exists>domain. NormalizeAllowedHost entry True = Inr (''*.'' @ domain) \<and> (h = domain \<or> (\<exists>sub. h = sub @ ''.'' @ domain)))))"
proof (cases "NormalizeAllowedHost host False")
  case (Inr h)
  have "(case NormalizeAllowedHost entry True of Inl _ \<Rightarrow> False | Inr p \<Rightarrow> host_matches h p) \<longleftrightarrow>
      NormalizeAllowedHost entry True = Inr h
      \<or> (\<exists>domain. NormalizeAllowedHost entry True = Inr (''*.'' @ domain) \<and> (h = domain \<or> (\<exists>sub. h = sub @ ''.'' @ domain)))"
    for entry by (cases "NormalizeAllowedHost entry True") (simp_all only: sum.case host_matches_iff sum.simps simp_thms ex_simps)
  then show ?thesis using Inr by (simp only: IsHostAllowed_def sum.case list_ex_iff sum.inject ex_simps simp_thms)
qed (simp add: IsHostAllowed_def)

text \<open>A wildcard over the trailing numbers of an address is accepted as a DNS wildcard and then authorises IP addresses:
  \<^verbatim>\<open>*.0.0.1\<close> is a valid entry, and it allows the loopback address, although an entry that names an IP address
  with a wildcard is refused.\<close>

lemma wildcard_authorises_address:
  "NormalizeAllowedHost ''*.127.0.0.1'' True = Inl (HostWildcardIP ''*.127.0.0.1'')
   \<and> NormalizeAllowedHost ''*.0.0.1'' True = Inr ''*.0.0.1''
   \<and> IsHostAllowed ''127.0.0.1'' [''*.0.0.1''] \<and> IsHostAllowed ''10.0.0.1'' [''*.0.0.1'']"
  by code_simp

end
