(* ===== verification/Threshold_Parser.thy ===== *)
theory Threshold_Parser
  imports Core_Model "HOL-Library.List_Lexorder" "HOL-Library.Char_ord"
begin

text \<open>
  Threshold expressions: the data of \<^verbatim>\<open>internal/threshold/types.go\<close> and the parser
  \<^verbatim>\<open>parser.go\<close>. An error carries the reason as a short text; every
  \<^verbatim>\<open>return nil, err\<close> of the source is one \<open>Inl\<close>.
\<close>

section \<open>Data (types.go)\<close>

definition MetricHTTPErrorRate :: string where "MetricHTTPErrorRate = ''http_error_rate''"
definition MetricRateLimitedRate :: string where "MetricRateLimitedRate = ''rate_limited_rate''"
definition MetricDroppedRate :: string where "MetricDroppedRate = ''dropped_rate''"
definition MetricP50 :: string where "MetricP50 = ''p50''"
definition MetricP90 :: string where "MetricP90 = ''p90''"
definition MetricP95 :: string where "MetricP95 = ''p95''"
definition MetricP99 :: string where "MetricP99 = ''p99''"
definition MetricP999 :: string where "MetricP999 = ''p99.9''"
definition MetricMinLatency :: string where "MetricMinLatency = ''min_latency''"
definition MetricMaxLatency :: string where "MetricMaxLatency = ''max_latency''"
definition MetricMeanLatency :: string where "MetricMeanLatency = ''mean_latency''"
definition MetricCompletedRPS :: string where "MetricCompletedRPS = ''completed_rps''"
definition MetricStartedRPS :: string where "MetricStartedRPS = ''started_rps''"
definition MetricTargetRPS :: string where "MetricTargetRPS = ''target_rps''"
definition MetricDroppedRequests :: string where "MetricDroppedRequests = ''dropped_requests''"
definition MetricFailedRequests :: string where "MetricFailedRequests = ''failed_requests''"
definition MetricCompletedRequests :: string where "MetricCompletedRequests = ''completed_requests''"
definition MetricCanceledRequests :: string where "MetricCanceledRequests = ''canceled_requests''"
definition MetricMaxInFlight :: string where "MetricMaxInFlight = ''max_in_flight''"

lemmas metric_name_defs =
  MetricHTTPErrorRate_def MetricRateLimitedRate_def MetricDroppedRate_def
  MetricP50_def MetricP90_def MetricP95_def MetricP99_def MetricP999_def
  MetricMinLatency_def MetricMaxLatency_def MetricMeanLatency_def
  MetricCompletedRPS_def MetricStartedRPS_def MetricTargetRPS_def
  MetricDroppedRequests_def MetricFailedRequests_def MetricCompletedRequests_def
  MetricCanceledRequests_def MetricMaxInFlight_def

definition OpLT :: string where "OpLT = ''<''"
definition OpLTE :: string where "OpLTE = ''<=''"
definition OpGT :: string where "OpGT = ''>''"
definition OpGTE :: string where "OpGTE = ''>=''"
definition OpEQ :: string where "OpEQ = ''==''"
definition OpNE :: string where "OpNE = ''!=''"

lemmas op_defs = OpLT_def OpLTE_def OpGT_def OpGTE_def OpEQ_def OpNE_def

datatype MetricCategory =
    MetricCategoryRate | MetricCategoryLatency | MetricCategoryThroughput
  | MetricCategoryCount | MetricCategoryConcurrency

definition CanonicalMetricCategories :: "(string \<times> MetricCategory) list" where
  "CanonicalMetricCategories =
     [(MetricHTTPErrorRate, MetricCategoryRate), (MetricRateLimitedRate, MetricCategoryRate),
      (MetricDroppedRate, MetricCategoryRate),
      (MetricP50, MetricCategoryLatency), (MetricP90, MetricCategoryLatency), (MetricP95, MetricCategoryLatency),
      (MetricP99, MetricCategoryLatency), (MetricP999, MetricCategoryLatency),
      (MetricMinLatency, MetricCategoryLatency), (MetricMaxLatency, MetricCategoryLatency),
      (MetricMeanLatency, MetricCategoryLatency),
      (MetricCompletedRPS, MetricCategoryThroughput), (MetricStartedRPS, MetricCategoryThroughput),
      (MetricTargetRPS, MetricCategoryThroughput),
      (MetricDroppedRequests, MetricCategoryCount), (MetricFailedRequests, MetricCategoryCount),
      (MetricCompletedRequests, MetricCategoryCount), (MetricCanceledRequests, MetricCategoryCount),
      (MetricMaxInFlight, MetricCategoryConcurrency)]"

definition AllCanonicalMetrics :: "string list" where
  "AllCanonicalMetrics =
     [MetricHTTPErrorRate, MetricRateLimitedRate, MetricDroppedRate,
      MetricP50, MetricP90, MetricP95, MetricP99, MetricP999,
      MetricMinLatency, MetricMaxLatency, MetricMeanLatency,
      MetricCompletedRPS, MetricStartedRPS, MetricTargetRPS,
      MetricDroppedRequests, MetricFailedRequests, MetricCompletedRequests, MetricCanceledRequests,
      MetricMaxInFlight]"

record Threshold =
  MetricName :: string
  StepName :: string
  Category :: MetricCategory
  Operator :: string
  TargetRaw :: string
  TargetValue :: f64
  Unit :: string
  RawExpression :: string

datatype threshold_error = ErrInvalidThreshold string

section \<open>The parser (parser.go)\<close>

text \<open>The byte sequence of the micro sign, U+00B5.\<close>

definition micro :: string where "micro = [CHR 0xC2, CHR 0xB5]"

definition parse_rate :: "string \<Rightarrow> threshold_error + f64 \<times> string" where
  "parse_rate targetStr =
     (if \<not> HasSuffix targetStr ''%'' then Inl (ErrInvalidThreshold ''requires % unit'')
      else case ParseFloat (TrimSpace (TrimSuffix targetStr ''%'')) of
          None \<Rightarrow> Inl (ErrInvalidThreshold ''invalid numeric value'')
        | Some val \<Rightarrow>
            if val < F_Fin 0 \<or> val > F_Fin 100 then Inl (ErrInvalidThreshold ''between 0% and 100%'')
            else Inr (val, ''%''))"

text \<open>The unit switch of a latency target: the number's text, the unit and its multiplier.\<close>

definition latency_unit :: "string \<Rightarrow> (string \<times> string \<times> f64) option" where
  "latency_unit targetStr =
     (if HasSuffix targetStr ''ms'' then Some (TrimSpace (TrimSuffix targetStr ''ms''), ''ms'', F_Fin 1)
      else if HasSuffix targetStr (micro @ ''s'')
      then Some (TrimSpace (TrimSuffix targetStr (micro @ ''s'')), micro @ ''s'', rnd (1 / 1000))
      else if HasSuffix targetStr ''us'' then Some (TrimSpace (TrimSuffix targetStr ''us''), micro @ ''s'', rnd (1 / 1000))
      else if HasSuffix targetStr ''s'' then Some (TrimSpace (TrimSuffix targetStr ''s''), ''s'', F_Fin 1000)
      else None)"

definition parse_latency :: "string \<Rightarrow> threshold_error + f64 \<times> string" where
  "parse_latency targetStr =
     (if HasSuffix targetStr ''%'' \<or> HasSuffix targetStr ''req/s'' \<or> HasSuffix targetStr ''rps''
      then Inl (ErrInvalidThreshold ''requires a duration unit'')
      else case latency_unit targetStr of
          None \<Rightarrow> Inl (ErrInvalidThreshold ''requires a duration unit'')
        | Some (numStr, unit, multiplierMS) \<Rightarrow>
            (case ParseFloat numStr of
                None \<Rightarrow> Inl (ErrInvalidThreshold ''invalid numeric value'')
              | Some val \<Rightarrow>
                  if val < F_Fin 0 then Inl (ErrInvalidThreshold ''cannot be negative'')
                  else Inr (fmul val multiplierMS, unit)))"

definition throughput_num :: "string \<Rightarrow> string" where
  "throughput_num targetStr =
     (if HasSuffix targetStr ''req/s'' then TrimSpace (TrimSuffix targetStr ''req/s'')
      else if HasSuffix targetStr ''rps'' then TrimSpace (TrimSuffix targetStr ''rps'')
      else targetStr)"

definition parse_throughput :: "string \<Rightarrow> threshold_error + f64 \<times> string" where
  "parse_throughput targetStr =
     (if HasSuffix targetStr ''%'' \<or> HasSuffix targetStr ''ms'' \<or> HasSuffix targetStr (micro @ ''s'')
         \<or> HasSuffix targetStr ''us''
      then Inl (ErrInvalidThreshold ''cannot use duration/rate units'')
      else case ParseFloat (throughput_num targetStr) of
          None \<Rightarrow> Inl (ErrInvalidThreshold ''invalid numeric value'')
        | Some val \<Rightarrow>
            if val < F_Fin 0 then Inl (ErrInvalidThreshold ''cannot be negative'')
            else Inr (val, ''req/s''))"

definition count_forbidden :: "string \<Rightarrow> bool" where
  "count_forbidden s \<longleftrightarrow>
     list_ex (\<lambda>c. c \<in> set ''.%abcdefghijklmnopqrstuvwxyzABCDEFGHIJKLMNOPQRSTUVWXYZ'') s \<or> Contains s micro"

definition parse_count :: "string \<Rightarrow> threshold_error + f64 \<times> string" where
  "parse_count targetStr =
     (if count_forbidden targetStr then Inl (ErrInvalidThreshold ''requires non-negative integer target'')
      else case ParseInt targetStr of
          None \<Rightarrow> Inl (ErrInvalidThreshold ''invalid integer value'')
        | Some valInt \<Rightarrow>
            if valInt < 0 then Inl (ErrInvalidThreshold ''cannot be negative'')
            else Inr (f_of_int valInt, ''''))"

definition parseTargetValueAndUnit :: "MetricCategory \<Rightarrow> string \<Rightarrow> threshold_error + f64 \<times> string" where
  "parseTargetValueAndUnit category targetStr = (case category of
       MetricCategoryRate \<Rightarrow> parse_rate targetStr
     | MetricCategoryLatency \<Rightarrow> parse_latency targetStr
     | MetricCategoryThroughput \<Rightarrow> parse_throughput targetStr
     | MetricCategoryCount \<Rightarrow> parse_count targetStr
     | MetricCategoryConcurrency \<Rightarrow> parse_count targetStr)"

definition threshold_operator :: "string \<Rightarrow> string option" where
  "threshold_operator trimmedExpr =
     (if HasPrefix trimmedExpr OpLTE then Some OpLTE
      else if HasPrefix trimmedExpr OpGTE then Some OpGTE
      else if HasPrefix trimmedExpr OpEQ then Some OpEQ
      else if HasPrefix trimmedExpr OpNE then Some OpNE
      else if HasPrefix trimmedExpr OpLT then Some OpLT
      else if HasPrefix trimmedExpr OpGT then Some OpGT
      else None)"

text \<open>The step name and the metric of a metric path.\<close>

definition threshold_path :: "string \<Rightarrow> threshold_error + string \<times> string" where
  "threshold_path trimmedMetric =
     (if HasPrefix trimmedMetric ''step.''
      then (case SplitByte (CHR ''.'') trimmedMetric of
              [p0, p1, p2] \<Rightarrow>
                if p0 \<noteq> ''step'' then Inl (ErrInvalidThreshold ''invalid step threshold metric syntax'')
                else let stepName = TrimSpace p1; canonicalMetric = TrimSpace p2 in
                  if stepName = '''' \<or> canonicalMetric = ''''
                  then Inl (ErrInvalidThreshold ''step name and metric cannot be empty'')
                  else Inr (stepName, canonicalMetric)
            | _ \<Rightarrow> Inl (ErrInvalidThreshold ''invalid step threshold metric syntax''))
      else Inr ('''', trimmedMetric))"

definition ParseThreshold :: "string \<Rightarrow> string \<Rightarrow> threshold_error + Threshold" where
  "ParseThreshold metricName expr =
     (let trimmedMetric = TrimSpace metricName in
      if trimmedMetric = '''' then Inl (ErrInvalidThreshold ''metric name cannot be empty'')
      else result_bind (threshold_path trimmedMetric) (\<lambda>(stepName, canonicalMetric).
        case map_of CanonicalMetricCategories canonicalMetric of
          None \<Rightarrow> Inl (ErrInvalidThreshold ''unknown threshold metric'')
        | Some category \<Rightarrow>
            let trimmedExpr = TrimSpace expr in
            if trimmedExpr = '''' then Inl (ErrInvalidThreshold ''expression cannot be empty'')
            else case threshold_operator trimmedExpr of
                None \<Rightarrow> Inl (ErrInvalidThreshold ''must begin with an operator'')
              | Some op \<Rightarrow>
                  let targetStr = TrimSpace (drop (length op) trimmedExpr) in
                  if targetStr = '''' then Inl (ErrInvalidThreshold ''missing target value'')
                  else result_bind (parseTargetValueAndUnit category targetStr) (\<lambda>(targetValue, unit).
                    Inr \<lparr>MetricName = trimmedMetric, StepName = stepName, Category = category, Operator = op,
                         TargetRaw = targetStr, TargetValue = targetValue, Unit = unit,
                         RawExpression = trimmedExpr\<rparr>)))"

text \<open>The map is an association list with distinct keys; Go's iteration order does not matter, the keys are sorted.\<close>

definition ParseThresholds :: "(string \<times> string) list \<Rightarrow> threshold_error + Threshold list" where
  "ParseThresholds thresholdMap =
     result_fold
       (\<lambda>thresholds key. result_bind (ParseThreshold key (gm_get '''' thresholdMap key)) (\<lambda>t. Inr (thresholds @ [t])))
       [] (sort (map fst thresholdMap))"

section \<open>Helper lemmas\<close>

lemmas category_defs = CanonicalMetricCategories_def metric_name_defs

definition threshold_ops :: "string list" where
  "threshold_ops = [OpLTE, OpGTE, OpEQ, OpNE, OpLT, OpGT]"

lemma threshold_operator_Some:
  assumes "threshold_operator s = Some op"
  shows "op \<in> set threshold_ops \<and> s = op @ drop (length op) s"
proof -
  have "HasPrefix s op \<and> op \<in> set threshold_ops"
    using assms by (auto simp: threshold_operator_def threshold_ops_def split: if_splits)
  then show ?thesis by (auto simp: HasPrefix_iff)
qed

lemma not_neg_fmul:
  assumes "\<not> val < F_Fin 0" "0 < m"
  shows "\<not> fmul val (F_Fin m) < F_Fin 0"
proof (cases val)
  case (F_Fin x)
  then have "F_Fin 0 \<le> rnd (x * m)" using assms by (intro rnd_nonneg) simp
  then show ?thesis using F_Fin f64_le_less_trans by fastforce
qed (use assms in \<open>auto simp: finf_def\<close>)

lemma rnd_milli: "\<exists>m. rnd (1 / 1000) = F_Fin m \<and> 0 < m"
proof -
  have fin: "\<exists>y. rnd (1 / 1000) = F_Fin y"
    by (rule rnd_finite) (use pow2_mono [of 0 971] in \<open>simp add: pow2_def\<close>)
  have "rnd (pow2 (- 10)) \<le> rnd (1 / 1000)" by (rule rnd_mono) (simp add: pow2_def)
  moreover have "rnd (pow2 (- 10)) = F_Fin (pow2 (- 10))"
    by (rule rnd_exact, unfold f64_rep_def, rule exI [of _ 1], rule exI [of _ "- 10"]) simp
  ultimately have "F_Fin (pow2 (- 10)) \<le> rnd (1 / 1000)" by simp
  then show ?thesis using fin by (auto dest: less_le_trans [OF pow2_pos])
qed

lemma latency_unit_multiplier:
  assumes "latency_unit s = Some (num, u, m)"
  shows "\<exists>x. m = F_Fin x \<and> 0 < x"
  using assms by (auto simp: latency_unit_def rnd_milli split: if_splits)

text \<open>What a parsed target satisfies, by category.\<close>

definition target_ok :: "MetricCategory \<Rightarrow> f64 \<Rightarrow> string \<Rightarrow> bool" where
  "target_ok category v unit = (case category of
       MetricCategoryRate \<Rightarrow> unit = ''%'' \<and> \<not> v < F_Fin 0 \<and> \<not> v > F_Fin 100
     | MetricCategoryLatency \<Rightarrow> unit \<in> {''ms'', micro @ ''s'', ''s''} \<and> \<not> v < F_Fin 0
     | MetricCategoryThroughput \<Rightarrow> unit = ''req/s'' \<and> \<not> v < F_Fin 0
     | _ \<Rightarrow> unit = '''' \<and> is_finite v \<and> F_Fin 0 \<le> v)"

lemma parse_latency_ok:
  assumes "parse_latency s = Inr (v, u)"
  shows "target_ok MetricCategoryLatency v u"
proof -
  from assms obtain num m val where l: "latency_unit s = Some (num, u, m)" "\<not> val < F_Fin 0" "v = fmul val m"
    by (auto simp: parse_latency_def split: if_splits option.splits)
  have "u \<in> {''ms'', micro @ ''s'', ''s''}" using l(1) by (auto simp: latency_unit_def split: if_splits)
  then show ?thesis using latency_unit_multiplier [OF l(1)] not_neg_fmul [OF l(2)] l(3)
    by (auto simp: target_ok_def)
qed

lemma ParseInt_range: "ParseInt s = Some n \<Longrightarrow> int64 n"
  by (auto simp: ParseInt_def Let_def split: option.splits if_splits prod.splits)

lemma parse_count_ok:
  assumes "parse_count s = Inr (v, u)"
  shows "u = '''' \<and> is_finite v \<and> F_Fin 0 \<le> v"
proof -
  from assms obtain n where n: "ParseInt s = Some n" "0 \<le> n" "v = f_of_int n" "u = ''''"
    by (auto simp: parse_count_def split: if_splits option.splits)
  then have "\<bar>n\<bar> < 2 ^ 64" using ParseInt_range [OF n(1)] by (simp add: int64_def)
  then show ?thesis using n f_of_int_finite [of n] f_of_int_nonneg by auto
qed

lemma parse_target_ok:
  assumes "parseTargetValueAndUnit c s = Inr (v, u)"
  shows "target_ok c v u"
proof (cases c)
  case MetricCategoryRate
  then show ?thesis using assms
    by (auto simp: parseTargetValueAndUnit_def parse_rate_def target_ok_def split: if_splits option.splits)
next
  case MetricCategoryThroughput
  then show ?thesis using assms
    by (auto simp: parseTargetValueAndUnit_def parse_throughput_def target_ok_def split: if_splits option.splits)
next
  case MetricCategoryLatency
  then show ?thesis using assms by (auto simp: parseTargetValueAndUnit_def intro: parse_latency_ok)
qed (use assms parse_count_ok in \<open>auto simp: parseTargetValueAndUnit_def target_ok_def\<close>)

section \<open>Properties\<close>

lemma ParseThreshold_Inr:
  assumes "ParseThreshold m e = Inr t"
  obtains metric where "threshold_path (TrimSpace m) = Inr (StepName t, metric)"
    "map_of CanonicalMetricCategories metric = Some (Category t)"
    "threshold_operator (TrimSpace e) = Some (Operator t)"
    "TargetRaw t = TrimSpace (drop (length (Operator t)) (TrimSpace e))" "TargetRaw t \<noteq> ''''"
    "parseTargetValueAndUnit (Category t) (TargetRaw t) = Inr (TargetValue t, Unit t)"
    "MetricName t = TrimSpace m" "RawExpression t = TrimSpace e" "TrimSpace m \<noteq> ''''"
proof -
  have m: "TrimSpace m \<noteq> ''''" using assms by (auto simp: ParseThreshold_def Let_def)
  obtain sn metric where p: "threshold_path (TrimSpace m) = Inr (sn, metric)"
    using assms m by (cases "threshold_path (TrimSpace m)") (auto simp: ParseThreshold_def Let_def)
  obtain c where c: "map_of CanonicalMetricCategories metric = Some c"
    using assms m p by (cases "map_of CanonicalMetricCategories metric") (auto simp: ParseThreshold_def Let_def)
  have e: "TrimSpace e \<noteq> ''''" using assms m p c by (auto simp: ParseThreshold_def Let_def)
  obtain op where op: "threshold_operator (TrimSpace e) = Some op"
    using assms m p c e by (cases "threshold_operator (TrimSpace e)") (auto simp: ParseThreshold_def Let_def)
  let ?s = "TrimSpace (drop (length op) (TrimSpace e))"
  have s: "?s \<noteq> ''''" using assms m p c e op by (auto simp: ParseThreshold_def Let_def)
  obtain v u where v: "parseTargetValueAndUnit c ?s = Inr (v, u)"
    using assms m p c e op s by (cases "parseTargetValueAndUnit c ?s") (auto simp: ParseThreshold_def Let_def)
  have "t = \<lparr>MetricName = TrimSpace m, StepName = sn, Category = c, Operator = op,
      TargetRaw = ?s, TargetValue = v, Unit = u, RawExpression = TrimSpace e\<rparr>"
    using assms m p c e op s v by (simp add: ParseThreshold_def Let_def)
  then show thesis using m p c op s v by (intro that) simp_all
qed



text \<open>Count thresholds survive a round trip through their textual form: for every operator and every
  non-negative 64-bit count, the printed expression parses to that operator and that target.\<close>

lemma ParseThreshold_count_roundtrip:
  assumes "op \<in> set threshold_ops" "0 \<le> n" "n < 2 ^ 63"
  shows "ParseThreshold ''dropped_requests'' (op @ '' '' @ Itoa n) =
    Inr \<lparr>MetricName = ''dropped_requests'', StepName = '''', Category = MetricCategoryCount, Operator = op,
      TargetRaw = Itoa n, TargetValue = f_of_int n, Unit = '''', RawExpression = op @ '' '' @ Itoa n\<rparr>"
proof -
  have d: "c \<in> set (Itoa n) \<Longrightarrow> c \<in> set ''0123456789''" for c using Itoa_digits assms(2) by blast
  have "hd (op @ '' '' @ Itoa n) \<in> set ''<>=!''" using assms(1) by (auto simp: threshold_ops_def op_defs)
  moreover have "c \<in> set ''<>=!'' \<Longrightarrow> c \<notin> set space_heads" for c by (auto simp: space_heads_def go_spaces_def)
  moreover have "last (op @ '' '' @ Itoa n) \<notin> set space_lasts"
    using spaces_not_digits [OF d [of "last (Itoa n)"]] by simp
  ultimately have e: "TrimSpace (op @ '' '' @ Itoa n) = op @ '' '' @ Itoa n" by (intro TrimSpace_id) auto
  have o: "threshold_operator (op @ '' '' @ Itoa n) = Some op"
    using assms(1) by (auto simp: threshold_ops_def threshold_operator_def op_defs HasPrefix_def)
  have t: "TrimSpace ('' '' @ Itoa n) = Itoa n"
    using TrimSpace_leading_blank [of "Itoa n"] TrimSpace_Itoa [OF assms(2)] by simp
  have "\<not> count_forbidden (Itoa n)"
  proof -
    have "\<not> Contains (Itoa n) micro" using Contains_subset [of "Itoa n" micro] d by (auto simp: micro_def)
    then show ?thesis using d by (fastforce simp: count_forbidden_def list_ex_iff)
  qed
  then have p: "parseTargetValueAndUnit MetricCategoryCount (Itoa n) = Inr (f_of_int n, '''')"
    using ParseInt_Itoa [of n] assms by (simp add: parseTargetValueAndUnit_def parse_count_def int64_def)
  have m: "TrimSpace ''dropped_requests'' = ''dropped_requests''"
    "threshold_path ''dropped_requests'' = Inr ('''', ''dropped_requests'')"
    "map_of CanonicalMetricCategories ''dropped_requests'' = Some MetricCategoryCount" by code_simp+
  show ?thesis unfolding ParseThreshold_def e m Let_def using o t p by (simp add: m)
qed

lemma ParseThreshold_count_roundtrip_witness:
  "\<exists>t. ParseThreshold ''dropped_requests'' (''=='' @ '' '' @ Itoa 0) = Inr t \<and> TargetValue t = F_Fin 0"
  using ParseThreshold_count_roundtrip [of "''==''" 0] by (simp add: threshold_ops_def op_defs)

text \<open>A threshold on the 99.9th percentile of a scenario step can never be parsed, although the
  metric is canonical: the dot in its name makes a fourth path component.\<close>

lemma step_p999_rejected:
  "ParseThreshold (''step.'' @ name @ ''.'' @ MetricP999) expr
     = Inl (ErrInvalidThreshold ''invalid step threshold metric syntax'')
   \<and> MetricP999 \<in> set AllCanonicalMetrics"
proof
  let ?m = "''step.'' @ name @ ''.'' @ MetricP999"
  have "hd ?m = CHR ''s''" "last ?m = CHR ''9''" by (simp_all add: MetricP999_def)
  moreover have "CHR ''s'' \<notin> set space_heads" "CHR ''9'' \<notin> set space_lasts" by code_simp+
  ultimately have trim: "TrimSpace ?m = ?m" by (intro TrimSpace_id) auto
  have "4 \<le> length (SplitByte (CHR ''.'') ?m)" by (simp add: SplitByte_length MetricP999_def)
  then obtain p0 p1 p2 p3 ps where "SplitByte (CHR ''.'') ?m = p0 # p1 # p2 # p3 # ps"
    by (auto simp: Suc_le_length_iff numeral_eq_Suc)
  moreover have "HasPrefix ?m ''step.''" by (rule HasPrefix_append)
  ultimately have "threshold_path ?m = Inl (ErrInvalidThreshold ''invalid step threshold metric syntax'')"
    by (simp only: threshold_path_def) simp
  then show "ParseThreshold ?m expr = Inl (ErrInvalidThreshold ''invalid step threshold metric syntax'')"
    unfolding ParseThreshold_def Let_def trim by simp
  show "MetricP999 \<in> set AllCanonicalMetrics" by (simp add: AllCanonicalMetrics_def)
qed

text \<open>Parsing a threshold map does not depend on Go's iteration order: two maps with the same entries
  give the same thresholds in the same order, or the same error.\<close>

lemma ParseThresholds_deterministic:
  assumes "distinct (map fst m)" "distinct (map fst m')" "map_of m = map_of m'"
  shows "ParseThresholds m = ParseThresholds m'"
proof -
  have "set (map fst m) = set (map fst m')" using assms(3) by (metis dom_map_of_conv_image_fst list.set_map)
  then have "sort (map fst m) = sort (map fst m')"
    using assms(1,2) by (metis sorted_distinct_set_unique distinct_sort sorted_sort set_sort)
  moreover have "gm_get d m = gm_get d m'" for d by (simp add: gm_get_def fun_eq_iff assms(3))
  ultimately show ?thesis by (simp add: ParseThresholds_def)
qed

theorem ParseThresholds_deterministic_witness:
  "ParseThresholds [(''p95'', ''<= 1s''), (''p50'', ''< 2ms'')] = ParseThresholds [(''p50'', ''< 2ms''), (''p95'', ''<= 1s'')]"
  by (rule ParseThresholds_deterministic) (simp_all add: fun_upd_twist)

text \<open>The thresholds of a map, in the order of their names.\<close>

lemma parse_fold_names:
  "result_fold (\<lambda>ts key. result_bind (ParseThreshold key (gm_get '''' m key)) (\<lambda>t. Inr (ts @ [t]))) ts keys = Inr ts'
   \<Longrightarrow> map MetricName ts' = map MetricName ts @ map TrimSpace keys"
proof (induction keys arbitrary: ts)
  case (Cons key keys)
  then obtain t where t: "ParseThreshold key (gm_get '''' m key) = Inr t"
    "result_fold (\<lambda>ts key. result_bind (ParseThreshold key (gm_get '''' m key)) (\<lambda>t. Inr (ts @ [t]))) (ts @ [t]) keys = Inr ts'"
    by (auto simp: result_bind_Inr)
  have "MetricName t = TrimSpace key" using t(1) by (rule ParseThreshold_Inr)
  then show ?case using Cons.IH [OF t(2)] by simp
qed simp

lemma ParseThresholds_names:
  "ParseThresholds m = Inr ts \<Longrightarrow> map MetricName ts = map TrimSpace (sort (map fst m))"
  unfolding ParseThresholds_def using parse_fold_names by fastforce

end
