(* ===== verification/Profile_Compiler.thy ===== *)
theory Profile_Compiler
  imports Core_Model
begin

text \<open>
  The compiler of load profiles, \<^verbatim>\<open>internal/profile\<close>: source segments, constant
  or ramped, become constant-rate segments that partition the run. \<open>oob\<close> is the
  implementation's conversion of a float outside the range of \<^verbatim>\<open>int64\<close>.
  The laws of the loop are proved once, for any list of (segment, step) pairs, and the
  properties follow for the compiler's nested loops.
\<close>

section \<open>Types (types.go)\<close>

definition StageWarmup :: string where "StageWarmup = ''warmup''"
definition StageMeasured :: string where "StageMeasured = ''measured''"
definition StageCooldown :: string where "StageCooldown = ''cooldown''"
definition MaxSourceSegments :: int where "MaxSourceSegments = 64"
definition MaxCompiledSegments :: int where "MaxCompiledSegments = 256"
definition MaxSegmentNameLength :: int where "MaxSegmentNameLength = 64"

lemmas stage_defs = StageWarmup_def StageMeasured_def StageCooldown_def
lemmas profile_limits = MaxSourceSegments_def MaxCompiledSegments_def MaxSegmentNameLength_def

record SourceSegment =
  src_Name :: string
  src_Stage :: string
  src_Duration :: Duration
  src_Rate :: f64
  src_StartRate :: f64
  src_EndRate :: f64
  src_Steps :: int

record Segment =
  seg_Index :: int
  seg_Name :: string
  seg_Stage :: string
  seg_StartOffset :: Duration
  seg_EndOffset :: Duration
  seg_StartOffsetMS :: int
  seg_EndOffsetMS :: int
  seg_Duration :: Duration
  seg_DurationMS :: int
  seg_Rate :: f64
  seg_TargetRPS :: f64
  seg_IncludedMeasured :: bool

record Compilation =
  Segments :: "Segment list"
  cmp_TotalDuration :: Duration
  PeakTargetRPS :: f64

section \<open>Compile (compiler.go)\<close>

datatype profile_error =
    ErrSourceCount | ErrTimeUnit | ErrCompiledCount
  | ErrRate string | ErrZeroInterval string | ErrDuration string

text \<open>The variables of the loops: \<^verbatim>\<open>compiled\<close>, \<^verbatim>\<open>offset\<close>, \<^verbatim>\<open>peakTargetRPS\<close>.\<close>

record compile_state =
  compiled :: "Segment list"
  offset :: Duration
  peakTargetRPS :: f64

definition effective_steps :: "SourceSegment \<Rightarrow> int" where
  "effective_steps segment = (if src_Steps segment = 0 then 1 else src_Steps segment)"

definition step_duration :: "SourceSegment \<Rightarrow> int \<Rightarrow> Duration" where
  "step_duration segment step =
     (let steps = effective_steps segment;
          baseDuration = go_div (src_Duration segment) steps;
          remainder = go_mod (src_Duration segment) steps
      in if step < remainder then baseDuration + 1 else baseDuration)"

definition step_rate :: "SourceSegment \<Rightarrow> int \<Rightarrow> f64" where
  "step_rate segment step =
     (let steps = effective_steps segment in
      if steps > 1
      then fadd (src_StartRate segment)
             (fdiv (fmul (fsub (src_EndRate segment) (src_StartRate segment)) (f_of_int step)) (f_of_int (steps - 1)))
      else src_Rate segment)"

definition step_name :: "SourceSegment \<Rightarrow> int \<Rightarrow> string" where
  "step_name segment step =
     (if effective_steps segment > 1 then src_Name segment @ ''-'' @ Itoa (step + 1) else src_Name segment)"

definition compile_step ::
  "(f64 \<Rightarrow> int) \<Rightarrow> Duration \<Rightarrow> SourceSegment \<Rightarrow> compile_state \<Rightarrow> int \<Rightarrow> profile_error + compile_state" where
  "compile_step oob timeUnit segment st step =
     (let duration = step_duration segment step;
          rate = step_rate segment step;
          targetRPS = fdiv rate (Seconds timeUnit)
      in if rate \<le> F_Fin 0 \<or> rate = F_NaN \<or> rate = F_PInf \<or> rate = F_NInf \<or> targetRPS \<le> F_Fin 0
         then Inl (ErrRate (src_Name segment))
         else let interval = f_to_int64 oob (fdiv (f_of_int timeUnit) rate) in
           if interval \<le> 0 then Inl (ErrZeroInterval (src_Name segment))
           else if duration \<le> 0 \<or> offset st > MaxInt64 - duration then Inl (ErrDuration (src_Name segment))
           else let endOffset = offset st + duration in
             Inr \<lparr>compiled = compiled st @
                     [\<lparr>seg_Index = int (length (compiled st)),
                       seg_Name = step_name segment step,
                       seg_Stage = src_Stage segment,
                       seg_StartOffset = offset st,
                       seg_EndOffset = endOffset,
                       seg_StartOffsetMS = Milliseconds (offset st),
                       seg_EndOffsetMS = Milliseconds endOffset,
                       seg_Duration = duration,
                       seg_DurationMS = Milliseconds duration,
                       seg_Rate = rate,
                       seg_TargetRPS = targetRPS,
                       seg_IncludedMeasured = (src_Stage segment = StageMeasured)\<rparr>],
                   offset = endOffset,
                   peakTargetRPS = (if targetRPS > peakTargetRPS st then targetRPS else peakTargetRPS st)\<rparr>)"

definition compile_segment ::
  "(f64 \<Rightarrow> int) \<Rightarrow> Duration \<Rightarrow> compile_state \<Rightarrow> SourceSegment \<Rightarrow> profile_error + compile_state" where
  "compile_segment oob timeUnit st segment =
     (let steps = effective_steps segment in
      if wrap64 (int (length (compiled st)) + steps) > MaxCompiledSegments then Inl ErrCompiledCount
      else result_fold (compile_step oob timeUnit segment) st [0..steps - 1])"

definition Compile ::
  "(f64 \<Rightarrow> int) \<Rightarrow> SourceSegment list \<Rightarrow> Duration \<Rightarrow> profile_error + Compilation" where
  "Compile oob source timeUnit =
     (if source = [] \<or> int (length source) > MaxSourceSegments then Inl ErrSourceCount
      else if timeUnit \<le> 0 then Inl ErrTimeUnit
      else result_bind
             (result_fold (compile_segment oob timeUnit) \<lparr>compiled = [], offset = 0, peakTargetRPS = F_Fin 0\<rparr> source)
             (\<lambda>st. Inr \<lparr>Segments = compiled st, cmp_TotalDuration = offset st, PeakTargetRPS = peakTargetRPS st\<rparr>))"

section \<open>The loop's invariant\<close>

text \<open>Segments that follow one another without a gap from one offset to another.\<close>

fun contiguous :: "Duration \<Rightarrow> Segment list \<Rightarrow> Duration \<Rightarrow> bool" where
  "contiguous a [] b = (a = b)"
| "contiguous a (s # ss) b =
     (seg_StartOffset s = a \<and> seg_EndOffset s = a + seg_Duration s \<and> 0 < seg_Duration s \<and> contiguous (seg_EndOffset s) ss b)"

definition seg_ok :: "(f64 \<Rightarrow> int) \<Rightarrow> Duration \<Rightarrow> Segment \<Rightarrow> bool" where
  "seg_ok oob timeUnit s \<longleftrightarrow>
     is_finite (seg_Rate s) \<and> F_Fin 0 < seg_Rate s \<and>
     0 < f_to_int64 oob (fdiv (f_of_int timeUnit) (seg_Rate s)) \<and>
     seg_TargetRPS s = fdiv (seg_Rate s) (Seconds timeUnit) \<and>
     seg_DurationMS s = Milliseconds (seg_Duration s) \<and>
     (seg_IncludedMeasured s \<longleftrightarrow> seg_Stage s = StageMeasured)"

lemma contiguous_append: "contiguous a (ss @ ts) c \<longleftrightarrow> (\<exists>b. contiguous a ss b \<and> contiguous b ts c)"
  by (induction ss arbitrary: a) auto

lemma contiguous_sum: "contiguous a ss b \<Longrightarrow> b = a + (\<Sum>s\<leftarrow>ss. seg_Duration s)"
  by (induction ss arbitrary: a) fastforce+

lemma contiguous_length: "contiguous a ss b \<Longrightarrow> a + int (length ss) \<le> b"
proof (induction ss arbitrary: a)
  case (Cons s ss)
  then have "seg_EndOffset s + int (length ss) \<le> b" "0 < seg_Duration s" "seg_EndOffset s = a + seg_Duration s"
    by auto
  then show ?case by simp
qed simp

definition compile_inv :: "(f64 \<Rightarrow> int) \<Rightarrow> Duration \<Rightarrow> compile_state \<Rightarrow> bool" where
  "compile_inv oob timeUnit st \<longleftrightarrow>
     contiguous 0 (compiled st) (offset st) \<and> offset st \<le> MaxInt64 \<and>
     map seg_Index (compiled st) = map int [0..<length (compiled st)] \<and>
     (\<forall>s\<in>set (compiled st). seg_ok oob timeUnit s \<and> seg_TargetRPS s \<le> peakTargetRPS st) \<and>
     (peakTargetRPS st = F_Fin 0 \<and> compiled st = [] \<or> peakTargetRPS st \<in> seg_TargetRPS ` set (compiled st))"

lemma compile_step_Inr:
  assumes "compile_step oob tu seg st k = Inr st'"
  obtains s where "compiled st' = compiled st @ [s]" and "seg_ok oob tu s"
    and "seg_Index s = int (length (compiled st))"
    and "seg_StartOffset s = offset st" and "seg_EndOffset s = offset st + seg_Duration s"
    and "seg_Duration s = step_duration seg k" and "0 < seg_Duration s"
    and "offset st' = seg_EndOffset s" and "offset st' \<le> MaxInt64"
    and "seg_Stage s = src_Stage seg" and "seg_Rate s = step_rate seg k" and "seg_Name s = step_name seg k"
    and "peakTargetRPS st' = (if peakTargetRPS st < seg_TargetRPS s then seg_TargetRPS s else peakTargetRPS st)"
    and "F_Fin 0 < seg_TargetRPS s \<or> seg_TargetRPS s = F_NaN"
proof -
  let ?r = "step_rate seg k" and ?d = "step_duration seg k"
  from assms have c: "\<not> ?r \<le> F_Fin 0" "?r \<noteq> F_NaN" "?r \<noteq> F_PInf" "?r \<noteq> F_NInf" "\<not> fdiv ?r (Seconds tu) \<le> F_Fin 0"
    "0 < f_to_int64 oob (fdiv (f_of_int tu) ?r)" "0 < ?d" "offset st \<le> MaxInt64 - ?d"
    by (auto simp: compile_step_def Let_def split: if_splits)
  have r: "is_finite ?r" "F_Fin 0 < ?r" using c(1-4) by (cases ?r; simp)+
  have t: "F_Fin 0 < fdiv ?r (Seconds tu) \<or> fdiv ?r (Seconds tu) = F_NaN"
    using c(5) by (cases "fdiv ?r (Seconds tu)") auto
  let ?s = "last (compiled st')"
  from assms c have "st' = \<lparr>compiled = compiled st @ [?s], offset = offset st + ?d,
      peakTargetRPS = (if fdiv ?r (Seconds tu) > peakTargetRPS st then fdiv ?r (Seconds tu) else peakTargetRPS st)\<rparr>"
    and s: "?s = \<lparr>seg_Index = int (length (compiled st)), seg_Name = step_name seg k,
      seg_Stage = src_Stage seg, seg_StartOffset = offset st, seg_EndOffset = offset st + ?d,
      seg_StartOffsetMS = Milliseconds (offset st), seg_EndOffsetMS = Milliseconds (offset st + ?d),
      seg_Duration = ?d, seg_DurationMS = Milliseconds ?d, seg_Rate = ?r, seg_TargetRPS = fdiv ?r (Seconds tu),
      seg_IncludedMeasured = (src_Stage seg = StageMeasured)\<rparr>"
    by (auto simp: compile_step_def Let_def)
  then show thesis using c r t by (intro that [of ?s]) (simp_all add: seg_ok_def)
qed

lemma compile_step_inv:
  assumes step: "compile_step oob tu seg st k = Inr st'" and inv: "compile_inv oob tu st"
    and tu: "0 < tu" "int64 tu"
  shows "compile_inv oob tu st'"
proof -
  from step obtain s where s: "compiled st' = compiled st @ [s]" "seg_ok oob tu s"
    "seg_Index s = int (length (compiled st))" "seg_StartOffset s = offset st"
    "seg_EndOffset s = offset st + seg_Duration s" "0 < seg_Duration s" "offset st' = seg_EndOffset s"
    "offset st' \<le> MaxInt64"
    and p: "peakTargetRPS st' = (if peakTargetRPS st < seg_TargetRPS s then seg_TargetRPS s else peakTargetRPS st)"
    and t: "F_Fin 0 < seg_TargetRPS s \<or> seg_TargetRPS s = F_NaN"
    by (rule compile_step_Inr) metis
  have nan: "seg_TargetRPS s \<noteq> F_NaN"
    using s(2) Seconds_pos [OF tu] by (auto simp: seg_ok_def fdiv_not_NaN)
  have le: "peakTargetRPS st \<le> peakTargetRPS st'" "seg_TargetRPS s \<le> peakTargetRPS st'"
  proof -
    have "peakTargetRPS st \<noteq> F_NaN"
    proof
      assume n: "peakTargetRPS st = F_NaN"
      then have "F_NaN \<in> seg_TargetRPS ` set (compiled st)" using inv by (auto simp: compile_inv_def)
      then show False using inv n by (fastforce simp: compile_inv_def)
    qed
    then show "peakTargetRPS st \<le> peakTargetRPS st'" "seg_TargetRPS s \<le> peakTargetRPS st'"
      using nan p f64_not_less by (auto intro: f64_less_imp_le f64_le_refl)
  qed
  have "contiguous 0 (compiled st') (offset st')"
    using inv s by (auto simp: compile_inv_def contiguous_append)
  moreover have "\<forall>x\<in>set (compiled st'). seg_ok oob tu x \<and> seg_TargetRPS x \<le> peakTargetRPS st'"
    using inv s le by (auto simp: compile_inv_def intro: f64_le_trans)
  moreover have "peakTargetRPS st' \<in> seg_TargetRPS ` set (compiled st')"
    using inv s p t nan by (auto simp: compile_inv_def)
  ultimately show ?thesis using inv s by (simp add: compile_inv_def)
qed

lemma compile_segment_inv:
  assumes "compile_segment oob tu st seg = Inr st'" and "compile_inv oob tu st" and "0 < tu" "int64 tu"
  shows "compile_inv oob tu st'"
proof -
  from assms(1) have "result_fold (compile_step oob tu seg) st [0..effective_steps seg - 1] = Inr st'"
    by (auto simp: compile_segment_def Let_def split: if_splits)
  then show ?thesis using assms(2)
    by (rule result_fold_invariant) (auto intro: compile_step_inv assms(3,4))
qed

section \<open>What the nested loops emit\<close>

text \<open>The specification of a source segment: the name, stage, duration and rate of each of its steps.\<close>

type_synonym emission = "string \<times> string \<times> Duration \<times> f64"

definition emission :: "Segment \<Rightarrow> emission" where
  "emission s = (seg_Name s, seg_Stage s, seg_Duration s, seg_Rate s)"

definition expand :: "SourceSegment \<Rightarrow> emission list" where
  "expand seg = map (\<lambda>k. (step_name seg k, src_Stage seg, step_duration seg k, step_rate seg k))
     [0..effective_steps seg - 1]"

lemma compile_steps_emit:
  assumes "result_fold (compile_step oob tu seg) st ks = Inr st'"
  shows "map emission (compiled st') = map emission (compiled st) @
      map (\<lambda>k. (step_name seg k, src_Stage seg, step_duration seg k, step_rate seg k)) ks
    \<and> (\<forall>k\<in>set ks. 0 < step_duration seg k)"
  using assms
proof (induction ks arbitrary: st)
  case (Cons k ks)
  then obtain t where t: "compile_step oob tu seg st k = Inr t"
    "result_fold (compile_step oob tu seg) t ks = Inr st'" by (auto simp: result_bind_Inr)
  from t(1) have "map emission (compiled t) = map emission (compiled st) @
      [(step_name seg k, src_Stage seg, step_duration seg k, step_rate seg k)] \<and> 0 < step_duration seg k"
    by (rule compile_step_Inr) (simp add: emission_def)
  then show ?case using Cons.IH [OF t(2)] by simp
qed simp

lemma compile_segment_emit:
  assumes "compile_segment oob tu st seg = Inr st'"
  shows "map emission (compiled st') = map emission (compiled st) @ expand seg"
    and "\<forall>k\<in>{0..<effective_steps seg}. 0 < step_duration seg k"
    and "wrap64 (int (length (compiled st)) + effective_steps seg) \<le> MaxCompiledSegments"
proof -
  from assms have f: "result_fold (compile_step oob tu seg) st [0..effective_steps seg - 1] = Inr st'"
    and w: "wrap64 (int (length (compiled st)) + effective_steps seg) \<le> MaxCompiledSegments"
    by (auto simp: compile_segment_def Let_def split: if_splits)
  show "map emission (compiled st') = map emission (compiled st) @ expand seg"
    using compile_steps_emit [OF f] by (simp add: expand_def)
  show "\<forall>k\<in>{0..<effective_steps seg}. 0 < step_duration seg k" using compile_steps_emit [OF f] by simp
  show "wrap64 (int (length (compiled st)) + effective_steps seg) \<le> MaxCompiledSegments" by (rule w)
qed

lemma compile_fold_emit:
  "result_fold (compile_segment oob tu) st segs = Inr st' \<Longrightarrow>
   map emission (compiled st') = map emission (compiled st) @ concat (map expand segs)
   \<and> (\<forall>seg\<in>set segs. \<forall>k\<in>{0..<effective_steps seg}. 0 < step_duration seg k)"
proof (induction segs arbitrary: st)
  case (Cons seg segs)
  then obtain t where t: "compile_segment oob tu st seg = Inr t" "result_fold (compile_segment oob tu) t segs = Inr st'"
    by (auto simp: result_bind_Inr)
  show ?case using compile_segment_emit [OF t(1)] Cons.IH [OF t(2)] by simp
qed simp

text \<open>The remainder of the division is handed out one nanosecond at a time.\<close>

lemma sum_below:
  assumes "0 \<le> r" "r \<le> n"
  shows "(\<Sum>k\<leftarrow>[0..n - 1]. if k < r then 1 else 0) = (r :: int)"
proof -
  have "[0..n - 1] = [0..r - 1] @ [r..n - 1]"
    using assms by (cases "r = n") (auto intro: upto_split1)
  moreover have "(\<Sum>k\<leftarrow>[0..r - 1]. if k < r then 1 else 0) = (\<Sum>k\<leftarrow>[0..r - 1]. 1 :: int)"
    by (rule arg_cong [where f = sum_list]) simp
  moreover have "(\<Sum>k\<leftarrow>[r..n - 1]. if k < r then 1 else 0) = (\<Sum>k\<leftarrow>[r..n - 1]. 0 :: int)"
    by (rule arg_cong [where f = sum_list]) simp
  ultimately show ?thesis using assms by (simp add: sum_list_triv)
qed

lemma step_durations_sum:
  assumes "0 \<le> src_Duration seg" "0 < effective_steps seg"
  shows "(\<Sum>k\<leftarrow>[0..effective_steps seg - 1]. step_duration seg k) = src_Duration seg"
proof -
  let ?n = "effective_steps seg" and ?d = "src_Duration seg"
  have "(\<Sum>k\<leftarrow>[0..?n - 1]. step_duration seg k) = (\<Sum>k\<leftarrow>[0..?n - 1]. ?d div ?n + (if k < ?d mod ?n then 1 else 0))"
    using assms by (intro arg_cong [where f = sum_list]) (simp add: step_duration_def Let_def go_div_nonneg go_mod_nonneg)
  also have "\<dots> = (\<Sum>k\<leftarrow>[0..?n - 1]. ?d div ?n) + (\<Sum>k\<leftarrow>[0..?n - 1]. if k < ?d mod ?n then 1 else 0)"
    by (rule sum_list_addf)
  also have "(\<Sum>k\<leftarrow>[0..?n - 1]. if k < ?d mod ?n then 1 else 0) = ?d mod ?n"
    using assms by (intro sum_below) (simp_all add: pos_mod_bound less_imp_le)
  also have "(\<Sum>k\<leftarrow>[0..?n - 1]. ?d div ?n) = ?n * (?d div ?n)"
    using assms by (simp add: sum_list_triv)
  finally show ?thesis by simp
qed

lemma step_durations_pos:
  assumes "\<forall>k\<in>{0..<effective_steps seg}. 0 < step_duration seg k" "0 < effective_steps seg"
  shows "0 < src_Duration seg"
proof (rule ccontr)
  assume d: "\<not> 0 < src_Duration seg"
  let ?n = "effective_steps seg"
  have q: "go_div (src_Duration seg) ?n \<le> 0"
    using d assms(2) by (auto simp: go_div_def sgn_if pos_imp_zdiv_nonneg_iff)
  have "go_mod (src_Duration seg) ?n \<le> 0"
  proof -
    have "?n * (\<bar>src_Duration seg\<bar> div ?n) \<le> \<bar>src_Duration seg\<bar>"
      using assms(2) by (metis mult_div_mod_eq pos_mod_sign le_add_same_cancel1)
    then show ?thesis using d assms(2) by (auto simp: go_mod_def go_div_def sgn_if)
  qed
  then have "step_duration seg 0 \<le> 0" using q by (simp add: step_duration_def Let_def)
  then show False using assms by force
qed

section \<open>Properties\<close>

lemma Compile_Inr:
  assumes "Compile oob source tu = Inr c"
  obtains st where "result_fold (compile_segment oob tu) \<lparr>compiled = [], offset = 0, peakTargetRPS = F_Fin 0\<rparr> source = Inr st"
    and "c = \<lparr>Segments = compiled st, cmp_TotalDuration = offset st, PeakTargetRPS = peakTargetRPS st\<rparr>"
    and "0 < tu" and "source \<noteq> []" and "int (length source) \<le> MaxSourceSegments"
  using assms by (auto simp: Compile_def result_bind_Inr split: if_splits)

lemma Compile_inv:
  assumes "Compile oob source tu = Inr c" "int64 tu"
  shows "compile_inv oob tu \<lparr>compiled = Segments c, offset = cmp_TotalDuration c, peakTargetRPS = PeakTargetRPS c\<rparr>"
  using assms(1)
proof (rule Compile_Inr)
  fix st
  assume f: "result_fold (compile_segment oob tu) \<lparr>compiled = [], offset = 0, peakTargetRPS = F_Fin 0\<rparr> source = Inr st"
    and c: "c = \<lparr>Segments = compiled st, cmp_TotalDuration = offset st, PeakTargetRPS = peakTargetRPS st\<rparr>" and tu: "0 < tu"
  have "compile_inv oob tu st" using f
  proof (rule result_fold_invariant)
    show "compile_inv oob tu \<lparr>compiled = [], offset = 0, peakTargetRPS = F_Fin 0\<rparr>" by (simp add: compile_inv_def)
  qed (rule compile_segment_inv [OF _ _ tu assms(2)])
  moreover have "st = \<lparr>compiled = Segments c, offset = cmp_TotalDuration c, peakTargetRPS = PeakTargetRPS c\<rparr>"
    by (simp add: c)
  ultimately show ?thesis by simp
qed

lemma Compile_emit:
  assumes "Compile oob source tu = Inr c"
  shows "map emission (Segments c) = concat (map expand source)
    \<and> (\<forall>seg\<in>set source. \<forall>k\<in>{0..<effective_steps seg}. 0 < step_duration seg k)"
  using assms by (rule Compile_Inr) (use compile_fold_emit in fastforce)

lemma expand_duration:
  assumes "\<forall>k\<in>{0..<effective_steps seg}. 0 < step_duration seg k" "0 < effective_steps seg"
  shows "(\<Sum>e\<leftarrow>expand seg. fst (snd (snd e))) = src_Duration seg"
  using step_durations_sum [of seg] step_durations_pos [OF assms] assms(2) by (simp add: expand_def comp_def)

lemma compile_segment_count:
  assumes "compile_segment oob tu st seg = Inr st'" and "compile_inv oob tu st" and "0 < tu" "int64 tu"
    and "int (length (compiled st)) \<le> MaxCompiledSegments"
  shows "int (length (compiled st')) \<le> MaxCompiledSegments"
proof (cases "0 < effective_steps seg")
  case True
  have inv: "compile_inv oob tu st'" by (rule compile_segment_inv [OF assms(1-4)])
  have "length (map emission (compiled st')) = length (map emission (compiled st) @ expand seg)"
    by (simp only: compile_segment_emit(1) [OF assms(1)])
  then have l: "int (length (compiled st')) = int (length (compiled st)) + effective_steps seg"
    using True by (simp add: expand_def)
  have "int (length (compiled st')) \<le> offset st'" "offset st' \<le> MaxInt64"
    using inv contiguous_length by (force simp: compile_inv_def)+
  then have "int64 (int (length (compiled st)) + effective_steps seg)"
    using l by (simp add: int64_def)
  then show ?thesis using compile_segment_emit(3) [OF assms(1)] l by (simp add: wrap64_id)
next
  case False
  then have "compiled st' = compiled st"
    using assms(1) by (auto simp: compile_segment_def Let_def split: if_splits)
  then show ?thesis using assms(5) by simp
qed

lemma Compile_count:
  assumes "Compile oob source tu = Inr c" "int64 tu"
  shows "int (length (Segments c)) \<le> MaxCompiledSegments"
  using assms(1)
proof (rule Compile_Inr)
  fix st
  assume f: "result_fold (compile_segment oob tu) \<lparr>compiled = [], offset = 0, peakTargetRPS = F_Fin 0\<rparr> source = Inr st"
    and c: "c = \<lparr>Segments = compiled st, cmp_TotalDuration = offset st, PeakTargetRPS = peakTargetRPS st\<rparr>" and tu: "0 < tu"
  have "compile_inv oob tu st \<and> int (length (compiled st)) \<le> MaxCompiledSegments" using f
  proof (rule result_fold_invariant)
    show "compile_inv oob tu \<lparr>compiled = [], offset = 0, peakTargetRPS = F_Fin 0\<rparr>
      \<and> int (length (compiled \<lparr>compiled = [], offset = 0, peakTargetRPS = F_Fin 0\<rparr>)) \<le> MaxCompiledSegments"
      by (simp add: compile_inv_def profile_limits)
  qed (use compile_segment_inv compile_segment_count tu assms(2) in blast)
  then show ?thesis using c by simp
qed

lemma Compile_duration:
  assumes "Compile oob source tu = Inr c" "int64 tu" and "\<forall>seg\<in>set source. 0 < effective_steps seg"
  shows "cmp_TotalDuration c = (\<Sum>seg\<leftarrow>source. src_Duration seg)"
proof -
  have em: "map emission (Segments c) = concat (map expand source)"
    and pos: "\<forall>seg\<in>set source. \<forall>k\<in>{0..<effective_steps seg}. 0 < step_duration seg k"
    using Compile_emit [OF assms(1)] by auto
  have "cmp_TotalDuration c = (\<Sum>s\<leftarrow>Segments c. seg_Duration s)"
    using Compile_inv [OF assms(1,2)] contiguous_sum by (fastforce simp: compile_inv_def)
  also have "\<dots> = (\<Sum>e\<leftarrow>map emission (Segments c). fst (snd (snd e)))"
    by (simp add: emission_def comp_def)
  also have "\<dots> = (\<Sum>seg\<leftarrow>source. \<Sum>e\<leftarrow>expand seg. fst (snd (snd e)))"
    unfolding em by (simp add: map_concat sum_list_concat comp_def)
  also have "\<dots> = (\<Sum>seg\<leftarrow>source. src_Duration seg)"
    using pos assms(3) by (intro arg_cong [where f = sum_list] map_cong) (auto intro!: expand_duration)
  finally show ?thesis .
qed

text \<open>C17. A compiled profile partitions its run: its segments follow one another without a gap
  from offset zero to the total duration, each has a positive duration, they are numbered in
  order, and each has a finite positive rate with a positive scheduling interval, so the
  scheduler never divides time into empty ticks.\<close>

theorem Compile_partition:
  assumes "Compile oob source timeUnit = Inr c" "int64 timeUnit"
  shows "contiguous 0 (Segments c) (cmp_TotalDuration c)
    \<and> map seg_Index (Segments c) = map int [0..<length (Segments c)]
    \<and> (\<forall>s\<in>set (Segments c). seg_ok oob timeUnit s)
    \<and> 0 \<le> cmp_TotalDuration c \<and> cmp_TotalDuration c \<le> MaxInt64"
proof -
  have "compile_inv oob timeUnit \<lparr>compiled = Segments c, offset = cmp_TotalDuration c, peakTargetRPS = PeakTargetRPS c\<rparr>"
    by (rule Compile_inv [OF assms])
  then have c: "contiguous 0 (Segments c) (cmp_TotalDuration c)" "cmp_TotalDuration c \<le> MaxInt64"
    "map seg_Index (Segments c) = map int [0..<length (Segments c)]" "\<forall>s\<in>set (Segments c). seg_ok oob timeUnit s"
    by (auto simp: compile_inv_def)
  have "0 \<le> cmp_TotalDuration c" using contiguous_length [OF c(1)] by simp
  then show ?thesis using c by simp
qed

text \<open>The reported peak rate is the largest target rate of the profile: no segment exceeds it
  and, unless the profile is empty, one segment reaches it.\<close>

lemma Compile_peak:
  assumes "Compile oob source timeUnit = Inr c" "int64 timeUnit"
  shows "(\<forall>s\<in>set (Segments c). seg_TargetRPS s \<le> PeakTargetRPS c)
    \<and> (Segments c \<noteq> [] \<longrightarrow> PeakTargetRPS c \<in> seg_TargetRPS ` set (Segments c))"
  using Compile_inv [OF assms] by (auto simp: compile_inv_def)

text \<open>C12. Compilation refines the specification \<open>expand\<close>: the emitted segments are those of the
  source segments, in order, step by step; for sources whose step count is not negative the
  durations add up to exactly the configured durations (no rounding loss) and there are at most 256
  segments, even where the sum of counts in the code's limit check overflows.\<close>

theorem Compile_refines:
  assumes "Compile oob source timeUnit = Inr c" "int64 timeUnit"
    and "\<forall>seg\<in>set source. 0 \<le> src_Steps seg"
  shows "map emission (Segments c) = concat (map expand source)
    \<and> cmp_TotalDuration c = (\<Sum>seg\<leftarrow>source. src_Duration seg)
    \<and> int (length (Segments c)) \<le> MaxCompiledSegments"
proof -
  have "\<forall>seg\<in>set source. 0 < effective_steps seg" using assms(3) by (auto simp: effective_steps_def)
  then show ?thesis
    using Compile_emit [OF assms(1)] Compile_duration [OF assms(1,2)] Compile_count [OF assms(1,2)] by simp
qed

text \<open>A sample profile: a warm-up and a ramp of three steps over ten seconds and a nanosecond.\<close>

definition sample_source :: "SourceSegment list" where
  "sample_source =
     [\<lparr>src_Name = ''w'', src_Stage = StageWarmup, src_Duration = 5000000000, src_Rate = F_Fin 10,
       src_StartRate = F_Fin 0, src_EndRate = F_Fin 0, src_Steps = 0\<rparr>,
      \<lparr>src_Name = ''m'', src_Stage = StageMeasured, src_Duration = 10000000001, src_Rate = F_Fin 0,
       src_StartRate = F_Fin 10, src_EndRate = F_Fin 40, src_Steps = 3\<rparr>]"

lemma Seconds_Second: "Seconds 1000000000 = F_Fin 1"
  by (simp add: Seconds_def go_div_def go_mod_def f_of_int_exact)

lemma sample_compiles: "\<exists>c. Compile (\<lambda>_. 0) sample_source Second = Inr c"
  by (simp add: Compile_def sample_source_def profile_limits compile_segment_def effective_steps_def wrap64_def Let_def
      compile_step_def step_duration_def step_rate_def Seconds_Second go_div_def go_mod_def upto_rec1
      fsub_def f_of_int_exact rnd_numeral Second_def rat_trunc_def)

lemma int64_Second: "int64 Second"
  by (simp add: int64_def Second_def)

theorem Compile_partition_witness:
  "\<exists>c. Compile (\<lambda>_. 0) sample_source Second = Inr c \<and> contiguous 0 (Segments c) (cmp_TotalDuration c)"
proof -
  obtain c where c: "Compile (\<lambda>_. 0) sample_source Second = Inr c" using sample_compiles by blast
  with Compile_partition [OF c int64_Second] show ?thesis by blast
qed

lemma Compile_peak_witness:
  "\<exists>c. Compile (\<lambda>_. 0) sample_source Second = Inr c \<and> (\<forall>s\<in>set (Segments c). seg_TargetRPS s \<le> PeakTargetRPS c)"
proof -
  obtain c where c: "Compile (\<lambda>_. 0) sample_source Second = Inr c" using sample_compiles by blast
  with Compile_peak [OF c int64_Second] show ?thesis by blast
qed

theorem Compile_refines_witness:
  "\<exists>c. Compile (\<lambda>_. 0) sample_source Second = Inr c \<and> cmp_TotalDuration c = 15000000001"
proof -
  obtain c where c: "Compile (\<lambda>_. 0) sample_source Second = Inr c" using sample_compiles by blast
  moreover have "\<forall>seg\<in>set sample_source. 0 \<le> src_Steps seg" by (simp add: sample_source_def)
  ultimately show ?thesis using Compile_refines [OF c int64_Second] by (auto simp: sample_source_def)
qed

end
