(* ===== verification/Config_Model.thy ===== *)
theory Config_Model
  imports Safety_Hosts Threshold_Parser Profile_Compiler
begin

text \<open>
  The configuration document and its validation: \<^verbatim>\<open>internal/config/types.go\<close> and
  \<^verbatim>\<open>internal/config/validate.go\<close>. The Go functions validate a configuration and fill in its
  defaults in place; here they return the configuration with its defaults, or the error. What an error leaves
  half-normalised is discarded, as its callers discard it.

  Parameters: \<open>url_Parse\<close> is \<^verbatim>\<open>net/url.Parse\<close> (scheme, host and host name of an accepted
  text), \<open>regex_ok\<close> tells whether \<^verbatim>\<open>regexp.Compile\<close> accepts an expression, and
  \<open>oob\<close> is the implementation's conversion of a float outside the range of \<^verbatim>\<open>int64\<close>. The
  YAML decoder is third-party code: its document tree is the input of \<open>checkDuplicateKeys\<close>, its result
  the input of \<open>ValidateConfig\<close>. A Go map is an association list; where several of its entries are
  invalid, which error is reported depends on Go's iteration order, and here on the order of the list.
\<close>

section \<open>Types and defaults (types.go)\<close>

definition LegacySchemaVersion :: int where "LegacySchemaVersion = 1"
definition ExpectedSchemaVersion :: int where "ExpectedSchemaVersion = 2"

definition DefaultRequestTimeout :: Duration where "DefaultRequestTimeout = 10 * Second"
definition DefaultGracefulStop :: Duration where "DefaultGracefulStop = 10 * Second"
definition DefaultTimeUnit :: Duration where "DefaultTimeUnit = Second"
definition DefaultResponseBodyLimitStr :: string where "DefaultResponseBodyLimitStr = ''1MiB''"
definition MaxResponseBodyLimitBytes :: int where "MaxResponseBodyLimitBytes = 50 * 1024 * 1024"

definition RedirectPolicySameOrigin :: string where "RedirectPolicySameOrigin = ''same-origin''"
definition RedirectPolicyNone :: string where "RedirectPolicyNone = ''none''"
definition RedirectPolicyAll :: string where "RedirectPolicyAll = ''all''"
definition DefaultRedirects :: string where "DefaultRedirects = ''same-origin''"

definition AuthTypeNone :: string where "AuthTypeNone = ''none''"
definition AuthTypeBearer :: string where "AuthTypeBearer = ''bearer''"
definition AuthTypeCustomHeader :: string where "AuthTypeCustomHeader = ''custom_header''"
definition AuthTypeTokenPool :: string where "AuthTypeTokenPool = ''token_pool''"
definition AuthTypeBasic :: string where "AuthTypeBasic = ''basic''"

definition MaxScenarioSteps :: int where "MaxScenarioSteps = 50"
definition OnFailureStop :: string where "OnFailureStop = ''stop''"
definition OnFailureAbortVU :: string where "OnFailureAbortVU = ''abort_vu''"
definition OnFailureContinue :: string where "OnFailureContinue = ''continue''"

definition extract_sources :: "string list" where
  "extract_sources = [''json'', ''jsonpath'', ''header'', ''cookie'', ''regex'']"

lemmas schema_defs = LegacySchemaVersion_def ExpectedSchemaVersion_def
lemmas default_defs = DefaultRequestTimeout_def DefaultGracefulStop_def DefaultTimeUnit_def Second_def
lemmas redirect_defs = RedirectPolicySameOrigin_def RedirectPolicyNone_def RedirectPolicyAll_def DefaultRedirects_def
lemmas auth_defs = AuthTypeNone_def AuthTypeBearer_def AuthTypeCustomHeader_def AuthTypeTokenPool_def AuthTypeBasic_def
lemmas failure_defs = OnFailureStop_def OnFailureAbortVU_def OnFailureContinue_def

record ExtractRuleConfig =
  er_From :: string
  er_Expression :: string

record StepConfig =
  st_Name :: string
  st_URL :: string
  st_Method :: string
  st_Headers :: "(string \<times> string) list"
  st_Body :: string
  st_ExpectedStatuses :: "int list"
  st_Timeout :: Duration
  st_ResponseBodyLimit :: string
  st_Redirects :: string
  st_ThinkTime :: Duration
  st_Extract :: "(string \<times> ExtractRuleConfig) list"
  st_OnFailure :: string

record ScenarioConfig =
  sc_Name :: string
  sc_Steps :: "StepConfig list"

record AuthConfig =
  au_Type :: string
  au_Token :: string
  au_HeaderName :: string
  au_Username :: string
  au_Password :: string
  au_TokenPool :: "string list"
  au_CookieJar :: bool

record RequestConfig =
  rq_URL :: string
  rq_Method :: string
  rq_Headers :: "(string \<times> string) list"
  rq_ExpectedStatuses :: "int list"
  rq_Timeout :: Duration
  rq_ResponseBodyLimit :: string
  rq_Redirects :: string

record ProfileSegmentConfig =
  ps_Name :: string
  ps_Stage :: string
  ps_Duration :: Duration
  ps_Rate :: f64
  ps_StartRate :: f64
  ps_EndRate :: f64
  ps_Steps :: int

record LoadConfig =
  ld_Model :: string
  ld_Rate :: f64
  ld_TimeUnit :: Duration
  ld_MaxInFlight :: int
  ld_Duration :: Duration
  ld_GracefulStop :: Duration
  ld_Users :: int
  ld_ThinkTime :: Duration
  ld_Segments :: "ProfileSegmentConfig list"

record SafetyConfig =
  sf_AllowedHosts :: "string list"
  sf_AllowNonIdempotent :: bool

record Config =
  cf_SchemaVersion :: int
  cf_Name :: string
  cf_Request :: RequestConfig
  cf_Scenario :: "ScenarioConfig option"
  cf_Load :: LoadConfig
  cf_Treat429AsExpected :: bool
  cf_Auth :: AuthConfig
  cf_Thresholds :: "(string \<times> string) list"
  cf_Safety :: SafetyConfig

datatype config_error =
    ErrConfigValidation string
  | ErrInvalidSchemaVersion int
  | ErrDuplicateYAMLKey string
  | ErrConfigThreshold threshold_error
  | ErrConfigProfile profile_error
  | ErrConfigHosts host_error
  | ErrConfigStep string config_error

subsection \<open>Byte sizes\<close>

definition byte_multiplier :: "string \<Rightarrow> int option" where
  "byte_multiplier unit = map_of [('''', 1), (''b'', 1), (''bytes'', 1), (''k'', 1000), (''kb'', 1000), (''kib'', 1024),
     (''m'', 1000000), (''mb'', 1000000), (''mib'', 1048576), (''g'', 1000000000), (''gb'', 1000000000),
     (''gib'', 1073741824)] unit"

definition size_char :: "char \<Rightarrow> bool" where
  "size_char c \<longleftrightarrow> c \<in> set ''0123456789.''"

definition ParseByteSize :: "(f64 \<Rightarrow> int) \<Rightarrow> string \<Rightarrow> int option" where
  "ParseByteSize oob s =
     (let s = TrimSpace s; numStr = takeWhile size_char s; unit = TrimSpace (dropWhile size_char s) in
      if s = '''' \<or> numStr = '''' then None
      else case ParseFloat numStr of
          None \<Rightarrow> None
        | Some val \<Rightarrow> if val < F_Fin 0 then None
            else (case byte_multiplier (ToLower unit) of
                None \<Rightarrow> None
              | Some multiplier \<Rightarrow> Some (f_to_int64 oob (fmul val (f_of_int multiplier)))))"

subsection \<open>Load profiles\<close>

definition source_segment :: "ProfileSegmentConfig \<Rightarrow> SourceSegment" where
  "source_segment s = \<lparr>src_Name = ps_Name s, src_Stage = ps_Stage s, src_Duration = ps_Duration s, src_Rate = ps_Rate s,
     src_StartRate = ps_StartRate s, src_EndRate = ps_EndRate s, src_Steps = ps_Steps s\<rparr>"

definition profile_source :: "LoadConfig \<Rightarrow> SourceSegment list" where
  "profile_source load = (if ld_Segments load = []
     then [\<lparr>src_Name = ''measured'', src_Stage = StageMeasured, src_Duration = ld_Duration load, src_Rate = ld_Rate load,
            src_StartRate = F_Fin 0, src_EndRate = F_Fin 0, src_Steps = 0\<rparr>]
     else map source_segment (ld_Segments load))"

definition CompileLoadProfile :: "(f64 \<Rightarrow> int) \<Rightarrow> LoadConfig option \<Rightarrow> config_error + Compilation" where
  "CompileLoadProfile oob load = (case load of
       None \<Rightarrow> Inl (ErrConfigValidation ''load cannot be nil'')
     | Some load \<Rightarrow> (case Compile oob (profile_source load) (ld_TimeUnit load) of
           Inl e \<Rightarrow> Inl (ErrConfigProfile e) | Inr c \<Rightarrow> Inr c))"

section \<open>Validation (validate.go)\<close>

record parsed_url =
  pu_Scheme :: string
  pu_Host :: string

text \<open>\<^verbatim>\<open>URL.Hostname\<close>: the host without a port and without the brackets of an IPv6 address.\<close>

definition validOptionalPort :: "string \<Rightarrow> bool" where
  "validOptionalPort port \<longleftrightarrow> (case port of [] \<Rightarrow> True | c # digits \<Rightarrow> c = CHR '':'' \<and> list_all (\<lambda>d. d \<in> set ''0123456789'') digits)"

definition strip_port :: "string \<Rightarrow> string" where
  "strip_port hostPort = (let tail = takeWhile (\<lambda>c. c \<noteq> CHR '':'') (rev hostPort); k = length hostPort - length tail in
     if CHR '':'' \<in> set hostPort \<and> validOptionalPort (drop (k - 1) hostPort) then take (k - 1) hostPort else hostPort)"

definition pu_Hostname :: "parsed_url \<Rightarrow> string" where
  "pu_Hostname u = (let host = strip_port (pu_Host u) in
     if HasPrefix host ''['' \<and> HasSuffix host '']'' then take (length host - 2) (drop 1 host) else host)"

subsection \<open>Duplicate keys\<close>

datatype yaml_node =
    DocumentNode "yaml_node list"
  | MappingNode "(yaml_node \<times> yaml_node) list"
  | SequenceNode "yaml_node list"
  | ScalarNode string
  | AliasNode string

fun node_Value :: "yaml_node \<Rightarrow> string" where
  "node_Value (ScalarNode v) = v"
| "node_Value (AliasNode v) = v"
| "node_Value _ = ''''"

text \<open>\<open>Some k\<close> is the error for the key \<open>k\<close>; \<open>seen\<close> are the keys of the mapping so far.\<close>

fun checkDuplicateKeys :: "yaml_node \<Rightarrow> string option"
and check_nodes :: "yaml_node list \<Rightarrow> string option"
and check_pairs :: "string list \<Rightarrow> (yaml_node \<times> yaml_node) list \<Rightarrow> string option" where
  "checkDuplicateKeys (DocumentNode ns) = check_nodes ns"
| "checkDuplicateKeys (MappingNode ps) = check_pairs [] ps"
| "checkDuplicateKeys (SequenceNode ns) = check_nodes ns"
| "checkDuplicateKeys (ScalarNode v) = None"
| "checkDuplicateKeys (AliasNode v) = None"
| "check_nodes [] = None"
| "check_nodes (n # ns) = (case checkDuplicateKeys n of Some k \<Rightarrow> Some k | None \<Rightarrow> check_nodes ns)"
| "check_pairs seen [] = None"
| "check_pairs seen ((key, val) # ps) =
     (if node_Value key \<in> set seen then Some (node_Value key)
      else case checkDuplicateKeys val of Some k \<Rightarrow> Some k | None \<Rightarrow> check_pairs (node_Value key # seen) ps)"

subsection \<open>Requests and scenario steps\<close>

definition supported_methods :: "string list" where
  "supported_methods = [''GET'', ''POST'', ''PUT'', ''PATCH'', ''DELETE'', ''HEAD'', ''OPTIONS'']"

definition normalize_timeout :: "Duration \<Rightarrow> config_error + Duration" where
  "normalize_timeout t = (if t < 0 then Inl (ErrConfigValidation ''timeout cannot be negative'')
     else Inr (if t = 0 then DefaultRequestTimeout else t))"

definition normalize_statuses :: "int list \<Rightarrow> config_error + int list" where
  "normalize_statuses statuses = (if statuses = [] then Inr [200]
     else if list_all (\<lambda>s. 100 \<le> s \<and> s \<le> 599) statuses then Inr statuses
     else Inl (ErrConfigValidation ''invalid expected_status''))"

definition normalize_body_limit :: "(f64 \<Rightarrow> int) \<Rightarrow> string \<Rightarrow> config_error + string" where
  "normalize_body_limit oob limit =
     (let limit = (if limit = '''' then DefaultResponseBodyLimitStr else limit) in
      case ParseByteSize oob limit of
        None \<Rightarrow> Inl (ErrConfigValidation ''invalid response_body_limit'')
      | Some limitBytes \<Rightarrow>
          if limitBytes \<le> 0 then Inl (ErrConfigValidation ''response_body_limit must be > 0'')
          else if limitBytes > MaxResponseBodyLimitBytes then Inl (ErrConfigValidation ''response_body_limit exceeds hard safety limit'')
          else Inr limit)"

definition normalize_redirects :: "string \<Rightarrow> config_error + string" where
  "normalize_redirects redirects =
     (let redirects = (if redirects = '''' then DefaultRedirects else redirects) in
      if redirects \<in> {RedirectPolicySameOrigin, RedirectPolicyNone, RedirectPolicyAll} then Inr redirects
      else Inl (ErrConfigValidation ''invalid redirects''))"

definition validateRequestConfig ::
  "(f64 \<Rightarrow> int) \<Rightarrow> (string \<Rightarrow> parsed_url option) \<Rightarrow> RequestConfig \<Rightarrow> config_error + RequestConfig" where
  "validateRequestConfig oob url_Parse req =
     (let trimmedURL = TrimSpace (rq_URL req) in
      if trimmedURL = '''' then Inl (ErrConfigValidation ''request.url cannot be empty'')
      else if (case url_Parse trimmedURL of None \<Rightarrow> True
          | Some u \<Rightarrow> pu_Scheme u \<noteq> ''http'' \<and> pu_Scheme u \<noteq> ''https'' \<or> pu_Host u = '''')
      then Inl (ErrConfigValidation ''request.url must be a valid absolute http/https URL'')
      else let method_name = ToUpper (TrimSpace (rq_Method req)) in
        if method_name = '''' then Inl (ErrConfigValidation ''request.method cannot be empty'')
        else if method_name \<notin> set supported_methods then Inl (ErrConfigValidation ''unsupported request.method'')
        else result_bind (normalize_timeout (rq_Timeout req)) (\<lambda>timeout.
             result_bind (normalize_statuses (rq_ExpectedStatuses req)) (\<lambda>statuses.
             result_bind (normalize_body_limit oob (rq_ResponseBodyLimit req)) (\<lambda>limit.
             result_bind (normalize_redirects (rq_Redirects req)) (\<lambda>redirects.
             Inr (req\<lparr>rq_Method := method_name, rq_Timeout := timeout, rq_ExpectedStatuses := statuses,
                      rq_ResponseBodyLimit := limit, rq_Redirects := redirects\<rparr>))))))"

definition check_extract :: "(string \<Rightarrow> bool) \<Rightarrow> string \<times> ExtractRuleConfig \<Rightarrow> config_error option" where
  "check_extract regex_ok p = (case p of (varName, rule) \<Rightarrow>
     let from = ToLower (TrimSpace (er_From rule)); expr = TrimSpace (er_Expression rule) in
     if TrimSpace varName = '''' then Some (ErrConfigValidation ''extraction variable name cannot be empty'')
     else if from \<notin> set extract_sources then Some (ErrConfigValidation ''invalid extraction source'')
     else if expr = '''' then Some (ErrConfigValidation ''extraction expression cannot be empty'')
     else if from = ''regex'' \<and> \<not> regex_ok expr then Some (ErrConfigValidation ''invalid regex expression'')
     else None)"

primrec first_error :: "('a \<Rightarrow> config_error option) \<Rightarrow> 'a list \<Rightarrow> config_error option" where
  "first_error f [] = None"
| "first_error f (x # xs) = (case f x of Some e \<Rightarrow> Some e | None \<Rightarrow> first_error f xs)"

definition normalize_on_failure :: "string \<Rightarrow> config_error + string" where
  "normalize_on_failure policy =
     (let onFailure = ToLower (TrimSpace policy); onFailure = (if onFailure = '''' then OnFailureStop else onFailure) in
      if onFailure \<in> {OnFailureStop, OnFailureAbortVU, OnFailureContinue} then Inr onFailure
      else Inl (ErrConfigValidation ''invalid on_failure policy''))"

definition validateStepConfig ::
  "(f64 \<Rightarrow> int) \<Rightarrow> (string \<Rightarrow> bool) \<Rightarrow> StepConfig \<Rightarrow> config_error + StepConfig" where
  "validateStepConfig oob regex_ok step =
     (let trimmedURL = TrimSpace (st_URL step) in
      if trimmedURL = '''' then Inl (ErrConfigValidation ''step url cannot be empty'')
      else if \<not> HasPrefix trimmedURL ''http://'' \<and> \<not> HasPrefix trimmedURL ''https://''
      then Inl (ErrConfigValidation ''step url must be a valid absolute http/https URL'')
      else let m = ToUpper (TrimSpace (st_Method step)); method_name = (if m = '''' then ''GET'' else m) in
        if method_name \<notin> set supported_methods then Inl (ErrConfigValidation ''unsupported step method'')
        else result_bind (normalize_timeout (st_Timeout step)) (\<lambda>timeout.
             result_bind (normalize_statuses (st_ExpectedStatuses step)) (\<lambda>statuses.
             result_bind (normalize_body_limit oob (st_ResponseBodyLimit step)) (\<lambda>limit.
             result_bind (normalize_redirects (st_Redirects step)) (\<lambda>redirects.
             if st_ThinkTime step < 0 then Inl (ErrConfigValidation ''step think_time cannot be negative'')
             else result_bind (normalize_on_failure (st_OnFailure step)) (\<lambda>onFailure.
                  case first_error (check_extract regex_ok) (st_Extract step) of
                    Some e \<Rightarrow> Inl e
                  | None \<Rightarrow> Inr (step\<lparr>st_Method := method_name, st_Timeout := timeout, st_ExpectedStatuses := statuses,
                      st_ResponseBodyLimit := limit, st_Redirects := redirects, st_OnFailure := onFailure\<rparr>)))))))"

fun validate_steps ::
  "(f64 \<Rightarrow> int) \<Rightarrow> (string \<Rightarrow> bool) \<Rightarrow> string list \<Rightarrow> StepConfig list \<Rightarrow> config_error + StepConfig list" where
  "validate_steps oob regex_ok seenNames [] = Inr []"
| "validate_steps oob regex_ok seenNames (step # steps) =
     (let stepName = TrimSpace (st_Name step) in
      if stepName = '''' then Inl (ErrConfigValidation ''scenario step name cannot be empty'')
      else if stepName \<in> set seenNames then Inl (ErrConfigValidation ''duplicate step name'')
      else case validateStepConfig oob regex_ok (step\<lparr>st_Name := stepName\<rparr>) of
          Inl e \<Rightarrow> Inl (ErrConfigStep stepName e)
        | Inr step' \<Rightarrow> result_bind (validate_steps oob regex_ok (stepName # seenNames) steps) (\<lambda>steps'. Inr (step' # steps')))"

definition validateScenarioConfig ::
  "(f64 \<Rightarrow> int) \<Rightarrow> (string \<Rightarrow> bool) \<Rightarrow> ScenarioConfig \<Rightarrow> config_error + ScenarioConfig" where
  "validateScenarioConfig oob regex_ok scenario =
     (if TrimSpace (sc_Name scenario) = '''' then Inl (ErrConfigValidation ''scenario.name cannot be empty'')
      else if sc_Steps scenario = [] then Inl (ErrConfigValidation ''scenario must define at least one step'')
      else if int (length (sc_Steps scenario)) > MaxScenarioSteps then Inl (ErrConfigValidation ''scenario has too many steps'')
      else result_bind (validate_steps oob regex_ok [] (sc_Steps scenario)) (\<lambda>steps. Inr (scenario\<lparr>sc_Steps := steps\<rparr>)))"

subsection \<open>Load\<close>

definition stageRank :: "string \<Rightarrow> int option" where
  "stageRank stage = map_of [(StageWarmup, 0), (StageMeasured, 1), (StageCooldown, 2)] stage"

definition constant_segment :: "ProfileSegmentConfig \<Rightarrow> bool" where
  "constant_segment s \<longleftrightarrow> ps_Rate s > F_Fin 0 \<and> ps_StartRate s = F_Fin 0 \<and> ps_EndRate s = F_Fin 0 \<and> ps_Steps s = 0"

definition ramp_segment :: "ProfileSegmentConfig \<Rightarrow> bool" where
  "ramp_segment s \<longleftrightarrow> ps_Rate s = F_Fin 0 \<and> ps_StartRate s > F_Fin 0 \<and> ps_EndRate s > F_Fin 0 \<and> ps_Steps s \<ge> 2"

fun segments_loop :: "string list \<Rightarrow> int \<Rightarrow> bool \<Rightarrow> ProfileSegmentConfig list \<Rightarrow> config_error option" where
  "segments_loop seenNames previousRank hasMeasured [] =
     (if hasMeasured then None else Some (ErrConfigValidation ''profile requires at least one measured segment''))"
| "segments_loop seenNames previousRank hasMeasured (segment # segments) =
     (let name = TrimSpace (ps_Name segment) in
      if name = '''' \<or> int (length name) > MaxSegmentNameLength then Some (ErrConfigValidation ''segment name length'')
      else if name \<in> set seenNames then Some (ErrConfigValidation ''duplicate profile segment name'')
      else case stageRank (ps_Stage segment) of
          None \<Rightarrow> Some (ErrConfigValidation ''invalid or out-of-order stage'')
        | Some rank \<Rightarrow>
            if rank < previousRank then Some (ErrConfigValidation ''invalid or out-of-order stage'')
            else if ps_Duration segment \<le> 0 then Some (ErrConfigValidation ''segment duration must be positive'')
            else if \<not> constant_segment segment \<and> \<not> ramp_segment segment
            then Some (ErrConfigValidation ''segment must define either rate or start_rate/end_rate/steps>=2'')
            else segments_loop (name # seenNames) rank (hasMeasured \<or> ps_Stage segment = StageMeasured) segments)"

definition validateProfileSegments :: "ProfileSegmentConfig list \<Rightarrow> config_error option" where
  "validateProfileSegments segments =
     (if segments = [] \<or> int (length segments) > MaxSourceSegments then Some (ErrConfigValidation ''load.segments count'')
      else segments_loop [] 0 False segments)"

definition default_time_unit :: "LoadConfig \<Rightarrow> LoadConfig" where
  "default_time_unit load = (if ld_TimeUnit load \<le> 0 then load\<lparr>ld_TimeUnit := DefaultTimeUnit\<rparr> else load)"

definition check_open :: "(f64 \<Rightarrow> int) \<Rightarrow> int \<Rightarrow> LoadConfig \<Rightarrow> config_error option" where
  "check_open oob schemaVersion load =
     (if ld_MaxInFlight load \<le> 0 then Some (ErrConfigValidation ''open model requires load.max_in_flight > 0'')
      else if ld_Users load \<noteq> 0 then Some (ErrConfigValidation ''open model cannot specify load.users'')
      else if ld_ThinkTime load \<noteq> 0 then Some (ErrConfigValidation ''open model cannot specify load.think_time'')
      else case (if ld_Segments load \<noteq> [] then
               if schemaVersion \<noteq> ExpectedSchemaVersion then Some (ErrConfigValidation ''load.segments requires schema_version 2'')
               else if ld_Rate load \<noteq> F_Fin 0 \<or> ld_Duration load \<noteq> 0
               then Some (ErrConfigValidation ''profile mode cannot specify load.rate or load.duration'')
               else validateProfileSegments (ld_Segments load)
             else if ld_Rate load \<le> F_Fin 0 then Some (ErrConfigValidation ''open model requires load.rate > 0'')
             else if ld_Duration load \<le> 0 then Some (ErrConfigValidation ''load.duration must be > 0'')
             else None) of
          Some e \<Rightarrow> Some e
        | None \<Rightarrow> (case CompileLoadProfile oob (Some load) of Inl e \<Rightarrow> Some e | Inr _ \<Rightarrow> None))"

definition validate_open :: "(f64 \<Rightarrow> int) \<Rightarrow> int \<Rightarrow> LoadConfig \<Rightarrow> config_error + LoadConfig" where
  "validate_open oob schemaVersion load =
     (let load = default_time_unit load in case check_open oob schemaVersion load of Some e \<Rightarrow> Inl e | None \<Rightarrow> Inr load)"

definition validate_closed :: "LoadConfig \<Rightarrow> config_error + LoadConfig" where
  "validate_closed load =
     (if ld_Duration load \<le> 0 then Inl (ErrConfigValidation ''load.duration must be > 0'')
      else if ld_Users load \<le> 0 then Inl (ErrConfigValidation ''closed model requires load.users > 0'')
      else if ld_ThinkTime load < 0 then Inl (ErrConfigValidation ''closed model think_time cannot be negative'')
      else if ld_Rate load \<noteq> F_Fin 0 then Inl (ErrConfigValidation ''closed model cannot specify load.rate'')
      else if ld_TimeUnit load \<noteq> 0 then Inl (ErrConfigValidation ''closed model cannot specify load.time_unit'')
      else if ld_MaxInFlight load \<noteq> 0 then Inl (ErrConfigValidation ''closed model cannot specify load.max_in_flight'')
      else if ld_Segments load \<noteq> [] then Inl (ErrConfigValidation ''closed model cannot specify load.segments'')
      else Inr load)"

definition validateLoadConfig :: "(f64 \<Rightarrow> int) \<Rightarrow> LoadConfig \<Rightarrow> int \<Rightarrow> config_error + LoadConfig" where
  "validateLoadConfig oob load schemaVersion =
     (if \<not> WorkloadModel_IsValid (ld_Model load) then Inl (ErrConfigValidation ''invalid load.model'')
      else if ld_GracefulStop load < 0 then Inl (ErrConfigValidation ''load.graceful_stop cannot be negative'')
      else let load = (if ld_GracefulStop load = 0 then load\<lparr>ld_GracefulStop := DefaultGracefulStop\<rparr> else load) in
        if ld_Model load = WorkloadModel_String WorkloadModelOpen then validate_open oob schemaVersion load
        else validate_closed load)"

subsection \<open>Thresholds, authentication and the whole document\<close>

definition validateThresholds :: "(string \<times> string) list \<Rightarrow> config_error option" where
  "validateThresholds thresholds = first_error (\<lambda>(name, expr). case ParseThreshold name expr of
     Inl e \<Rightarrow> Some (ErrConfigThreshold e) | Inr _ \<Rightarrow> None) thresholds"

text \<open>\<^verbatim>\<open>strings.EqualFold\<close> with a text of ASCII characters other than k and s, which have no further case variants.\<close>

definition EqualFold :: "string \<Rightarrow> string \<Rightarrow> bool" where
  "EqualFold s t \<longleftrightarrow> map lower_char s = map lower_char t"

definition validateAuth :: "AuthConfig \<Rightarrow> config_error + AuthConfig" where
  "validateAuth auth =
     (let t = ToLower (TrimSpace (au_Type auth)); t = (if t = '''' then AuthTypeNone else t);
          auth = auth\<lparr>au_Type := t\<rparr>;
          noHeader = TrimSpace (au_HeaderName auth) = '''';
          defaulted = (if noHeader then auth\<lparr>au_HeaderName := ''Authorization''\<rparr> else auth)
      in if t = AuthTypeNone then Inr auth
         else if t = AuthTypeBearer then
           if TrimSpace (au_Token auth) = '''' then Inl (ErrConfigValidation ''bearer requires non-empty auth.token'')
           else if \<not> noHeader \<and> \<not> EqualFold (TrimSpace (au_HeaderName auth)) ''Authorization''
           then Inl (ErrConfigValidation ''bearer only supports the Authorization header'')
           else Inr (auth\<lparr>au_HeaderName := ''Authorization''\<rparr>)
         else if t = AuthTypeCustomHeader then
           if TrimSpace (au_Token auth) = '''' then Inl (ErrConfigValidation ''custom_header requires non-empty auth.token'')
           else if noHeader then Inl (ErrConfigValidation ''custom_header requires non-empty auth.header_name'')
           else Inr auth
         else if t = AuthTypeBasic then
           if TrimSpace (au_Username auth) = '''' then Inl (ErrConfigValidation ''basic requires non-empty auth.username'')
           else Inr defaulted
         else if t = AuthTypeTokenPool then
           if au_TokenPool auth = [] then Inl (ErrConfigValidation ''token_pool requires non-empty auth.token_pool'')
           else if list_ex (\<lambda>tok. TrimSpace tok = '''') (au_TokenPool auth)
           then Inl (ErrConfigValidation ''auth.token_pool cannot be empty'')
           else Inr defaulted
         else Inl (ErrConfigValidation ''unsupported auth.type''))"

definition validate_target ::
  "(f64 \<Rightarrow> int) \<Rightarrow> (string \<Rightarrow> parsed_url option) \<Rightarrow> (string \<Rightarrow> bool) \<Rightarrow> Config \<Rightarrow> config_error + Config" where
  "validate_target oob url_Parse regex_ok cfg =
     (let hasRequest = TrimSpace (rq_URL (cf_Request cfg)) \<noteq> '''' in
      case cf_Scenario cfg of
        None \<Rightarrow>
          if \<not> hasRequest then Inl (ErrConfigValidation ''must specify either request or scenario'')
          else result_bind (validateRequestConfig oob url_Parse (cf_Request cfg)) (\<lambda>req. Inr (cfg\<lparr>cf_Request := req\<rparr>))
      | Some scenario \<Rightarrow>
          if hasRequest then Inl (ErrConfigValidation ''cannot specify both request and scenario'')
          else result_bind (validateScenarioConfig oob regex_ok scenario) (\<lambda>scenario'.
               if ld_Model (cf_Load cfg) \<noteq> WorkloadModel_String WorkloadModelClosed
               then Inl (ErrConfigValidation ''scenarios require load.model: closed'')
               else Inr (cfg\<lparr>cf_Scenario := Some scenario'\<rparr>)))"

definition ValidateConfig ::
  "(f64 \<Rightarrow> int) \<Rightarrow> (string \<Rightarrow> parsed_url option) \<Rightarrow> (string \<Rightarrow> bool) \<Rightarrow> Config option \<Rightarrow> config_error + Config" where
  "ValidateConfig oob url_Parse regex_ok cfgo = (case cfgo of
       None \<Rightarrow> Inl (ErrConfigValidation ''config cannot be nil'')
     | Some cfg \<Rightarrow>
         if cf_SchemaVersion cfg \<noteq> LegacySchemaVersion \<and> cf_SchemaVersion cfg \<noteq> ExpectedSchemaVersion
         then Inl (ErrInvalidSchemaVersion (cf_SchemaVersion cfg))
         else if cf_SchemaVersion cfg = ExpectedSchemaVersion \<and> ld_Segments (cf_Load cfg) = []
         then Inl (ErrConfigValidation ''schema_version 2 requires load.segments'')
         else if TrimSpace (cf_Name cfg) = '''' then Inl (ErrConfigValidation ''name cannot be empty'')
         else result_bind (validate_target oob url_Parse regex_ok cfg) (\<lambda>cfg.
              result_bind (validateLoadConfig oob (cf_Load cfg) (cf_SchemaVersion cfg)) (\<lambda>load.
              case validateThresholds (cf_Thresholds cfg) of
                Some e \<Rightarrow> Inl e
              | None \<Rightarrow>
                  result_bind (validateAuth (cf_Auth cfg)) (\<lambda>auth.
                  case NormalizeAllowedHosts (sf_AllowedHosts (cf_Safety cfg)) True of
                    Inl e \<Rightarrow> Inl (ErrConfigHosts e)
                  | Inr hosts \<Rightarrow> Inr (cfg\<lparr>cf_Load := load, cf_Auth := auth,
                      cf_Safety := (cf_Safety cfg)\<lparr>sf_AllowedHosts := hosts\<rparr>\<rparr>)))))"

section \<open>Normalised values stay as they are\<close>

lemma methods_fixed: "m \<in> set supported_methods \<Longrightarrow> ToUpper (TrimSpace m) = m \<and> m \<noteq> ''''"
proof -
  have "list_all (\<lambda>m. ToUpper (TrimSpace m) = m \<and> m \<noteq> '''') supported_methods" by code_simp
  then show "m \<in> set supported_methods \<Longrightarrow> ?thesis" by (simp only: list_all_iff) blast
qed

lemma policies_fixed:
  "onFailure \<in> {OnFailureStop, OnFailureAbortVU, OnFailureContinue} \<Longrightarrow> ToLower (TrimSpace onFailure) = onFailure \<and> onFailure \<noteq> ''''"
proof -
  have "list_all (\<lambda>s. ToLower (TrimSpace s) = s \<and> s \<noteq> '''') [OnFailureStop, OnFailureAbortVU, OnFailureContinue]" by code_simp
  then show "onFailure \<in> {OnFailureStop, OnFailureAbortVU, OnFailureContinue} \<Longrightarrow> ?thesis"
    by (simp only: list_all_iff list.set) blast
qed

definition auth_types :: "string list" where
  "auth_types = [AuthTypeNone, AuthTypeBearer, AuthTypeCustomHeader, AuthTypeBasic, AuthTypeTokenPool]"

lemma auth_types_fixed: "t \<in> set auth_types \<Longrightarrow> ToLower (TrimSpace t) = t \<and> t \<noteq> ''''"
proof -
  have "list_all (\<lambda>t. ToLower (TrimSpace t) = t \<and> t \<noteq> '''') auth_types" by code_simp
  then show "t \<in> set auth_types \<Longrightarrow> ?thesis" by (simp only: list_all_iff) blast
qed

lemma authorization_fixed: "TrimSpace ''Authorization'' = ''Authorization''"
  by code_simp

lemma normalize_idem:
  "normalize_timeout t = Inr t' \<Longrightarrow> normalize_timeout t' = Inr t'"
  "normalize_statuses ss = Inr ss' \<Longrightarrow> normalize_statuses ss' = Inr ss'"
  "normalize_body_limit oob l = Inr l' \<Longrightarrow> normalize_body_limit oob l' = Inr l'"
  "normalize_redirects r = Inr r' \<Longrightarrow> normalize_redirects r' = Inr r'"
  "normalize_on_failure f = Inr f' \<Longrightarrow> normalize_on_failure f' = Inr f'"
proof -
  show "normalize_timeout t = Inr t' \<Longrightarrow> normalize_timeout t' = Inr t'"
    by (auto simp: normalize_timeout_def default_defs split: if_splits)
  show "normalize_statuses ss = Inr ss' \<Longrightarrow> normalize_statuses ss' = Inr ss'"
    by (auto simp: normalize_statuses_def split: if_splits)
  have "DefaultResponseBodyLimitStr \<noteq> ''''" by (simp add: DefaultResponseBodyLimitStr_def)
  then show "normalize_body_limit oob l = Inr l' \<Longrightarrow> normalize_body_limit oob l' = Inr l'"
    by (cases "l = ''''") (auto simp: normalize_body_limit_def Let_def split: if_splits option.splits)
  show "normalize_redirects r = Inr r' \<Longrightarrow> normalize_redirects r' = Inr r'"
    by (auto simp: normalize_redirects_def redirect_defs Let_def split: if_splits)
  assume "normalize_on_failure f = Inr f'"
  then have f: "f' \<in> {OnFailureStop, OnFailureAbortVU, OnFailureContinue}"
    by (simp only: normalize_on_failure_def Let_def split: if_splits) auto
  show "normalize_on_failure f' = Inr f'"
    using policies_fixed [OF f] f by (simp only: normalize_on_failure_def Let_def if_False) simp
qed

lemma validateRequestConfig_idem:
  assumes "validateRequestConfig oob up req = Inr r"
  shows "validateRequestConfig oob up r = Inr r"
proof -
  let ?m = "ToUpper (TrimSpace (rq_Method req))"
  obtain t ss l rd where v: "normalize_timeout (rq_Timeout req) = Inr t" "normalize_statuses (rq_ExpectedStatuses req) = Inr ss"
      "normalize_body_limit oob (rq_ResponseBodyLimit req) = Inr l" "normalize_redirects (rq_Redirects req) = Inr rd"
    and r: "r = req\<lparr>rq_Method := ?m, rq_Timeout := t, rq_ExpectedStatuses := ss, rq_ResponseBodyLimit := l, rq_Redirects := rd\<rparr>"
    and m: "?m \<in> set supported_methods"
    using assms by (auto simp: validateRequestConfig_def Let_def result_bind_Inr split: if_splits)
  show ?thesis
    using assms methods_fixed [OF m] normalize_idem(1) [OF v(1)] normalize_idem(2) [OF v(2)] normalize_idem(3) [OF v(3)]
      normalize_idem(4) [OF v(4)] m
    unfolding r by (simp add: validateRequestConfig_def Let_def split: if_splits)
qed

lemma validateStepConfig_idem:
  assumes "validateStepConfig oob rx step = Inr s"
  shows "validateStepConfig oob rx s = Inr s" "st_Name s = st_Name step"
proof -
  define m where "m = (if ToUpper (TrimSpace (st_Method step)) = '''' then ''GET'' else ToUpper (TrimSpace (st_Method step)))"
  obtain t ss l rd f where v: "normalize_timeout (st_Timeout step) = Inr t" "normalize_statuses (st_ExpectedStatuses step) = Inr ss"
      "normalize_body_limit oob (st_ResponseBodyLimit step) = Inr l" "normalize_redirects (st_Redirects step) = Inr rd"
      "normalize_on_failure (st_OnFailure step) = Inr f"
    and s: "s = step\<lparr>st_Method := m, st_Timeout := t, st_ExpectedStatuses := ss, st_ResponseBodyLimit := l, st_Redirects := rd,
        st_OnFailure := f\<rparr>"
    and c: "m \<in> set supported_methods" "\<not> st_ThinkTime step < 0" "first_error (check_extract rx) (st_Extract step) = None"
      "TrimSpace (st_URL step) \<noteq> ''''"
      "HasPrefix (TrimSpace (st_URL step)) ''http://'' \<or> HasPrefix (TrimSpace (st_URL step)) ''https://''"
    using assms unfolding validateStepConfig_def Let_def m_def [symmetric]
    by (auto simp: result_bind_Inr split: if_splits option.splits)
  show "st_Name s = st_Name step" by (simp add: s)
  show "validateStepConfig oob rx s = Inr s"
    using methods_fixed [OF c(1)] c normalize_idem(1) [OF v(1)] normalize_idem(2) [OF v(2)] normalize_idem(3) [OF v(3)]
      normalize_idem(4) [OF v(4)] normalize_idem(5) [OF v(5)]
    by (simp add: s validateStepConfig_def Let_def)
qed

lemma validate_steps_idem:
  "validate_steps oob rx seen steps = Inr ss \<Longrightarrow> validate_steps oob rx seen ss = Inr ss \<and> (steps \<noteq> [] \<longrightarrow> ss \<noteq> []) \<and> length ss = length steps"
proof (induction oob rx seen steps arbitrary: ss rule: validate_steps.induct)
  case (2 oob rx seen step steps)
  let ?n = "TrimSpace (st_Name step)"
  obtain s' rest where n: "?n \<noteq> ''''" "?n \<notin> set seen" and s: "validateStepConfig oob rx (step\<lparr>st_Name := ?n\<rparr>) = Inr s'"
    and rest: "validate_steps oob rx (?n # seen) steps = Inr rest" and ss: "ss = s' # rest"
    using "2.prems" by (auto simp: Let_def result_bind_Inr split: if_splits sum.splits)
  have name: "st_Name s' = ?n" using validateStepConfig_idem(2) [OF s] by simp
  then have upd: "s'\<lparr>st_Name := ?n\<rparr> = s'" by (metis StepConfig.surjective StepConfig.update_convs(1) StepConfig.select_convs(1))
  have "validate_steps oob rx (?n # seen) rest = Inr rest \<and> length rest = length steps" using "2.IH" [OF refl] n s rest by simp
  moreover have "validateStepConfig oob rx (s'\<lparr>st_Name := ?n\<rparr>) = Inr s'" unfolding upd by (rule validateStepConfig_idem(1) [OF s])
  ultimately show ?case using n name by (simp add: ss Let_def)
qed simp

lemma validateScenarioConfig_idem:
  assumes "validateScenarioConfig oob rx sc = Inr s"
  shows "validateScenarioConfig oob rx s = Inr s"
proof -
  obtain ss where ss: "validate_steps oob rx [] (sc_Steps sc) = Inr ss" and s: "s = sc\<lparr>sc_Steps := ss\<rparr>"
    using assms by (auto simp: validateScenarioConfig_def result_bind_Inr split: if_splits)
  show ?thesis using assms validate_steps_idem [OF ss]
    by (auto simp: validateScenarioConfig_def s split: if_splits)
qed

lemma validate_open_idem:
  assumes "validate_open oob v load = Inr l"
  shows "validate_open oob v l = Inr l"
proof -
  have "check_open oob v (default_time_unit load) = None" "l = default_time_unit load"
    using assms by (auto simp: validate_open_def Let_def split: option.splits)
  moreover have "default_time_unit (default_time_unit load) = default_time_unit load"
    by (simp add: default_time_unit_def default_defs)
  ultimately show ?thesis by (simp add: validate_open_def)
qed

lemma validate_load_keeps:
  "validate_open oob v load = Inr l \<Longrightarrow> ld_Model l = ld_Model load \<and> ld_GracefulStop l = ld_GracefulStop load \<and> ld_Segments l = ld_Segments load"
  "validate_closed load = Inr l \<Longrightarrow> l = load"
  by (auto simp: validate_open_def validate_closed_def default_time_unit_def Let_def split: if_splits option.splits)

lemma validateLoadConfig_idem:
  assumes "validateLoadConfig oob load v = Inr l"
  shows "validateLoadConfig oob l v = Inr l"
proof -
  define load' where "load' = (if ld_GracefulStop load = 0 then load\<lparr>ld_GracefulStop := DefaultGracefulStop\<rparr> else load)"
  have g: "0 < ld_GracefulStop load'" "WorkloadModel_IsValid (ld_Model load')"
    using assms by (auto simp: validateLoadConfig_def load'_def default_defs split: if_splits)
  have l: "(if ld_Model load' = WorkloadModel_String WorkloadModelOpen then validate_open oob v load' else validate_closed load') = Inr l"
    using assms unfolding validateLoadConfig_def Let_def load'_def [symmetric] by (simp split: if_splits)
  then show ?thesis
    using g validate_load_keeps validate_open_idem
    by (cases "ld_Model load' = WorkloadModel_String WorkloadModelOpen")
      (auto simp: validateLoadConfig_def Let_def dest: validate_load_keeps)
qed

lemma validateAuth_type: "validateAuth auth = Inr a \<Longrightarrow> au_Type a \<in> set auth_types"
  by (auto simp: validateAuth_def Let_def auth_types_def split: if_splits)

lemma auth_distinct:
  "AuthTypeBearer \<noteq> AuthTypeNone" "AuthTypeCustomHeader \<noteq> AuthTypeNone" "AuthTypeBasic \<noteq> AuthTypeNone" "AuthTypeTokenPool \<noteq> AuthTypeNone"
  "AuthTypeCustomHeader \<noteq> AuthTypeBearer" "AuthTypeBasic \<noteq> AuthTypeBearer" "AuthTypeTokenPool \<noteq> AuthTypeBearer"
  "AuthTypeBasic \<noteq> AuthTypeCustomHeader" "AuthTypeTokenPool \<noteq> AuthTypeCustomHeader" "AuthTypeTokenPool \<noteq> AuthTypeBasic"
  by (simp_all add: auth_defs)

text \<open>The header an authentication type requires, once validated.\<close>

definition auth_ready :: "string \<Rightarrow> AuthConfig \<Rightarrow> bool" where
  "auth_ready t a =
     (if t = AuthTypeNone then True
      else if t = AuthTypeBearer then TrimSpace (au_Token a) \<noteq> '''' \<and> au_HeaderName a = ''Authorization''
      else if t = AuthTypeCustomHeader then TrimSpace (au_Token a) \<noteq> '''' \<and> TrimSpace (au_HeaderName a) \<noteq> ''''
      else if t = AuthTypeBasic then TrimSpace (au_Username a) \<noteq> '''' \<and> TrimSpace (au_HeaderName a) \<noteq> ''''
      else t = AuthTypeTokenPool \<and> au_TokenPool a \<noteq> [] \<and> \<not> list_ex (\<lambda>tok. TrimSpace tok = '''') (au_TokenPool a)
         \<and> TrimSpace (au_HeaderName a) \<noteq> '''')"

lemma validateAuth_ready:
  assumes "validateAuth auth = Inr a"
  shows "auth_ready (au_Type a) a"
proof -
  define t where "t = (if ToLower (TrimSpace (au_Type auth)) = '''' then AuthTypeNone else ToLower (TrimSpace (au_Type auth)))"
  have A: "TrimSpace ''Authorization'' \<noteq> ''''" by (simp add: authorization_fixed)
  have v: "validateAuth auth = Inr a" by (rule assms)
  note v = v [unfolded validateAuth_def Let_def t_def [symmetric]]
  consider "t = AuthTypeNone" | "t = AuthTypeBearer" | "t = AuthTypeCustomHeader" | "t = AuthTypeBasic" | "t = AuthTypeTokenPool"
    | "t \<notin> set auth_types" by (auto simp: auth_types_def)
  then show ?thesis
  proof cases
    case 6
    then show ?thesis using v by (simp add: auth_types_def)
  qed (use v A in \<open>auto simp: auth_ready_def auth_distinct auth_distinct [symmetric] split: if_splits\<close>)
qed

lemma validateAuth_idem:
  assumes "validateAuth auth = Inr a"
  shows "validateAuth a = Inr a"
proof -
  have t: "ToLower (TrimSpace (au_Type a)) = au_Type a" "au_Type a \<noteq> ''''"
    using auth_types_fixed validateAuth_type [OF assms] by blast+
  have "auth_ready (au_Type a) a" by (rule validateAuth_ready [OF assms])
  moreover have "EqualFold ''Authorization'' ''Authorization''" by (simp add: EqualFold_def)
  ultimately show ?thesis unfolding validateAuth_def Let_def t(1)
    by (simp add: t(2) authorization_fixed auth_ready_def split: if_splits)
qed

lemma validateRequestConfig_nonempty: "validateRequestConfig oob U req = Inr r \<Longrightarrow> TrimSpace (rq_URL r) \<noteq> []"
  using validateRequestConfig_idem [of oob U req r] by (auto simp: validateRequestConfig_def)

lemma validate_target_idem:
  assumes "validate_target oob U rx cfg = Inr c"
  shows "validate_target oob U rx c = Inr c" "c = cfg\<lparr>cf_Request := cf_Request c, cf_Scenario := cf_Scenario c\<rparr>"
  using assms validateRequestConfig_nonempty
  by (auto simp: validate_target_def Let_def result_bind_Inr dest: validateRequestConfig_idem validateScenarioConfig_idem
      split: option.splits if_splits)

end
