(* ===== verification/Config_Valid.thy ===== *)
theory Config_Valid
  imports Config_Model
begin

text \<open>
  What a configuration that \<open>ValidateConfig\<close> accepts promises to the components that run it, and that validating
  it again changes nothing; and what the check for duplicate YAML keys decides.
\<close>

section \<open>The promise of a validated configuration\<close>

definition limits_ok :: "(f64 \<Rightarrow> int) \<Rightarrow> int list \<Rightarrow> Duration \<Rightarrow> string \<Rightarrow> string \<Rightarrow> bool" where
  "limits_ok oob statuses timeout limit redirects \<longleftrightarrow>
     statuses \<noteq> [] \<and> list_all (\<lambda>s. 100 \<le> s \<and> s \<le> 599) statuses \<and> 0 < timeout
     \<and> (case ParseByteSize oob limit of Some n \<Rightarrow> 0 < n \<and> n \<le> MaxResponseBodyLimitBytes | None \<Rightarrow> False)
     \<and> redirects \<in> {RedirectPolicySameOrigin, RedirectPolicyNone, RedirectPolicyAll}"

definition request_ok :: "(f64 \<Rightarrow> int) \<Rightarrow> (string \<Rightarrow> parsed_url option) \<Rightarrow> RequestConfig \<Rightarrow> bool" where
  "request_ok oob url_Parse r \<longleftrightarrow> rq_Method r \<in> set supported_methods
     \<and> (case url_Parse (TrimSpace (rq_URL r)) of Some u \<Rightarrow> pu_Scheme u \<in> {''http'', ''https''} \<and> pu_Host u \<noteq> '''' | None \<Rightarrow> False)
     \<and> limits_ok oob (rq_ExpectedStatuses r) (rq_Timeout r) (rq_ResponseBodyLimit r) (rq_Redirects r)"

definition step_ok :: "(f64 \<Rightarrow> int) \<Rightarrow> StepConfig \<Rightarrow> bool" where
  "step_ok oob s \<longleftrightarrow> st_Method s \<in> set supported_methods \<and> st_Name s \<noteq> '''' \<and> TrimSpace (st_Name s) = st_Name s
     \<and> (HasPrefix (TrimSpace (st_URL s)) ''http://'' \<or> HasPrefix (TrimSpace (st_URL s)) ''https://'')
     \<and> limits_ok oob (st_ExpectedStatuses s) (st_Timeout s) (st_ResponseBodyLimit s) (st_Redirects s)
     \<and> 0 \<le> st_ThinkTime s \<and> st_OnFailure s \<in> {OnFailureStop, OnFailureAbortVU, OnFailureContinue}"

definition scenario_ok :: "(f64 \<Rightarrow> int) \<Rightarrow> ScenarioConfig \<Rightarrow> bool" where
  "scenario_ok oob sc \<longleftrightarrow> sc_Steps sc \<noteq> [] \<and> int (length (sc_Steps sc)) \<le> MaxScenarioSteps
     \<and> list_all (step_ok oob) (sc_Steps sc) \<and> distinct (map st_Name (sc_Steps sc))"

text \<open>An open load has a compilable profile and room for requests, a closed load has users and a duration, and neither
  carries a field of the other.\<close>

definition load_ok :: "(f64 \<Rightarrow> int) \<Rightarrow> int \<Rightarrow> LoadConfig \<Rightarrow> bool" where
  "load_ok oob version l \<longleftrightarrow> 0 < ld_GracefulStop l \<and>
     (if ld_Model l = WorkloadModel_String WorkloadModelOpen then
        0 < ld_MaxInFlight l \<and> 0 < ld_TimeUnit l \<and> ld_Users l = 0 \<and> ld_ThinkTime l = 0
        \<and> (\<exists>c. CompileLoadProfile oob (Some l) = Inr c) \<and> (version = ExpectedSchemaVersion \<longleftrightarrow> ld_Segments l \<noteq> [])
      else ld_Model l = WorkloadModel_String WorkloadModelClosed \<and> 0 < ld_Users l \<and> 0 < ld_Duration l \<and> 0 \<le> ld_ThinkTime l
        \<and> ld_Rate l = F_Fin 0 \<and> ld_TimeUnit l = 0 \<and> ld_MaxInFlight l = 0 \<and> ld_Segments l = [] \<and> version = LegacySchemaVersion)"

definition config_ok :: "(f64 \<Rightarrow> int) \<Rightarrow> (string \<Rightarrow> parsed_url option) \<Rightarrow> Config \<Rightarrow> bool" where
  "config_ok oob url_Parse c \<longleftrightarrow> load_ok oob (cf_SchemaVersion c) (cf_Load c)
     \<and> (case cf_Scenario c of
          None \<Rightarrow> request_ok oob url_Parse (cf_Request c)
        | Some sc \<Rightarrow> scenario_ok oob sc \<and> TrimSpace (rq_URL (cf_Request c)) = '''' \<and> cf_SchemaVersion c = LegacySchemaVersion
            \<and> ld_Model (cf_Load c) = WorkloadModel_String WorkloadModelClosed)
     \<and> list_all (\<lambda>(name, expr). \<exists>t. ParseThreshold name expr = Inr t) (cf_Thresholds c)
     \<and> auth_ready (au_Type (cf_Auth c)) (cf_Auth c)
     \<and> distinct (sf_AllowedHosts (cf_Safety c))
     \<and> list_all (\<lambda>h. NormalizeAllowedHost h True = Inr h) (sf_AllowedHosts (cf_Safety c))"

lemma limits_okI:
  assumes "normalize_timeout t = Inr t'" "normalize_statuses ss = Inr ss'" "normalize_body_limit oob l = Inr l'"
    and "normalize_redirects r = Inr r'"
  shows "limits_ok oob ss' t' l' r'"
  using assms
  by (auto simp: limits_ok_def normalize_timeout_def normalize_statuses_def normalize_body_limit_def normalize_redirects_def
      Let_def default_defs redirect_defs split: if_splits option.splits)

lemma validateRequestConfig_ok:
  "validateRequestConfig oob U req = Inr r \<Longrightarrow> request_ok oob U r"
  by (auto simp: validateRequestConfig_def request_ok_def Let_def result_bind_Inr intro: limits_okI
      split: if_splits option.splits)

lemma validateStepConfig_ok:
  "validateStepConfig oob rx step = Inr s \<Longrightarrow> st_Name step \<noteq> '''' \<Longrightarrow> TrimSpace (st_Name step) = st_Name step \<Longrightarrow> step_ok oob s"
  unfolding validateStepConfig_def step_ok_def Let_def
  by (auto simp: result_bind_Inr normalize_on_failure_def Let_def intro: limits_okI split: if_splits option.splits)

lemma validate_steps_ok:
  "validate_steps oob rx seen steps = Inr ss \<Longrightarrow>
   list_all (step_ok oob) ss \<and> distinct (map st_Name ss) \<and> set (map st_Name ss) \<inter> set seen = {}"
proof (induction oob rx seen steps arbitrary: ss rule: validate_steps.induct)
  case (2 oob rx seen step steps)
  let ?n = "TrimSpace (st_Name step)"
  obtain s' rest where n: "?n \<noteq> ''''" "?n \<notin> set seen" and s: "validateStepConfig oob rx (step\<lparr>st_Name := ?n\<rparr>) = Inr s'"
    and rest: "validate_steps oob rx (?n # seen) steps = Inr rest" and ss: "ss = s' # rest"
    using "2.prems" by (auto simp: Let_def result_bind_Inr split: if_splits sum.splits)
  have "st_Name s' = ?n" using validateStepConfig_idem(2) [OF s] by simp
  moreover have "step_ok oob s'" using validateStepConfig_ok [OF s] n(1) by simp
  ultimately show ?case using "2.IH" [OF refl] n s rest by (auto simp: ss)
qed simp
lemma validateScenarioConfig_ok: "validateScenarioConfig oob rx sc = Inr s \<Longrightarrow> scenario_ok oob s"
  using validate_steps_ok [of oob rx "[]" "sc_Steps sc"] validate_steps_idem [of oob rx "[]" "sc_Steps sc"]
  by (auto simp: validateScenarioConfig_def scenario_ok_def result_bind_Inr split: if_splits)

lemma check_open_None:
  assumes "check_open oob v l = None"
  shows "0 < ld_MaxInFlight l" "ld_Users l = 0" "ld_ThinkTime l = 0" "\<exists>c. CompileLoadProfile oob (Some l) = Inr c"
    "ld_Segments l \<noteq> [] \<longrightarrow> v = ExpectedSchemaVersion \<and> validateProfileSegments (ld_Segments l) = None"
  using assms by (auto simp: check_open_def split: if_splits option.splits sum.splits)

lemma validateLoadConfig_ok:
  assumes "validateLoadConfig oob load v = Inr l" "v = ExpectedSchemaVersion \<longrightarrow> ld_Segments load \<noteq> []"
    and "v \<in> {LegacySchemaVersion, ExpectedSchemaVersion}"
  shows "load_ok oob v l"
proof -
  define load' where "load' = (if ld_GracefulStop load = 0 then load\<lparr>ld_GracefulStop := DefaultGracefulStop\<rparr> else load)"
  have g: "0 < ld_GracefulStop load'" "WorkloadModel_IsValid (ld_Model load')" "ld_Segments load' = ld_Segments load"
    using assms(1) by (auto simp: validateLoadConfig_def load'_def default_defs split: if_splits)
  have l: "(if ld_Model load' = WorkloadModel_String WorkloadModelOpen then validate_open oob v load' else validate_closed load') = Inr l"
    using assms(1) unfolding validateLoadConfig_def Let_def load'_def [symmetric] by (simp split: if_splits)
  show ?thesis
  proof (cases "ld_Model load' = WorkloadModel_String WorkloadModelOpen")
    case True
    then have c: "check_open oob v l = None" and "l = default_time_unit load'"
      using l by (auto simp: validate_open_def Let_def split: option.splits)
    then have "ld_Model l = ld_Model load'" "ld_GracefulStop l = ld_GracefulStop load'" "ld_Segments l = ld_Segments load" "0 < ld_TimeUnit l"
      using g(3) by (auto simp: default_time_unit_def default_defs)
    then show ?thesis using check_open_None [OF c] True g assms(2) by (auto simp: load_ok_def)
  next
    case False
    then have "validate_closed load' = Inr l" using l by simp
    then show ?thesis using False g assms(2,3)
      by (auto simp: load_ok_def validate_closed_def WorkloadModel_IsValid_def schema_defs split: if_splits)
  qed
qed

lemma first_error_None: "first_error f xs = None \<longleftrightarrow> (\<forall>x\<in>set xs. f x = None)"
  by (induction xs) (auto split: option.splits)

lemma validateThresholds_ok:
  "validateThresholds ts = None \<longleftrightarrow> list_all (\<lambda>(name, expr). \<exists>t. ParseThreshold name expr = Inr t) ts"
  by (auto simp: validateThresholds_def first_error_None list_all_iff split: sum.splits)

text \<open>The pieces of a successful validation.\<close>

lemma ValidateConfig_cases:
  assumes "ValidateConfig oob U rx (Some cfg) = Inr c"
  obtains c' load auth hosts where "cf_SchemaVersion cfg \<in> {LegacySchemaVersion, ExpectedSchemaVersion}"
    "cf_SchemaVersion cfg = ExpectedSchemaVersion \<longrightarrow> ld_Segments (cf_Load cfg) \<noteq> []" "TrimSpace (cf_Name cfg) \<noteq> ''''"
    "validate_target oob U rx cfg = Inr c'" "validateLoadConfig oob (cf_Load cfg) (cf_SchemaVersion cfg) = Inr load"
    "validateThresholds (cf_Thresholds cfg) = None" "validateAuth (cf_Auth cfg) = Inr auth"
    "NormalizeAllowedHosts (sf_AllowedHosts (cf_Safety cfg)) True = Inr hosts"
    "c = c'\<lparr>cf_Load := load, cf_Auth := auth, cf_Safety := (cf_Safety cfg)\<lparr>sf_AllowedHosts := hosts\<rparr>\<rparr>"
    "c' = cfg\<lparr>cf_Request := cf_Request c', cf_Scenario := cf_Scenario c'\<rparr>"
proof -
  obtain c' where t: "validate_target oob U rx cfg = Inr c'"
    using assms by (auto simp: ValidateConfig_def result_bind_Inr split: if_splits)
  have eq: "c' = cfg\<lparr>cf_Request := cf_Request c', cf_Scenario := cf_Scenario c'\<rparr>" by (rule validate_target_idem(2) [OF t])
  then have same: "cf_Load c' = cf_Load cfg" "cf_SchemaVersion c' = cf_SchemaVersion cfg" "cf_Thresholds c' = cf_Thresholds cfg"
    "cf_Auth c' = cf_Auth cfg" "cf_Safety c' = cf_Safety cfg"
    by (metis Config.select_convs Config.surjective Config.update_convs)+
  have pre: "cf_SchemaVersion cfg \<in> {LegacySchemaVersion, ExpectedSchemaVersion}"
    "cf_SchemaVersion cfg = ExpectedSchemaVersion \<longrightarrow> ld_Segments (cf_Load cfg) \<noteq> []" "TrimSpace (cf_Name cfg) \<noteq> ''''"
    using assms by (auto simp: ValidateConfig_def split: if_splits)
  have "result_bind (validateLoadConfig oob (cf_Load c') (cf_SchemaVersion c')) (\<lambda>load.
      case validateThresholds (cf_Thresholds c') of Some e \<Rightarrow> Inl e
      | None \<Rightarrow> result_bind (validateAuth (cf_Auth c')) (\<lambda>auth.
          case NormalizeAllowedHosts (sf_AllowedHosts (cf_Safety c')) True of Inl e \<Rightarrow> Inl (ErrConfigHosts e)
          | Inr hosts \<Rightarrow> Inr (c'\<lparr>cf_Load := load, cf_Auth := auth, cf_Safety := (cf_Safety c')\<lparr>sf_AllowedHosts := hosts\<rparr>\<rparr>))) = Inr c"
    using assms t pre by (simp add: ValidateConfig_def split: if_splits)
  then obtain load auth hosts where "validateLoadConfig oob (cf_Load cfg) (cf_SchemaVersion cfg) = Inr load"
    "validateThresholds (cf_Thresholds cfg) = None" "validateAuth (cf_Auth cfg) = Inr auth"
    "NormalizeAllowedHosts (sf_AllowedHosts (cf_Safety cfg)) True = Inr hosts"
    "c = c'\<lparr>cf_Load := load, cf_Auth := auth, cf_Safety := (cf_Safety cfg)\<lparr>sf_AllowedHosts := hosts\<rparr>\<rparr>"
    unfolding same by (cases "NormalizeAllowedHosts (sf_AllowedHosts (cf_Safety cfg)) True") (auto simp: result_bind_Inr split: option.split_asm)
  then show ?thesis using that pre t eq by blast
qed

lemma validate_target_ok:
  assumes "validate_target oob U rx cfg = Inr c"
  shows "case cf_Scenario c of None \<Rightarrow> request_ok oob U (cf_Request c)
    | Some sc \<Rightarrow> scenario_ok oob sc \<and> TrimSpace (rq_URL (cf_Request c)) = ''''
        \<and> ld_Model (cf_Load c) = WorkloadModel_String WorkloadModelClosed"
  using assms by (auto simp: validate_target_def Let_def result_bind_Inr validateRequestConfig_ok validateScenarioConfig_ok
      split: option.splits if_splits)

lemma validateLoadConfig_keeps:
  assumes "validateLoadConfig oob load v = Inr l"
  shows "ld_Model l = ld_Model load" "ld_Segments l = ld_Segments load"
  using assms validate_load_keeps by (auto simp: validateLoadConfig_def Let_def split: if_splits) fastforce+

lemma config_fixed:
  "c\<lparr>cf_Request := r\<rparr> = c \<longleftrightarrow> cf_Request c = r" "c\<lparr>cf_Scenario := s\<rparr> = c \<longleftrightarrow> cf_Scenario c = s"
  by (cases c, auto)+

section \<open>The properties\<close>

lemma ValidateConfig_promise:
  assumes "ValidateConfig oob url_Parse regex_ok (Some cfg) = Inr c"
  shows "config_ok oob url_Parse c"
proof -
  obtain c' load auth hosts where v: "cf_SchemaVersion cfg \<in> {LegacySchemaVersion, ExpectedSchemaVersion}"
      "cf_SchemaVersion cfg = ExpectedSchemaVersion \<longrightarrow> ld_Segments (cf_Load cfg) \<noteq> []"
    and t: "validate_target oob url_Parse regex_ok cfg = Inr c'" and l: "validateLoadConfig oob (cf_Load cfg) (cf_SchemaVersion cfg) = Inr load"
    and th: "validateThresholds (cf_Thresholds cfg) = None" and au: "validateAuth (cf_Auth cfg) = Inr auth"
    and h: "NormalizeAllowedHosts (sf_AllowedHosts (cf_Safety cfg)) True = Inr hosts"
    and c: "c = c'\<lparr>cf_Load := load, cf_Auth := auth, cf_Safety := (cf_Safety cfg)\<lparr>sf_AllowedHosts := hosts\<rparr>\<rparr>"
    and c': "c' = cfg\<lparr>cf_Request := cf_Request c', cf_Scenario := cf_Scenario c'\<rparr>"
    by (rule ValidateConfig_cases [OF assms])
  have same: "cf_SchemaVersion c' = cf_SchemaVersion cfg" "cf_Thresholds c' = cf_Thresholds cfg" "cf_Load c' = cf_Load cfg"
    using c' by (metis Config.select_convs Config.surjective Config.update_convs)+
  have lo: "load_ok oob (cf_SchemaVersion cfg) load" by (rule validateLoadConfig_ok [OF l v(2,1)])
  have "ld_Model load = ld_Model (cf_Load cfg)" by (rule validateLoadConfig_keeps(1) [OF l])
  moreover have "cf_SchemaVersion cfg = LegacySchemaVersion" if "ld_Model load = WorkloadModel_String WorkloadModelClosed"
    using lo that by (simp add: load_ok_def WorkloadModel_String_def)
  moreover have "distinct hosts" "\<forall>h\<in>set hosts. NormalizeAllowedHost h True = Inr h"
    using h normalize_loop_result [of True 0 "[]" "sf_AllowedHosts (cf_Safety cfg)" hosts] Normalize_fixpoint
    by (auto simp: NormalizeAllowedHosts_def)
  ultimately show ?thesis
    using lo validate_target_ok [OF t] th validateAuth_ready [OF au]
    by (auto simp: config_ok_def c same validateThresholds_ok list_all_iff split: option.splits)
qed


text \<open>Validating is idempotent: a configuration that came out of validation is accepted again unchanged, so the defaults
  it filled in, the canonical methods, names, policies and hosts, are stable under saving and re-loading.\<close>

lemma ValidateConfig_idempotent:
  assumes "ValidateConfig oob url_Parse regex_ok (Some cfg) = Inr c"
  shows "ValidateConfig oob url_Parse regex_ok (Some c) = Inr c"
proof -
  obtain c' load auth hosts where v: "cf_SchemaVersion cfg \<in> {LegacySchemaVersion, ExpectedSchemaVersion}"
      "cf_SchemaVersion cfg = ExpectedSchemaVersion \<longrightarrow> ld_Segments (cf_Load cfg) \<noteq> []" "TrimSpace (cf_Name cfg) \<noteq> ''''"
    and t: "validate_target oob url_Parse regex_ok cfg = Inr c'" and l: "validateLoadConfig oob (cf_Load cfg) (cf_SchemaVersion cfg) = Inr load"
    and th: "validateThresholds (cf_Thresholds cfg) = None" and au: "validateAuth (cf_Auth cfg) = Inr auth"
    and h: "NormalizeAllowedHosts (sf_AllowedHosts (cf_Safety cfg)) True = Inr hosts"
    and c: "c = c'\<lparr>cf_Load := load, cf_Auth := auth, cf_Safety := (cf_Safety cfg)\<lparr>sf_AllowedHosts := hosts\<rparr>\<rparr>"
    and c': "c' = cfg\<lparr>cf_Request := cf_Request c', cf_Scenario := cf_Scenario c'\<rparr>"
    by (rule ValidateConfig_cases [OF assms])
  have same: "cf_SchemaVersion c' = cf_SchemaVersion cfg" "cf_Thresholds c' = cf_Thresholds cfg" "cf_Load c' = cf_Load cfg"
    "cf_Name c' = cf_Name cfg"
    using c' by (metis Config.select_convs Config.surjective Config.update_convs)+
  have "validate_target oob url_Parse regex_ok c' = Inr c'" by (rule validate_target_idem(1) [OF t])
  then have "validate_target oob url_Parse regex_ok c = Inr c"
    using validateLoadConfig_keeps(1) [OF l] same(3)
    by (auto simp: validate_target_def c Let_def result_bind_Inr config_fixed split: option.splits if_splits)
  then show ?thesis
    using v same validateLoadConfig_keeps(2) [OF l] validateLoadConfig_idem [OF l] th validateAuth_idem [OF au] NormalizeAllowedHosts_fixed [OF h]
    by (auto simp: ValidateConfig_def c)
qed

subsection \<open>A sample configuration\<close>

definition sample_url :: "string \<Rightarrow> parsed_url option" where
  "sample_url s = (if s = ''http://localhost:8080/''
     then Some \<lparr>pu_Scheme = ''http'', pu_Host = ''localhost:8080''\<rparr> else None)"

definition sample_config :: Config where
  "sample_config = \<lparr>cf_SchemaVersion = 1, cf_Name = ''smoke'',
     cf_Request = \<lparr>rq_URL = '' http://localhost:8080/'', rq_Method = ''get'', rq_Headers = [], rq_ExpectedStatuses = [], rq_Timeout = 0,
       rq_ResponseBodyLimit = '''', rq_Redirects = ''''\<rparr>,
     cf_Scenario = None,
     cf_Load = \<lparr>ld_Model = ''closed'', ld_Rate = F_Fin 0, ld_TimeUnit = 0, ld_MaxInFlight = 0, ld_Duration = 5 * Second,
       ld_GracefulStop = 0, ld_Users = 10, ld_ThinkTime = 0, ld_Segments = []\<rparr>,
     cf_Treat429AsExpected = False,
     cf_Auth = \<lparr>au_Type = '''', au_Token = '''', au_HeaderName = '''', au_Username = '''', au_Password = '''', au_TokenPool = [],
       au_CookieJar = False\<rparr>,
     cf_Thresholds = [(''http_error_rate'', ''< 1%'')],
     cf_Safety = \<lparr>sf_AllowedHosts = [''LOCALHOST''], sf_AllowNonIdempotent = False\<rparr>\<rparr>"

definition sample_validated :: Config where
  "sample_validated = sample_config\<lparr>
     cf_Request := \<lparr>rq_URL = '' http://localhost:8080/'', rq_Method = ''GET'', rq_Headers = [], rq_ExpectedStatuses = [200],
       rq_Timeout = 10 * Second, rq_ResponseBodyLimit = ''1MiB'', rq_Redirects = ''same-origin''\<rparr>,
     cf_Load := (cf_Load sample_config)\<lparr>ld_GracefulStop := 10 * Second\<rparr>,
     cf_Auth := (cf_Auth sample_config)\<lparr>au_Type := ''none''\<rparr>,
     cf_Safety := \<lparr>sf_AllowedHosts = [''localhost''], sf_AllowNonIdempotent = False\<rparr>\<rparr>"

lemma sample_validates:
  "ValidateConfig (\<lambda>_. 0) sample_url (\<lambda>_. True) (Some sample_config) = Inr sample_validated"
  by code_simp


lemma ValidateConfig_idempotent_witness:
  "sample_validated \<noteq> sample_config
   \<and> ValidateConfig (\<lambda>_. 0) sample_url (\<lambda>_. True) (Some sample_validated) = Inr sample_validated"
proof -
  have "sample_validated \<noteq> sample_config" by code_simp
  then show ?thesis using ValidateConfig_idempotent [OF sample_validates] by blast
qed

section \<open>Duplicate keys\<close>

text \<open>No mapping of the document, at any depth reached through documents, sequences and mapping values, has a key twice.\<close>

fun distinct_keys :: "yaml_node \<Rightarrow> bool" where
  "distinct_keys (DocumentNode ns) \<longleftrightarrow> (\<forall>n\<in>set ns. distinct_keys n)"
| "distinct_keys (SequenceNode ns) \<longleftrightarrow> (\<forall>n\<in>set ns. distinct_keys n)"
| "distinct_keys (MappingNode ps) \<longleftrightarrow> distinct (map (node_Value \<circ> fst) ps) \<and> (\<forall>p\<in>set ps. distinct_keys (snd p))"
| "distinct_keys (ScalarNode v) \<longleftrightarrow> True"
| "distinct_keys (AliasNode v) \<longleftrightarrow> True"

text \<open>The check for duplicate keys accepts a YAML document exactly when every mapping reachable in it, however deeply
  nested in documents, sequences and mapping values, has pairwise different keys.\<close>

lemma checkDuplicateKeys_iff: "checkDuplicateKeys doc = None \<longleftrightarrow> distinct_keys doc"
proof -
  have "checkDuplicateKeys n = None \<longleftrightarrow> distinct_keys n"
    and "check_nodes ns = None \<longleftrightarrow> (\<forall>n\<in>set ns. distinct_keys n)"
    and "check_pairs seen ps = None \<longleftrightarrow> distinct (map (node_Value \<circ> fst) ps) \<and> set (map (node_Value \<circ> fst) ps) \<inter> set seen = {}
        \<and> (\<forall>p\<in>set ps. distinct_keys (snd p))" for n ns seen ps
    by (induction n and ns and seen ps rule: checkDuplicateKeys_check_nodes_check_pairs.induct) (auto simp: comp_def split: option.splits)
  then show ?thesis by blast
qed

end
