(* ===== verification/Config_Load.thy ===== *)
theory Config_Load
  imports Config_Valid
begin

text \<open>
  What happens to a configuration before and around validation: expansion of environment variables
  (\<^verbatim>\<open>config/env.go\<close>), overrides from the command line (\<^verbatim>\<open>config/precedence.go\<close>), redaction
  of credentials (\<^verbatim>\<open>config/redact.go\<close>, the structured part) and the fingerprint of a sanitised copy
  (\<^verbatim>\<open>config/fingerprint.go\<close>).

  The patterns that \<^verbatim>\<open>RedactString\<close> runs over free text are regular expressions and are not modelled. The
  operations of \<^verbatim>\<open>net/url\<close> that \<^verbatim>\<open>RedactURL\<close> uses are the fields of the record \<open>url_api\<close>, JSON
  encoding and the digest are the parameters of \<open>ComputeFingerprint\<close>.
\<close>

section \<open>Environment variables (env.go)\<close>

datatype env_error = ErrInvalidEnvSyntax string | ErrMissingEnvVar string

definition ident_start :: "char \<Rightarrow> bool" where
  "ident_start c \<longleftrightarrow> c \<in> set ''ABCDEFGHIJKLMNOPQRSTUVWXYZabcdefghijklmnopqrstuvwxyz_''"

definition ident_char :: "char \<Rightarrow> bool" where
  "ident_char c \<longleftrightarrow> ident_start c \<or> c \<in> set ''0123456789''"

definition validIdentifier :: "string \<Rightarrow> bool" where
  "validIdentifier s \<longleftrightarrow> (case s of [] \<Rightarrow> False | c # r \<Rightarrow> ident_start c \<and> list_all ident_char r)"

text \<open>The loop over the input, from the current position on; the result is what it still writes to the buffer.\<close>

function expand_loop :: "(string \<Rightarrow> string option) \<Rightarrow> string \<Rightarrow> env_error + string" where
  "expand_loop lookup [] = Inr []"
| "expand_loop lookup (c # r) =
     (if c \<noteq> CHR ''$'' then result_bind (expand_loop lookup r) (\<lambda>t. Inr (c # t))
      else if HasPrefix r ''${'' then
        (case IndexByte (drop 1 r) (CHR ''}'') of
           None \<Rightarrow> Inl (ErrInvalidEnvSyntax ''unclosed escaped variable placeholder'')
         | Some closeIdx \<Rightarrow>
             if \<not> validIdentifier (take (closeIdx - 1) (drop 2 r)) then Inl (ErrInvalidEnvSyntax ''invalid variable name in escaped placeholder'')
             else result_bind (expand_loop lookup (drop (closeIdx + 1) (drop 1 r)))
                    (\<lambda>t. Inr (CHR ''$'' # take (closeIdx + 1) (drop 1 r) @ t)))
      else if HasPrefix r ''$'' then result_bind (expand_loop lookup (drop 1 r)) (\<lambda>t. Inr (CHR ''$'' # t))
      else if HasPrefix r ''{'' then
        (case IndexByte (drop 1 r) (CHR ''}'') of
           None \<Rightarrow> Inl (ErrInvalidEnvSyntax ''unclosed variable placeholder'')
         | Some closeIdx \<Rightarrow>
             if \<not> validIdentifier (take closeIdx (drop 1 r)) then Inl (ErrInvalidEnvSyntax ''invalid variable name'')
             else (case lookup (take closeIdx (drop 1 r)) of
                 None \<Rightarrow> Inl (ErrMissingEnvVar (take closeIdx (drop 1 r)))
               | Some val \<Rightarrow> result_bind (expand_loop lookup (drop (closeIdx + 1) (drop 1 r))) (\<lambda>t. Inr (val @ t))))
      else result_bind (expand_loop lookup r) (\<lambda>t. Inr (c # t)))"
  by pat_completeness auto
termination by (relation "measure (\<lambda>(_, s). length s)") auto

definition ExpandEnvWithLookup :: "string \<Rightarrow> (string \<Rightarrow> string option) \<Rightarrow> env_error + string" where
  "ExpandEnvWithLookup input lookup = expand_loop lookup input"

text \<open>A variable that is unset and one that is empty are both missing.\<close>

definition ExpandEnv :: "string \<Rightarrow> (string \<Rightarrow> string) \<Rightarrow> env_error + string" where
  "ExpandEnv input getenv = ExpandEnvWithLookup input (\<lambda>key. if getenv key = '''' then None else Some (getenv key))"

section \<open>Redaction (redact.go)\<close>

definition RedactedPlaceholder :: string where "RedactedPlaceholder = ''[REDACTED]''"

definition sensitiveHeaderSubstrings :: "string list" where
  "sensitiveHeaderSubstrings = [''auth'', ''token'', ''secret'', ''cookie'', ''credential'', ''key'', ''password'', ''passwd'',
     ''session'', ''apikey'', ''api-key'', ''x-api-key'', ''x-auth-token'', ''x-token'', ''proxy-authorization'', ''set-cookie'']"

definition sensitiveQueryParamSubstrings :: "string list" where
  "sensitiveQueryParamSubstrings = [''token'', ''secret'', ''key'', ''auth'', ''password'', ''passwd'', ''signature'', ''apikey'',
     ''api_key'', ''access_token'', ''session'', ''bearer'', ''refresh_token'']"

definition IsSensitiveHeader :: "string \<Rightarrow> bool" where
  "IsSensitiveHeader headerName \<longleftrightarrow> list_ex (Contains (ToLower (TrimSpace headerName))) sensitiveHeaderSubstrings"

definition IsSensitiveQueryParam :: "string \<Rightarrow> bool" where
  "IsSensitiveQueryParam paramName \<longleftrightarrow> list_ex (Contains (ToLower (TrimSpace paramName))) sensitiveQueryParamSubstrings"

definition RedactHeaders :: "(string \<times> string) list \<Rightarrow> (string \<times> string) list" where
  "RedactHeaders headers = map (\<lambda>(k, v). (k, if IsSensitiveHeader k then RedactedPlaceholder else v)) headers"

definition RedactHTTPHeaders :: "(string \<times> string list) list \<Rightarrow> (string \<times> string list) list" where
  "RedactHTTPHeaders headers = map (\<lambda>(k, vals). (k, if IsSensitiveHeader k then [RedactedPlaceholder] else vals)) headers"

record 'u url_api =
  ua_Parse :: "string \<Rightarrow> 'u option"
  ua_HasUser :: "'u \<Rightarrow> bool"
  ua_SetUserPassword :: "string \<Rightarrow> string \<Rightarrow> 'u \<Rightarrow> 'u"
  ua_Query :: "'u \<Rightarrow> (string \<times> string list) list"
  ua_SetRawQuery :: "(string \<times> string list) list \<Rightarrow> 'u \<Rightarrow> 'u"
  ua_String :: "'u \<Rightarrow> string"

definition redact_query :: "(string \<times> string list) list \<Rightarrow> (string \<times> string list) list" where
  "redact_query query = map (\<lambda>(k, vals). (k, if IsSensitiveQueryParam k then [RedactedPlaceholder] else vals)) query"

definition RedactURL :: "'u url_api \<Rightarrow> string \<Rightarrow> string" where
  "RedactURL U rawURL = (if rawURL = '''' then '''' else case ua_Parse U rawURL of
       None \<Rightarrow> RedactedPlaceholder
     | Some parsed \<Rightarrow>
         let parsed = (if ua_HasUser U parsed then ua_SetUserPassword U RedactedPlaceholder RedactedPlaceholder parsed else parsed);
             query = ua_Query U parsed;
             parsed = (if list_ex (\<lambda>(k, _). IsSensitiveQueryParam k) query then ua_SetRawQuery U (redact_query query) parsed else parsed)
         in ua_String U parsed)"

section \<open>Fingerprint (fingerprint.go)\<close>

definition redact_nonempty :: "string \<Rightarrow> string" where
  "redact_nonempty s = (if s \<noteq> '''' then RedactedPlaceholder else '''')"

definition sanitize_auth :: "AuthConfig \<Rightarrow> AuthConfig" where
  "sanitize_auth a = \<lparr>au_Type = au_Type a, au_Token = redact_nonempty (au_Token a), au_HeaderName = au_HeaderName a,
     au_Username = redact_nonempty (au_Username a), au_Password = redact_nonempty (au_Password a),
     au_TokenPool = map (\<lambda>_. RedactedPlaceholder) (au_TokenPool a), au_CookieJar = au_CookieJar a\<rparr>"

definition sanitize_step :: "'u url_api \<Rightarrow> StepConfig \<Rightarrow> StepConfig" where
  "sanitize_step U s = s\<lparr>st_URL := RedactURL U (st_URL s), st_Headers := RedactHeaders (st_Headers s)\<rparr>"

definition cloneConfigSanitized :: "'u url_api \<Rightarrow> Config \<Rightarrow> Config" where
  "cloneConfigSanitized U cfg = cfg\<lparr>
     cf_Request := (cf_Request cfg)\<lparr>rq_URL := RedactURL U (rq_URL (cf_Request cfg)), rq_Headers := RedactHeaders (rq_Headers (cf_Request cfg))\<rparr>,
     cf_Auth := sanitize_auth (cf_Auth cfg),
     cf_Scenario := map_option (\<lambda>sc. sc\<lparr>sc_Steps := map (sanitize_step U) (sc_Steps sc)\<rparr>) (cf_Scenario cfg)\<rparr>"

definition ComputeFingerprint ::
  "'u url_api \<Rightarrow> (Config \<Rightarrow> string option) \<Rightarrow> (string \<Rightarrow> string) \<Rightarrow> Config option \<Rightarrow> config_error + string" where
  "ComputeFingerprint U json_Marshal sha256_hex cfg = (case cfg of
       None \<Rightarrow> Inl (ErrConfigValidation ''cannot fingerprint nil config'')
     | Some cfg \<Rightarrow> (case json_Marshal (cloneConfigSanitized U cfg) of
           None \<Rightarrow> Inl (ErrConfigValidation ''failed to serialize config for fingerprinting'')
         | Some canonicalBytes \<Rightarrow> Inr (sha256_hex canonicalBytes)))"

section \<open>Command-line overrides (precedence.go)\<close>

record CLIFlags =
  fl_ConfigFile :: string
  fl_URL :: string
  fl_Method :: string
  fl_Model :: string
  fl_Rate :: f64
  fl_TimeUnit :: Duration
  fl_Users :: int
  fl_Duration :: Duration
  fl_Timeout :: Duration
  fl_MaxInFlight :: int
  fl_ResponseBodyLimit :: string
  fl_Redirects :: string
  fl_AllowedHosts :: "string list option"
  fl_AllowDestructive :: bool
  fl_DryRun :: bool
  fl_NonInteractive :: bool

definition override_request :: "CLIFlags \<Rightarrow> RequestConfig \<Rightarrow> RequestConfig" where
  "override_request flags r = r\<lparr>
     rq_URL := (if fl_URL flags \<noteq> '''' then fl_URL flags else rq_URL r),
     rq_Method := (if fl_Method flags \<noteq> '''' then fl_Method flags else rq_Method r),
     rq_Timeout := (if fl_Timeout flags > 0 then fl_Timeout flags else rq_Timeout r),
     rq_ResponseBodyLimit := (if fl_ResponseBodyLimit flags \<noteq> '''' then fl_ResponseBodyLimit flags else rq_ResponseBodyLimit r),
     rq_Redirects := (if fl_Redirects flags \<noteq> '''' then fl_Redirects flags else rq_Redirects r)\<rparr>"

text \<open>Choosing a model clears the fields of the other one.\<close>

definition override_model :: "CLIFlags \<Rightarrow> LoadConfig \<Rightarrow> LoadConfig" where
  "override_model flags l =
     (if fl_Model flags = '''' then l
      else if fl_Model flags = WorkloadModel_String WorkloadModelOpen
      then l\<lparr>ld_Model := fl_Model flags, ld_Users := 0, ld_ThinkTime := 0\<rparr>
      else if fl_Model flags = WorkloadModel_String WorkloadModelClosed
      then l\<lparr>ld_Model := fl_Model flags, ld_Rate := F_Fin 0, ld_TimeUnit := 0, ld_MaxInFlight := 0, ld_Segments := []\<rparr>
      else l\<lparr>ld_Model := fl_Model flags\<rparr>)"

definition override_load :: "CLIFlags \<Rightarrow> LoadConfig \<Rightarrow> config_error + LoadConfig" where
  "override_load flags l0 =
     (let l = override_model flags l0 in
      if fl_Rate flags > F_Fin 0 \<and> ld_Segments l \<noteq> [] then Inl (ErrConfigValidation ''--rate cannot override a segmented profile'')
      else if fl_Duration flags > 0 \<and> ld_Segments l \<noteq> [] then Inl (ErrConfigValidation ''--duration cannot override a segmented profile'')
      else Inr (l\<lparr>ld_Rate := (if fl_Rate flags > F_Fin 0 then fl_Rate flags else ld_Rate l),
                  ld_TimeUnit := (if fl_TimeUnit flags > 0 then fl_TimeUnit flags else ld_TimeUnit l),
                  ld_Users := (if fl_Users flags > 0 then fl_Users flags else ld_Users l),
                  ld_Duration := (if fl_Duration flags > 0 then fl_Duration flags else ld_Duration l),
                  ld_MaxInFlight := (if fl_MaxInFlight flags > 0 then fl_MaxInFlight flags else ld_MaxInFlight l)\<rparr>))"

definition override_safety :: "CLIFlags \<Rightarrow> SafetyConfig \<Rightarrow> config_error + SafetyConfig" where
  "override_safety flags s = result_bind
     (case fl_AllowedHosts flags of
        None \<Rightarrow> Inr s
      | Some hosts \<Rightarrow> (case NormalizeAllowedHosts hosts False of
            Inl e \<Rightarrow> Inl (ErrConfigHosts e)
          | Inr normalizedAllowedHosts \<Rightarrow> Inr (s\<lparr>sf_AllowedHosts := normalizedAllowedHosts\<rparr>)))
     (\<lambda>s. Inr (if fl_AllowDestructive flags then s\<lparr>sf_AllowNonIdempotent := True\<rparr> else s))"

definition default_load :: "LoadConfig \<Rightarrow> LoadConfig" where
  "default_load l =
     (let l = (if ld_Model l \<noteq> '''' then l
               else if ld_Users l > 0 then l\<lparr>ld_Model := WorkloadModel_String WorkloadModelClosed\<rparr>
               else l\<lparr>ld_Model := WorkloadModel_String WorkloadModelOpen,
                      ld_Rate := (if ld_Rate l \<le> F_Fin 0 then F_Fin 1 else ld_Rate l),
                      ld_MaxInFlight := (if ld_MaxInFlight l \<le> 0 then 10 else ld_MaxInFlight l)\<rparr>)
      in if ld_Segments l = [] \<and> ld_Duration l \<le> 0 then l\<lparr>ld_Duration := 10 * Second\<rparr> else l)"

definition loopbackTargetHost :: "(string \<Rightarrow> parsed_url option) \<Rightarrow> string \<Rightarrow> string option" where
  "loopbackTargetHost url_Parse rawURL = (case url_Parse rawURL of
       None \<Rightarrow> None
     | Some u \<Rightarrow> if \<not> IsLoopbackHost (pu_Hostname u) then None
         else (case NormalizeAllowedHost (pu_Hostname u) False of Inl _ \<Rightarrow> None | Inr h \<Rightarrow> Some h))"

definition default_hosts :: "(string \<Rightarrow> parsed_url option) \<Rightarrow> CLIFlags \<Rightarrow> Config \<Rightarrow> Config" where
  "default_hosts url_Parse flags cfg =
     (if fl_ConfigFile flags = '''' \<and> fl_AllowedHosts flags = None \<and> sf_AllowedHosts (cf_Safety cfg) = [] then
        (case loopbackTargetHost url_Parse (rq_URL (cf_Request cfg)) of
           Some targetHost \<Rightarrow> cfg\<lparr>cf_Safety := (cf_Safety cfg)\<lparr>sf_AllowedHosts := [targetHost]\<rparr>\<rparr>
         | None \<Rightarrow> cfg)
      else cfg)"

definition default_names :: "Config \<Rightarrow> Config" where
  "default_names cfg = cfg\<lparr>
     cf_SchemaVersion := (if cf_SchemaVersion cfg = 0 then LegacySchemaVersion else cf_SchemaVersion cfg),
     cf_Name := (if cf_Name cfg = '''' then ''cli-execution'' else cf_Name cfg),
     cf_Request := (cf_Request cfg)\<lparr>rq_Method := (if rq_Method (cf_Request cfg) = '''' then ''GET'' else rq_Method (cf_Request cfg))\<rparr>,
     cf_Load := default_load (cf_Load cfg)\<rparr>"

definition ApplyCLIOverrides ::
  "(f64 \<Rightarrow> int) \<Rightarrow> (string \<Rightarrow> parsed_url option) \<Rightarrow> (string \<Rightarrow> bool) \<Rightarrow> Config option \<Rightarrow> CLIFlags option \<Rightarrow> config_error + Config" where
  "ApplyCLIOverrides oob url_Parse regex_ok cfgo flagso = (case cfgo of
       None \<Rightarrow> Inl (ErrConfigValidation ''config cannot be nil'')
     | Some cfg \<Rightarrow> (case flagso of
           None \<Rightarrow> ValidateConfig oob url_Parse regex_ok (Some cfg)
         | Some flags \<Rightarrow>
             result_bind (override_load flags (cf_Load cfg)) (\<lambda>load.
             result_bind (override_safety flags (cf_Safety cfg)) (\<lambda>safety.
             ValidateConfig oob url_Parse regex_ok (Some (default_hosts url_Parse flags (default_names
               (cfg\<lparr>cf_Request := override_request flags (cf_Request cfg), cf_Load := load, cf_Safety := safety\<rparr>))))))))"

section \<open>Properties of the expansion\<close>

text \<open>A text as its author meant it: plain text, references and escaped references.\<close>

datatype env_piece = Plain string | Reference string | Escaped string

fun write_piece :: "env_piece \<Rightarrow> string" where
  "write_piece (Plain s) = s"
| "write_piece (Reference n) = ''${'' @ n @ ''}''"
| "write_piece (Escaped n) = ''$${'' @ n @ ''}''"

fun piece_ok :: "(string \<Rightarrow> bool) \<Rightarrow> env_piece \<Rightarrow> bool" where
  "piece_ok name_ok (Plain s) \<longleftrightarrow> CHR ''$'' \<notin> set s"
| "piece_ok name_ok (Reference n) \<longleftrightarrow> name_ok n"
| "piece_ok name_ok (Escaped n) \<longleftrightarrow> name_ok n"

text \<open>What the pieces mean: the first reference without a value is the error.\<close>

fun mean_pieces :: "(string \<Rightarrow> 'e) \<Rightarrow> (string \<Rightarrow> string option) \<Rightarrow> env_piece list \<Rightarrow> 'e + string" where
  "mean_pieces missing lookup [] = Inr []"
| "mean_pieces missing lookup (Plain s # ps) = result_bind (mean_pieces missing lookup ps) (\<lambda>t. Inr (s @ t))"
| "mean_pieces missing lookup (Escaped n # ps) = result_bind (mean_pieces missing lookup ps) (\<lambda>t. Inr (''${'' @ n @ ''}'' @ t))"
| "mean_pieces missing lookup (Reference n # ps) = (case lookup n of
     None \<Rightarrow> Inl (missing n)
   | Some v \<Rightarrow> result_bind (mean_pieces missing lookup ps) (\<lambda>t. Inr (v @ t)))"

text \<open>What the expansion of the environment and the substitution of scenario variables have in common: how the loop passes
  each of the three pieces, wherever it meets it.\<close>

locale template =
  fixes expand :: "(string \<Rightarrow> string option) \<Rightarrow> string \<Rightarrow> 'e + string" and missing :: "string \<Rightarrow> 'e" and name_ok :: "string \<Rightarrow> bool"
  assumes empty_text: "expand lookup [] = Inr []"
    and plain: "c \<noteq> CHR ''$'' \<Longrightarrow> expand lookup (c # r) = result_bind (expand lookup r) (\<lambda>t. Inr (c # t))"
    and reference: "name_ok n \<Longrightarrow> expand lookup (''${'' @ n @ ''}'' @ r) = (case lookup n of None \<Rightarrow> Inl (missing n)
      | Some v \<Rightarrow> result_bind (expand lookup r) (\<lambda>t. Inr (v @ t)))"
    and escaped: "name_ok n \<Longrightarrow> expand lookup (''$${'' @ n @ ''}'' @ r) = result_bind (expand lookup r) (\<lambda>t. Inr (''${'' @ n @ ''}'' @ t))"
begin

lemma plain_text: "CHR ''$'' \<notin> set s \<Longrightarrow> expand lookup (s @ r) = result_bind (expand lookup r) (\<lambda>t. Inr (s @ t))"
proof (induction s)
  case (Cons c s)
  then show ?case by (cases "expand lookup r") (auto simp: plain)
qed (cases "expand lookup r"; simp)

lemma pieces: "list_all (piece_ok name_ok) ps \<Longrightarrow> expand lookup (concat (map write_piece ps)) = mean_pieces missing lookup ps"
proof (induction ps)
  case (Cons p ps)
  then show ?case
    using escaped [of _ lookup "concat (map write_piece ps)"] reference [of _ lookup "concat (map write_piece ps)"]
    by (cases p) (auto simp: plain_text split: option.splits)
qed (simp add: empty_text)

end

lemma ident_no_brace: "validIdentifier n \<Longrightarrow> CHR ''}'' \<notin> set n"
proof -
  have "\<not> ident_char (CHR ''}'')" "\<not> ident_start (CHR ''}'')" by code_simp+
  then show "validIdentifier n \<Longrightarrow> ?thesis" by (cases n) (auto simp: validIdentifier_def list_all_iff)
qed

lemma IndexByte_first: "c \<notin> set s \<Longrightarrow> IndexByte (s @ c # t) c = Some (length s)"
  by (induction s) auto

interpretation env: template expand_loop ErrMissingEnvVar validIdentifier
proof (unfold_locales, goal_cases)
  case (3 n lookup r)
  then show ?case using IndexByte_first [OF ident_no_brace [OF 3], of r] by (cases "lookup n") (simp_all add: HasPrefix_def)
next
  case (4 n lookup r)
  then show ?case using IndexByte_first [OF ident_no_brace [OF 4], of r] by (simp add: HasPrefix_def)
qed simp_all

text \<open>C25. Expanding a text written from plain text, references and escaped references gives exactly its meaning: plain
  text stays, an escaped reference becomes the literal reference, a reference becomes its value, which is not expanded
  again even when it looks like a reference, and the first reference without a value is the error reported.\<close>

theorem ExpandEnv_pieces:
  assumes "list_all (piece_ok validIdentifier) ps"
  shows "ExpandEnvWithLookup (concat (map write_piece ps)) lookup = mean_pieces ErrMissingEnvVar lookup ps"
  unfolding ExpandEnvWithLookup_def using assms by (rule env.pieces)

theorem ExpandEnv_pieces_witness:
  "ExpandEnvWithLookup ''token: ${API_TOKEN} # $${HOME}'' [''API_TOKEN'' \<mapsto> ''${HOME}''] = Inr ''token: ${HOME} # ${HOME}''"
proof -
  have "list_all (piece_ok validIdentifier) [Plain ''token: '', Reference ''API_TOKEN'', Plain '' # '', Escaped ''HOME'']" by code_simp
  from ExpandEnv_pieces [OF this, of "[''API_TOKEN'' \<mapsto> ''${HOME}'']"] show ?thesis by simp
qed

section \<open>Properties of the fingerprint\<close>

text \<open>Two configurations that differ in credentials only.\<close>

definition same_secret_shape :: "string \<Rightarrow> string \<Rightarrow> bool" where
  "same_secret_shape s t \<longleftrightarrow> (s = '''' \<longleftrightarrow> t = '''')"

definition auth_rotated :: "AuthConfig \<Rightarrow> AuthConfig \<Rightarrow> bool" where
  "auth_rotated a b \<longleftrightarrow> au_Type a = au_Type b \<and> au_HeaderName a = au_HeaderName b \<and> au_CookieJar a = au_CookieJar b
     \<and> same_secret_shape (au_Token a) (au_Token b) \<and> same_secret_shape (au_Username a) (au_Username b)
     \<and> same_secret_shape (au_Password a) (au_Password b) \<and> length (au_TokenPool a) = length (au_TokenPool b)"

definition headers_rotated :: "(string \<times> string) list \<Rightarrow> (string \<times> string) list \<Rightarrow> bool" where
  "headers_rotated hs ks \<longleftrightarrow> list_all2 (\<lambda>(h, v) (k, w). h = k \<and> (IsSensitiveHeader h \<or> v = w)) hs ks"

definition step_rotated :: "StepConfig \<Rightarrow> StepConfig \<Rightarrow> bool" where
  "step_rotated s t \<longleftrightarrow> headers_rotated (st_Headers s) (st_Headers t) \<and> t = s\<lparr>st_Headers := st_Headers t\<rparr>"

definition scenario_rotated :: "ScenarioConfig option \<Rightarrow> ScenarioConfig option \<Rightarrow> bool" where
  "scenario_rotated x y \<longleftrightarrow> (case (x, y) of (None, None) \<Rightarrow> True
     | (Some s, Some t) \<Rightarrow> sc_Name s = sc_Name t \<and> list_all2 step_rotated (sc_Steps s) (sc_Steps t) | _ \<Rightarrow> False)"

definition config_rotated :: "Config \<Rightarrow> Config \<Rightarrow> bool" where
  "config_rotated a b \<longleftrightarrow> auth_rotated (cf_Auth a) (cf_Auth b) \<and> headers_rotated (rq_Headers (cf_Request a)) (rq_Headers (cf_Request b))
     \<and> scenario_rotated (cf_Scenario a) (cf_Scenario b)
     \<and> b = a\<lparr>cf_Auth := cf_Auth b, cf_Request := (cf_Request a)\<lparr>rq_Headers := rq_Headers (cf_Request b)\<rparr>, cf_Scenario := cf_Scenario b\<rparr>"

lemma RedactHeaders_rotated: "headers_rotated hs ks \<Longrightarrow> RedactHeaders hs = RedactHeaders ks"
  unfolding headers_rotated_def RedactHeaders_def by (induction rule: list_all2_induct) auto

lemma redact_shape: "same_secret_shape s t \<Longrightarrow> redact_nonempty s = redact_nonempty t"
  by (auto simp: redact_nonempty_def same_secret_shape_def)

lemma sanitize_auth_rotated: "auth_rotated a b \<Longrightarrow> sanitize_auth a = sanitize_auth b"
  by (simp add: auth_rotated_def sanitize_auth_def redact_shape map_replicate_const)

lemma sanitize_step_rotated: "step_rotated s t \<Longrightarrow> sanitize_step U s = sanitize_step U t"
  by (cases s; cases t) (auto simp: step_rotated_def sanitize_step_def RedactHeaders_rotated)

lemma cloneConfigSanitized_rotated:
  assumes "config_rotated a b"
  shows "cloneConfigSanitized U a = cloneConfigSanitized U b"
proof -
  have h: "RedactHeaders (rq_Headers (cf_Request a)) = RedactHeaders (rq_Headers (cf_Request b))"
    and au: "sanitize_auth (cf_Auth a) = sanitize_auth (cf_Auth b)"
    using assms by (auto simp: config_rotated_def RedactHeaders_rotated sanitize_auth_rotated)
  have sc: "map_option (\<lambda>sc. sc\<lparr>sc_Steps := map (sanitize_step U) (sc_Steps sc)\<rparr>) (cf_Scenario a)
      = map_option (\<lambda>sc. sc\<lparr>sc_Steps := map (sanitize_step U) (sc_Steps sc)\<rparr>) (cf_Scenario b)"
  proof (cases "cf_Scenario a")
    case None
    then show ?thesis using assms by (auto simp: config_rotated_def scenario_rotated_def split: option.splits)
  next
    case (Some s)
    then obtain t where t: "cf_Scenario b = Some t" "sc_Name s = sc_Name t" and st: "list_all2 step_rotated (sc_Steps s) (sc_Steps t)"
      using assms by (auto simp: config_rotated_def scenario_rotated_def split: option.splits)
    have "map (sanitize_step U) (sc_Steps s) = map (sanitize_step U) (sc_Steps t)"
      using st by (induction rule: list_all2_induct) (auto simp: sanitize_step_rotated)
    then show ?thesis using Some t by (cases s; cases t) simp
  qed
  have "b = a\<lparr>cf_Auth := cf_Auth b, cf_Request := (cf_Request a)\<lparr>rq_Headers := rq_Headers (cf_Request b)\<rparr>, cf_Scenario := cf_Scenario b\<rparr>"
    using assms by (simp add: config_rotated_def)
  then show ?thesis using h au sc
    by (cases a; cases b; cases "cf_Request a"; cases "cf_Request b") (auto simp: cloneConfigSanitized_def)
qed


definition rotated_config :: "string \<Rightarrow> Config" where
  "rotated_config token = sample_validated\<lparr>
     cf_Request := (cf_Request sample_validated)\<lparr>rq_Headers := [(''X-Api-Key'', token), (''Accept'', ''*/*'')]\<rparr>,
     cf_Auth := (cf_Auth sample_validated)\<lparr>au_Type := ''bearer'', au_Token := token, au_HeaderName := ''Authorization''\<rparr>\<rparr>"

definition sample_api :: "string url_api" where
  "sample_api = \<lparr>ua_Parse = Some, ua_HasUser = (\<lambda>_. False), ua_SetUserPassword = (\<lambda>_ _ u. u), ua_Query = (\<lambda>_. []),
     ua_SetRawQuery = (\<lambda>_ u. u), ua_String = (\<lambda>u. u)\<rparr>"

definition sample_json :: "Config \<Rightarrow> string option" where
  "sample_json c = Some (cf_Name c @ rq_URL (cf_Request c) @ concat (map snd (rq_Headers (cf_Request c))) @ au_Token (cf_Auth c))"


section \<open>Properties of the overrides\<close>

lemma validateRequestConfig_keeps:
  assumes "validateRequestConfig oob U req = Inr r"
  shows "rq_URL r = rq_URL req" "0 < rq_Timeout req \<Longrightarrow> rq_Timeout r = rq_Timeout req" "rq_Redirects req \<noteq> '''' \<Longrightarrow> rq_Redirects r = rq_Redirects req"
  using assms by (auto simp: validateRequestConfig_def result_bind_Inr Let_def normalize_timeout_def normalize_redirects_def split: if_splits)

lemma validateLoadConfig_values:
  assumes "validateLoadConfig oob load v = Inr l"
  shows "ld_Model l = ld_Model load" "ld_Rate l = ld_Rate load" "ld_Users l = ld_Users load" "ld_Duration l = ld_Duration load"
    "ld_MaxInFlight l = ld_MaxInFlight load" "0 < ld_TimeUnit load \<Longrightarrow> ld_TimeUnit l = ld_TimeUnit load"
  using assms
  by (auto simp: validateLoadConfig_def validate_open_def validate_closed_def default_time_unit_def Let_def split: if_splits option.splits)

lemma ValidateConfig_keeps:
  assumes "ValidateConfig oob U rx (Some cfg) = Inr c"
  shows "cf_Scenario cfg = None \<Longrightarrow> rq_URL (cf_Request c) = rq_URL (cf_Request cfg)
      \<and> (0 < rq_Timeout (cf_Request cfg) \<longrightarrow> rq_Timeout (cf_Request c) = rq_Timeout (cf_Request cfg))
      \<and> (rq_Redirects (cf_Request cfg) \<noteq> '''' \<longrightarrow> rq_Redirects (cf_Request c) = rq_Redirects (cf_Request cfg))"
    and "\<exists>v. validateLoadConfig oob (cf_Load cfg) v = Inr (cf_Load c)"
    and "NormalizeAllowedHosts (sf_AllowedHosts (cf_Safety cfg)) True = Inr (sf_AllowedHosts (cf_Safety c))"
    and "sf_AllowNonIdempotent (cf_Safety c) = sf_AllowNonIdempotent (cf_Safety cfg)"
proof -
  obtain c' load auth hosts where t: "validate_target oob U rx cfg = Inr c'"
    and l: "validateLoadConfig oob (cf_Load cfg) (cf_SchemaVersion cfg) = Inr load"
    and h: "NormalizeAllowedHosts (sf_AllowedHosts (cf_Safety cfg)) True = Inr hosts"
    and c: "c = c'\<lparr>cf_Load := load, cf_Auth := auth, cf_Safety := (cf_Safety cfg)\<lparr>sf_AllowedHosts := hosts\<rparr>\<rparr>"
    by (rule ValidateConfig_cases [OF assms])
  show "\<exists>v. validateLoadConfig oob (cf_Load cfg) v = Inr (cf_Load c)" using l c by auto
  show "NormalizeAllowedHosts (sf_AllowedHosts (cf_Safety cfg)) True = Inr (sf_AllowedHosts (cf_Safety c))"
    "sf_AllowNonIdempotent (cf_Safety c) = sf_AllowNonIdempotent (cf_Safety cfg)" using h c by simp_all
  assume "cf_Scenario cfg = None"
  then obtain r where "validateRequestConfig oob U (cf_Request cfg) = Inr r" "cf_Request c = r"
    using t c by (auto simp: validate_target_def Let_def result_bind_Inr split: if_splits)
  then show "rq_URL (cf_Request c) = rq_URL (cf_Request cfg)
      \<and> (0 < rq_Timeout (cf_Request cfg) \<longrightarrow> rq_Timeout (cf_Request c) = rq_Timeout (cf_Request cfg))
      \<and> (rq_Redirects (cf_Request cfg) \<noteq> '''' \<longrightarrow> rq_Redirects (cf_Request c) = rq_Redirects (cf_Request cfg))"
    using validateRequestConfig_keeps by blast
qed

lemma default_hosts_keeps [simp]:
  "cf_Request (default_hosts U flags c) = cf_Request c" "cf_Load (default_hosts U flags c) = cf_Load c"
  "cf_Scenario (default_hosts U flags c) = cf_Scenario c" "cf_SchemaVersion (default_hosts U flags c) = cf_SchemaVersion c"
  by (auto simp: default_hosts_def split: option.splits)

lemma f64_pos: "F_Fin 0 < x \<Longrightarrow> \<not> x \<le> F_Fin 0"
  by (cases x) auto

lemma default_load_values:
  "ld_Model l \<noteq> '''' \<Longrightarrow> ld_Model (default_load l) = ld_Model l"
  "F_Fin 0 < ld_Rate l \<Longrightarrow> ld_Rate (default_load l) = ld_Rate l"
  "ld_Users (default_load l) = ld_Users l" "ld_TimeUnit (default_load l) = ld_TimeUnit l" "ld_Segments (default_load l) = ld_Segments l"
  "0 < ld_Duration l \<Longrightarrow> ld_Duration (default_load l) = ld_Duration l"
  "0 < ld_MaxInFlight l \<Longrightarrow> ld_MaxInFlight (default_load l) = ld_MaxInFlight l"
  by (auto simp: default_load_def Let_def dest: f64_pos)

lemma Normalize_exact:
  assumes "NormalizeAllowedHost host False = Inr n"
  shows "NormalizeAllowedHost host True = Inr n"
proof (cases "HasPrefix (ToLower (TrimSpace host)) wildcardHostPrefix")
  case True
  then show ?thesis using assms by (simp add: NormalizeAllowedHost_def Let_def split: if_splits)
next
  case False
  then have "NormalizeAllowedHost host False = NormalizeAllowedHost host True"
    by (simp only: NormalizeAllowedHost_def Let_def simp_thms if_False)
  then show ?thesis using assms by simp
qed

lemma Normalize_one: "NormalizeAllowedHost h w = Inr h \<Longrightarrow> NormalizeAllowedHosts [h] w = Inr [h]"
  by (simp add: NormalizeAllowedHosts_def)

lemma loopback_fixed:
  assumes "loopbackTargetHost U url = Some h"
  shows "IsLoopbackHost h" "NormalizeAllowedHost h True = Inr h"
proof -
  obtain u :: parsed_url where u: "NormalizeAllowedHost (pu_Hostname u) False = Inr h" "IsLoopbackHost (pu_Hostname u)"
    using assms by (auto simp: loopbackTargetHost_def split: option.splits if_splits sum.splits)
  have h: "NormalizeAllowedHost h False = Inr h" by (rule Normalize_fixpoint [OF u(1)])
  then show "NormalizeAllowedHost h True = Inr h" by (rule Normalize_exact)
  show "IsLoopbackHost h" using u h by (simp add: IsLoopbackHost_def)
qed

lemma default_hosts_loopback:
  assumes "sf_AllowedHosts (cf_Safety cfg) = []"
    and "NormalizeAllowedHosts (sf_AllowedHosts (cf_Safety (default_hosts U flags cfg))) True = Inr hosts"
  shows "hosts = [] \<or> fl_ConfigFile flags = '''' \<and> (\<exists>h. hosts = [h] \<and> IsLoopbackHost h)"
proof (cases "fl_ConfigFile flags = '''' \<and> fl_AllowedHosts flags = None \<and> (\<exists>h. loopbackTargetHost U (rq_URL (cf_Request cfg)) = Some h)")
  case True
  then obtain h where h: "loopbackTargetHost U (rq_URL (cf_Request cfg)) = Some h" by blast
  then show ?thesis using True assms loopback_fixed [OF h] Normalize_one [of h True] by (auto simp: default_hosts_def)
next
  case False
  then have "sf_AllowedHosts (cf_Safety (default_hosts U flags cfg)) = []"
    using assms(1) by (auto simp: default_hosts_def split: option.splits)
  then show ?thesis using assms(2) by (simp add: NormalizeAllowedHosts_def)
qed

lemma override_load_values:
  assumes "override_load flags l0 = Inr l"
  shows "fl_Model flags \<noteq> '''' \<longrightarrow> ld_Model l = fl_Model flags" "F_Fin 0 < fl_Rate flags \<longrightarrow> ld_Rate l = fl_Rate flags"
    "0 < fl_TimeUnit flags \<longrightarrow> ld_TimeUnit l = fl_TimeUnit flags" "0 < fl_Users flags \<longrightarrow> ld_Users l = fl_Users flags"
    "0 < fl_Duration flags \<longrightarrow> ld_Duration l = fl_Duration flags" "0 < fl_MaxInFlight flags \<longrightarrow> ld_MaxInFlight l = fl_MaxInFlight flags"
    "ld_Segments l = ld_Segments (override_model flags l0)"
proof -
  have "ld_Model (override_model flags l0) = fl_Model flags" if "fl_Model flags \<noteq> ''''"
    using that by (simp add: override_model_def)
  then show "fl_Model flags \<noteq> '''' \<longrightarrow> ld_Model l = fl_Model flags" "F_Fin 0 < fl_Rate flags \<longrightarrow> ld_Rate l = fl_Rate flags"
    "0 < fl_TimeUnit flags \<longrightarrow> ld_TimeUnit l = fl_TimeUnit flags" "0 < fl_Users flags \<longrightarrow> ld_Users l = fl_Users flags"
    "0 < fl_Duration flags \<longrightarrow> ld_Duration l = fl_Duration flags" "0 < fl_MaxInFlight flags \<longrightarrow> ld_MaxInFlight l = fl_MaxInFlight flags"
    "ld_Segments l = ld_Segments (override_model flags l0)"
    using assms by (auto simp: override_load_def Let_def split: if_splits)
qed

lemma overrides_sound:
  assumes "ApplyCLIOverrides oob url_Parse regex_ok (Some cfg) (Some flags) = Inr c"
  shows "config_ok oob url_Parse c
    \<and> (fl_Model flags \<noteq> '''' \<longrightarrow> ld_Model (cf_Load c) = fl_Model flags)
    \<and> (F_Fin 0 < fl_Rate flags \<longrightarrow> ld_Rate (cf_Load c) = fl_Rate flags)
    \<and> (0 < fl_TimeUnit flags \<longrightarrow> ld_TimeUnit (cf_Load c) = fl_TimeUnit flags)
    \<and> (0 < fl_Users flags \<longrightarrow> ld_Users (cf_Load c) = fl_Users flags)
    \<and> (0 < fl_Duration flags \<longrightarrow> ld_Duration (cf_Load c) = fl_Duration flags)
    \<and> (0 < fl_MaxInFlight flags \<longrightarrow> ld_MaxInFlight (cf_Load c) = fl_MaxInFlight flags)
    \<and> (cf_Scenario cfg = None \<longrightarrow>
         (fl_URL flags \<noteq> '''' \<longrightarrow> rq_URL (cf_Request c) = fl_URL flags)
         \<and> (0 < fl_Timeout flags \<longrightarrow> rq_Timeout (cf_Request c) = fl_Timeout flags)
         \<and> (fl_Redirects flags \<noteq> '''' \<longrightarrow> rq_Redirects (cf_Request c) = fl_Redirects flags))
    \<and> (fl_AllowedHosts flags = None \<and> sf_AllowedHosts (cf_Safety cfg) = [] \<longrightarrow>
         sf_AllowedHosts (cf_Safety c) = [] \<or>
         fl_ConfigFile flags = '''' \<and> (\<exists>h. sf_AllowedHosts (cf_Safety c) = [h] \<and> IsLoopbackHost h))"
proof -
  obtain load safety where l: "override_load flags (cf_Load cfg) = Inr load" and s: "override_safety flags (cf_Safety cfg) = Inr safety"
    and v: "ValidateConfig oob url_Parse regex_ok (Some (default_hosts url_Parse flags (default_names
               (cfg\<lparr>cf_Request := override_request flags (cf_Request cfg), cf_Load := load, cf_Safety := safety\<rparr>)))) = Inr c"
    using assms by (auto simp: ApplyCLIOverrides_def result_bind_Inr)
  let ?d = "default_names (cfg\<lparr>cf_Request := override_request flags (cf_Request cfg), cf_Load := load, cf_Safety := safety\<rparr>)"
  have req: "rq_URL (cf_Request ?d) = rq_URL (override_request flags (cf_Request cfg))"
    "rq_Timeout (cf_Request ?d) = rq_Timeout (override_request flags (cf_Request cfg))"
    "rq_Redirects (cf_Request ?d) = rq_Redirects (override_request flags (cf_Request cfg))"
    "cf_Scenario ?d = cf_Scenario cfg" "cf_Load ?d = default_load load" "cf_Safety ?d = safety"
    by (simp_all add: default_names_def)
  obtain v' where lv: "validateLoadConfig oob (default_load load) v' = Inr (cf_Load c)"
    using ValidateConfig_keeps(2) [OF v] req(5) by auto
  note vals = validateLoadConfig_values [OF lv] default_load_values [of load] override_load_values [OF l]
  have "config_ok oob url_Parse c" by (rule ValidateConfig_promise [OF v])
  moreover have "safety = (if fl_AllowDestructive flags then (cf_Safety cfg)\<lparr>sf_AllowNonIdempotent := True\<rparr> else cf_Safety cfg)"
    if "fl_AllowedHosts flags = None" using s that by (simp add: override_safety_def)
  ultimately show ?thesis
    using vals ValidateConfig_keeps(1) [OF v] req
      default_hosts_loopback [of ?d url_Parse flags "sf_AllowedHosts (cf_Safety c)"] ValidateConfig_keeps(3) [OF v]
    by (auto simp: override_request_def)
qed


definition sample_flags :: CLIFlags where
  "sample_flags = \<lparr>fl_ConfigFile = '''', fl_URL = ''http://localhost:8080/'', fl_Method = '''', fl_Model = ''closed'', fl_Rate = F_Fin 0,
     fl_TimeUnit = 0, fl_Users = 5, fl_Duration = 2 * Second, fl_Timeout = 0, fl_MaxInFlight = 0, fl_ResponseBodyLimit = '''',
     fl_Redirects = '''', fl_AllowedHosts = None, fl_AllowDestructive = False, fl_DryRun = False, fl_NonInteractive = False\<rparr>"


text \<open>Choosing the closed model on the command line clears the segments of a schema-2 profile but keeps the schema
  version, which requires segments: the combination is always refused.\<close>

lemma model_closed_refuses_profile:
  assumes "cf_SchemaVersion cfg = ExpectedSchemaVersion" "fl_Model flags = WorkloadModel_String WorkloadModelClosed"
  shows "\<exists>e. ApplyCLIOverrides oob url_Parse regex_ok (Some cfg) (Some flags) = Inl e"
proof (rule ccontr)
  assume "\<nexists>e. ApplyCLIOverrides oob url_Parse regex_ok (Some cfg) (Some flags) = Inl e"
  then obtain c where "ApplyCLIOverrides oob url_Parse regex_ok (Some cfg) (Some flags) = Inr c" by (meson sum.exhaust)
  then obtain load safety where l: "override_load flags (cf_Load cfg) = Inr load"
    and v: "ValidateConfig oob url_Parse regex_ok (Some (default_hosts url_Parse flags (default_names
               (cfg\<lparr>cf_Request := override_request flags (cf_Request cfg), cf_Load := load, cf_Safety := safety\<rparr>)))) = Inr c"
    by (auto simp: ApplyCLIOverrides_def result_bind_Inr)
  have "ld_Segments load = []"
    using override_load_values(7) [OF l] assms(2) by (simp add: override_model_def WorkloadModel_String_def)
  then have "ld_Segments (default_load load) = []" by (simp add: default_load_values)
  then show False
    using v assms(1) by (rule_tac ValidateConfig_cases [OF v]) (auto simp: default_names_def schema_defs)
qed

end
