(* ===== verification/Safety_Preflight.thy ===== *)
theory Safety_Preflight
  imports Config_Load
begin

text \<open>
  The safety checks before a run: \<^verbatim>\<open>internal/safety/preflight.go\<close>, \<open>PreflightEngine.Check\<close>, with the
  ceilings and errors of \<^verbatim>\<open>internal/safety/safety.go\<close>.

  Parameters: \<open>url_Parse\<close> is \<^verbatim>\<open>net/url.Parse\<close>, and \<open>LookupIPAddr\<close> is the resolver: \<open>None\<close> is a failed
  lookup. The hosts are resolved in the order of the targets; Go iterates a map, so that the order of the addresses,
  and which of several failing hosts is reported, is not determined there.
\<close>

section \<open>Ceilings, errors and results\<close>

definition MaxAllowedDuration :: Duration where "MaxAllowedDuration = 24 * Hour"
definition MaxAllowedResponseBodyLimit :: int where "MaxAllowedResponseBodyLimit = 50 * 1024 * 1024"
definition MaxAllowedRate :: f64 where "MaxAllowedRate = F_Fin 1000000"
definition MaxAllowedUsers :: int where "MaxAllowedUsers = 100000"
definition MaxAllowedInFlight :: int where "MaxAllowedInFlight = 100000"

datatype safety_error =
    SafetyConfigNil
  | SafetyInvalidURL string
  | ErrHostNotAllowed string
  | ErrDestructiveMethodUnauthorized string
  | ErrSafetyCeilingExceeded string
  | ErrDNSPreflightFailed string
  | SafetyProfile config_error
  | SafetyPanic

record SafetyFlags =
  AllowDestructive :: bool
  NonInteractive :: bool
  SkipDNSPreflight :: bool

record targetEndpoint =
  te_URL :: parsed_url
  te_host :: string
  te_method :: string
  te_bodyLimit :: string

record PreflightResult =
  pf_TargetURL :: parsed_url
  pf_Method :: string
  pf_ResolvedIPs :: "int list list"
  pf_Authorized :: bool

section \<open>The checks\<close>

definition endpoint :: "(string \<Rightarrow> parsed_url option) \<Rightarrow> string \<Rightarrow> string \<Rightarrow> string \<Rightarrow> safety_error + targetEndpoint" where
  "endpoint url_Parse url method bodyLimit = (case url_Parse url of
       None \<Rightarrow> Inl (SafetyInvalidURL url)
     | Some u \<Rightarrow> Inr \<lparr>te_URL = u, te_host = (if pu_Hostname u = '''' then pu_Host u else pu_Hostname u), te_method = method,
         te_bodyLimit = bodyLimit\<rparr>)"

primrec step_endpoints :: "(string \<Rightarrow> parsed_url option) \<Rightarrow> StepConfig list \<Rightarrow> safety_error + targetEndpoint list" where
  "step_endpoints url_Parse [] = Inr []"
| "step_endpoints url_Parse (s # steps) =
     result_bind (endpoint url_Parse (st_URL s) (st_Method s) (st_ResponseBodyLimit s)) (\<lambda>t.
     result_bind (step_endpoints url_Parse steps) (\<lambda>ts. Inr (t # ts)))"

definition collect_targets :: "(string \<Rightarrow> parsed_url option) \<Rightarrow> Config \<Rightarrow> safety_error + targetEndpoint list" where
  "collect_targets url_Parse cfg = (case cf_Scenario cfg of
       Some sc \<Rightarrow> step_endpoints url_Parse (sc_Steps sc)
     | None \<Rightarrow> result_bind (endpoint url_Parse (rq_URL (cf_Request cfg)) (rq_Method (cf_Request cfg)) (rq_ResponseBodyLimit (cf_Request cfg)))
         (\<lambda>t. Inr [t]))"

definition check_target :: "(f64 \<Rightarrow> int) \<Rightarrow> SafetyConfig \<Rightarrow> SafetyFlags \<Rightarrow> targetEndpoint \<Rightarrow> safety_error option" where
  "check_target oob safety flags tgt =
     (if te_host tgt \<noteq> '''' \<and> \<not> IsHostAllowed (te_host tgt) (sf_AllowedHosts safety) then Some (ErrHostNotAllowed (te_host tgt))
      else if IsDestructiveMethod (te_method tgt) \<and> \<not> sf_AllowNonIdempotent safety \<and> \<not> AllowDestructive flags
      then Some (ErrDestructiveMethodUnauthorized (te_method tgt))
      else if te_bodyLimit tgt \<noteq> '''' \<and> (case ParseByteSize oob (te_bodyLimit tgt) of Some n \<Rightarrow> n > MaxAllowedResponseBodyLimit | None \<Rightarrow> False)
      then Some (ErrSafetyCeilingExceeded ''response_body_limit'')
      else None)"

primrec check_targets :: "(f64 \<Rightarrow> int) \<Rightarrow> SafetyConfig \<Rightarrow> SafetyFlags \<Rightarrow> targetEndpoint list \<Rightarrow> safety_error option" where
  "check_targets oob safety flags [] = None"
| "check_targets oob safety flags (t # ts) =
     (case check_target oob safety flags t of Some e \<Rightarrow> Some e | None \<Rightarrow> check_targets oob safety flags ts)"

text \<open>Duration and peak rate of the load, of the compiled profile when it has segments.\<close>

definition effective_load :: "(f64 \<Rightarrow> int) \<Rightarrow> LoadConfig \<Rightarrow> safety_error + Duration \<times> f64" where
  "effective_load oob load =
     (if ld_Segments load \<noteq> [] then (case CompileLoadProfile oob (Some load) of
          Inl e \<Rightarrow> Inl (SafetyProfile e) | Inr prof \<Rightarrow> Inr (cmp_TotalDuration prof, PeakTargetRPS prof))
      else Inr (ld_Duration load, if ld_TimeUnit load > 0 then fdiv (ld_Rate load) (Seconds (ld_TimeUnit load)) else ld_Rate load))"

definition check_ceilings :: "LoadConfig \<Rightarrow> Duration \<times> f64 \<Rightarrow> safety_error option" where
  "check_ceilings load eff =
     (if fst eff > MaxAllowedDuration then Some (ErrSafetyCeilingExceeded ''duration'')
      else if snd eff > MaxAllowedRate then Some (ErrSafetyCeilingExceeded ''peak target RPS'')
      else if ld_Users load > MaxAllowedUsers then Some (ErrSafetyCeilingExceeded ''users'')
      else if ld_MaxInFlight load > MaxAllowedInFlight then Some (ErrSafetyCeilingExceeded ''max_in_flight'')
      else None)"

primrec resolve_hosts :: "(string \<Rightarrow> int list list option) \<Rightarrow> SafetyFlags \<Rightarrow> string list \<Rightarrow> safety_error + int list list" where
  "resolve_hosts LookupIPAddr flags [] = Inr []"
| "resolve_hosts LookupIPAddr flags (host # hosts) = result_bind
     (case ParseIP host of
        Some ip \<Rightarrow> Inr [ip]
      | None \<Rightarrow> if SkipDNSPreflight flags then Inr []
          else (case LookupIPAddr host of
              None \<Rightarrow> Inl (ErrDNSPreflightFailed host)
            | Some addrs \<Rightarrow> if addrs = [] then Inl (ErrDNSPreflightFailed host) else Inr addrs))
     (\<lambda>ips. result_bind (resolve_hosts LookupIPAddr flags hosts) (\<lambda>rest. Inr (ips @ rest)))"

definition unique_hosts :: "targetEndpoint list \<Rightarrow> string list" where
  "unique_hosts targets = remdups (filter (\<lambda>h. h \<noteq> '''') (map te_host targets))"

definition preflight_Check ::
  "(f64 \<Rightarrow> int) \<Rightarrow> (string \<Rightarrow> parsed_url option) \<Rightarrow> (string \<Rightarrow> int list list option) \<Rightarrow> Config option \<Rightarrow> SafetyFlags \<Rightarrow> safety_error + PreflightResult" where
  "preflight_Check oob url_Parse LookupIPAddr cfgo flags = (case cfgo of
       None \<Rightarrow> Inl SafetyConfigNil
     | Some cfg \<Rightarrow>
         result_bind (collect_targets url_Parse cfg) (\<lambda>targets.
         case check_targets oob (cf_Safety cfg) flags targets of
           Some e \<Rightarrow> Inl e
         | None \<Rightarrow> result_bind (effective_load oob (cf_Load cfg)) (\<lambda>eff.
             case check_ceilings (cf_Load cfg) eff of
               Some e \<Rightarrow> Inl e
             | None \<Rightarrow> result_bind (resolve_hosts LookupIPAddr flags (unique_hosts targets)) (\<lambda>resolvedIPs.
                 case targets of
                   [] \<Rightarrow> Inl SafetyPanic
                 | primary # _ \<Rightarrow> Inr \<lparr>pf_TargetURL = te_URL primary,
                     pf_Method = (if cf_Scenario cfg \<noteq> None then ''SCENARIO'' else te_method primary),
                     pf_ResolvedIPs = resolvedIPs, pf_Authorized = True\<rparr>))))"

section \<open>What the checks decide\<close>

text \<open>The requests a configuration makes: URL, method and body limit.\<close>

definition planned_requests :: "Config \<Rightarrow> (string \<times> string \<times> string) list" where
  "planned_requests cfg = (case cf_Scenario cfg of
       Some sc \<Rightarrow> map (\<lambda>s. (st_URL s, st_Method s, st_ResponseBodyLimit s)) (sc_Steps sc)
     | None \<Rightarrow> [(rq_URL (cf_Request cfg), rq_Method (cf_Request cfg), rq_ResponseBodyLimit (cf_Request cfg))])"

definition url_host :: "parsed_url \<Rightarrow> string" where
  "url_host u = (if pu_Hostname u = '''' then pu_Host u else pu_Hostname u)"

definition resolvable :: "(string \<Rightarrow> int list list option) \<Rightarrow> SafetyFlags \<Rightarrow> string \<Rightarrow> bool" where
  "resolvable LookupIPAddr flags h \<longleftrightarrow> ParseIP h \<noteq> None \<or> SkipDNSPreflight flags \<or> (\<exists>a as. LookupIPAddr h = Some (a # as))"

definition request_authorised ::
  "(f64 \<Rightarrow> int) \<Rightarrow> (string \<Rightarrow> parsed_url option) \<Rightarrow> (string \<Rightarrow> int list list option) \<Rightarrow> SafetyConfig \<Rightarrow> SafetyFlags \<Rightarrow> string \<times> string \<times> string \<Rightarrow> bool" where
  "request_authorised oob url_Parse LookupIPAddr safety flags r = (case r of (url, method, limit) \<Rightarrow>
     (case url_Parse url of None \<Rightarrow> False
      | Some u \<Rightarrow> url_host u = '''' \<or> IsHostAllowed (url_host u) (sf_AllowedHosts safety) \<and> resolvable LookupIPAddr flags (url_host u))
     \<and> (IsDestructiveMethod method \<longrightarrow> sf_AllowNonIdempotent safety \<or> AllowDestructive flags)
     \<and> (limit \<noteq> '''' \<longrightarrow> (case ParseByteSize oob limit of Some n \<Rightarrow> n \<le> MaxAllowedResponseBodyLimit | None \<Rightarrow> True)))"

definition load_within_ceilings :: "(f64 \<Rightarrow> int) \<Rightarrow> LoadConfig \<Rightarrow> bool" where
  "load_within_ceilings oob load \<longleftrightarrow> (\<exists>d r. effective_load oob load = Inr (d, r) \<and> d \<le> MaxAllowedDuration \<and> \<not> r > MaxAllowedRate)
     \<and> ld_Users load \<le> MaxAllowedUsers \<and> ld_MaxInFlight load \<le> MaxAllowedInFlight"
definition target_of :: "(string \<Rightarrow> parsed_url option) \<Rightarrow> string \<times> string \<times> string \<Rightarrow> targetEndpoint" where
  "target_of url_Parse r = (case r of (url, method, limit) \<Rightarrow>
     \<lparr>te_URL = the (url_Parse url), te_host = url_host (the (url_Parse url)), te_method = method, te_bodyLimit = limit\<rparr>)"

definition parses :: "(string \<Rightarrow> parsed_url option) \<Rightarrow> string \<times> string \<times> string \<Rightarrow> bool" where
  "parses url_Parse r \<longleftrightarrow> url_Parse (fst r) \<noteq> None"

lemma endpoint_Inr:
  "endpoint U url m l = Inr t \<longleftrightarrow> parses U (url, m, l) \<and> t = target_of U (url, m, l)"
  by (auto simp: endpoint_def target_of_def parses_def url_host_def split: option.splits)

lemma step_endpoints_Inr:
  "step_endpoints U steps = Inr ts \<longleftrightarrow>
   list_all (parses U) (map (\<lambda>s. (st_URL s, st_Method s, st_ResponseBodyLimit s)) steps)
   \<and> ts = map (target_of U) (map (\<lambda>s. (st_URL s, st_Method s, st_ResponseBodyLimit s)) steps)"
  by (induction steps arbitrary: ts) (auto simp: result_bind_Inr endpoint_Inr)

lemma collect_targets_Inr:
  "collect_targets U cfg = Inr ts \<longleftrightarrow> list_all (parses U) (planned_requests cfg) \<and> ts = map (target_of U) (planned_requests cfg)"
  by (auto simp: collect_targets_def planned_requests_def step_endpoints_Inr result_bind_Inr endpoint_Inr split: option.splits)

lemma check_targets_None: "check_targets oob safety flags ts = None \<longleftrightarrow> (\<forall>t\<in>set ts. check_target oob safety flags t = None)"
  by (induction ts) (auto split: option.splits)

lemma resolve_hosts_Inr: "(\<exists>ips. resolve_hosts L flags hosts = Inr ips) \<longleftrightarrow> (\<forall>h\<in>set hosts. resolvable L flags h)"
  by (induction hosts) (auto simp: result_bind_Inr resolvable_def neq_Nil_conv split: option.splits)

lemma request_authorised_iff:
  "request_authorised oob U L safety flags r \<longleftrightarrow> parses U r \<and> check_target oob safety flags (target_of U r) = None
     \<and> (te_host (target_of U r) \<noteq> '''' \<longrightarrow> resolvable L flags (te_host (target_of U r)))"
  by (cases r) (auto simp: request_authorised_def parses_def check_target_def target_of_def not_less split: option.splits)

lemma load_within_ceilings_iff:
  "load_within_ceilings oob load \<longleftrightarrow> (\<exists>eff. effective_load oob load = Inr eff \<and> check_ceilings load eff = None)"
  by (auto simp: load_within_ceilings_def check_ceilings_def not_less split: if_splits)

lemma preflight_Check_Inr:
  "preflight_Check oob U L (Some cfg) flags = Inr r \<longleftrightarrow>
   (\<exists>eff ips primary rest. list_all (parses U) (planned_requests cfg) \<and> map (target_of U) (planned_requests cfg) = primary # rest
     \<and> check_targets oob (cf_Safety cfg) flags (primary # rest) = None
     \<and> effective_load oob (cf_Load cfg) = Inr eff \<and> check_ceilings (cf_Load cfg) eff = None
     \<and> resolve_hosts L flags (unique_hosts (primary # rest)) = Inr ips
     \<and> r = \<lparr>pf_TargetURL = te_URL primary, pf_Method = (if cf_Scenario cfg \<noteq> None then ''SCENARIO'' else te_method primary),
            pf_ResolvedIPs = ips, pf_Authorized = True\<rparr>)"
proof (cases "collect_targets U cfg")
  case (Inl e)
  then have "\<not> list_all (parses U) (planned_requests cfg)"
    using collect_targets_Inr [of U cfg "map (target_of U) (planned_requests cfg)"] by auto
  then show ?thesis using Inl by (simp add: preflight_Check_def)
next
  case (Inr ts)
  then have ts: "list_all (parses U) (planned_requests cfg)" "map (target_of U) (planned_requests cfg) = ts"
    by (auto simp: collect_targets_Inr)
  show ?thesis
  proof (cases ts)
    case Nil
    then show ?thesis using Inr ts by (auto simp: preflight_Check_def result_bind_Inr split: option.split)
  next
    case (Cons primary rest)
    then show ?thesis using Inr ts(1)
      unfolding ts(2) Cons by (cases "effective_load oob (cf_Load cfg)") (auto simp: preflight_Check_def result_bind_Inr split: option.splits)
  qed
qed

lemma preflight_decides:
  "(\<exists>r. preflight_Check oob url_Parse LookupIPAddr (Some cfg) flags = Inr r) \<longleftrightarrow>
     planned_requests cfg \<noteq> []
     \<and> list_all (request_authorised oob url_Parse LookupIPAddr (cf_Safety cfg) flags) (planned_requests cfg)
     \<and> load_within_ceilings oob (cf_Load cfg)"
proof -
  let ?ts = "map (target_of url_Parse) (planned_requests cfg)"
  have "(\<exists>r. preflight_Check oob url_Parse LookupIPAddr (Some cfg) flags = Inr r) \<longleftrightarrow>
     list_all (parses url_Parse) (planned_requests cfg) \<and> ?ts \<noteq> [] \<and> check_targets oob (cf_Safety cfg) flags ?ts = None
     \<and> load_within_ceilings oob (cf_Load cfg) \<and> (\<exists>ips. resolve_hosts LookupIPAddr flags (unique_hosts ?ts) = Inr ips)"
    unfolding preflight_Check_Inr load_within_ceilings_iff by (auto simp: neq_Nil_conv)
  also have "\<dots> \<longleftrightarrow> planned_requests cfg \<noteq> []
     \<and> list_all (request_authorised oob url_Parse LookupIPAddr (cf_Safety cfg) flags) (planned_requests cfg)
     \<and> load_within_ceilings oob (cf_Load cfg)"
    unfolding resolve_hosts_Inr check_targets_None list_all_iff request_authorised_iff
    by (auto simp: unique_hosts_def)
  finally show ?thesis .
qed


end
