(* ===== verification/Auth_Model.thy ===== *)
theory Auth_Model
  imports Config_Load
begin

text \<open>
  Authentication: \<^verbatim>\<open>internal/auth\<close> (token providers, the request authenticator and the per-worker cookie jars), over
  the header operations of \<^verbatim>\<open>net/http\<close> that it uses.
\<close>

section \<open>HTTP headers\<close>

text \<open>An \<^verbatim>\<open>http.Header\<close> maps canonical names to values. A name made of token characters is canonical with a capital
  first letter and after every hyphen; another name is kept as it is.\<close>

type_synonym http_Header = "(string \<times> string list) list"

definition token_char :: "char \<Rightarrow> bool" where
  "token_char c \<longleftrightarrow> c \<in> set ''ABCDEFGHIJKLMNOPQRSTUVWXYZabcdefghijklmnopqrstuvwxyz0123456789!#$%&*+-.^_|~'' \<or> c = CHR 0x27 \<or> c = CHR 0x60"

fun canonical_from :: "bool \<Rightarrow> string \<Rightarrow> string" where
  "canonical_from upper [] = []"
| "canonical_from upper (c # s) = (if upper then upper_char c else lower_char c) # canonical_from (c = CHR ''-'') s"

definition CanonicalHeaderKey :: "string \<Rightarrow> string" where
  "CanonicalHeaderKey s = (if list_all token_char s then canonical_from True s else s)"

definition header_Set :: "string \<Rightarrow> string \<Rightarrow> http_Header \<Rightarrow> http_Header" where
  "header_Set key val h = gm_put (CanonicalHeaderKey key) [val] h"

definition header_Get :: "http_Header \<Rightarrow> string \<Rightarrow> string" where
  "header_Get h key = (case map_of h (CanonicalHeaderKey key) of Some (v # _) \<Rightarrow> v | _ \<Rightarrow> '''')"

lemma header_Get_Set:
  "header_Get (header_Set k v h) k' = (if CanonicalHeaderKey k' = CanonicalHeaderKey k then v else header_Get h k')"
  by (simp add: header_Get_def header_Set_def)

text \<open>Base64 with padding, for basic authentication.\<close>

definition base64_digit :: "nat \<Rightarrow> char" where
  "base64_digit n = (''ABCDEFGHIJKLMNOPQRSTUVWXYZabcdefghijklmnopqrstuvwxyz0123456789+/'') ! n"

fun base64_encode :: "string \<Rightarrow> string" where
  "base64_encode [] = []"
| "base64_encode [a] = (let n = (of_char a :: nat) in [base64_digit (n div 4), base64_digit (n mod 4 * 16), CHR ''='', CHR ''=''])"
| "base64_encode [a, b] = (let n = (of_char a :: nat) * 256 + of_char b in
     [base64_digit (n div 1024), base64_digit (n div 16 mod 64), base64_digit (n mod 16 * 4), CHR ''=''])"
| "base64_encode (a # b # c # s) = (let n = ((of_char a :: nat) * 256 + of_char b) * 256 + of_char c in
     [base64_digit (n div 262144), base64_digit (n div 4096 mod 64), base64_digit (n div 64 mod 64), base64_digit (n mod 64)]
     @ base64_encode s)"

definition basic_credentials :: "string \<Rightarrow> string \<Rightarrow> string" where
  "basic_credentials username password = ''Basic '' @ base64_encode (username @ '':'' @ password)"

section \<open>Token providers (provider.go)\<close>

datatype TokenProvider = StaticTokenProvider string | TokenPoolProvider "string list"

datatype auth_error = TokenPoolEmpty | TokenEmpty

fun GetToken :: "TokenProvider \<Rightarrow> int \<Rightarrow> string" where
  "GetToken (StaticTokenProvider token) workerID = token"
| "GetToken (TokenPoolProvider tokens) workerID =
     (if tokens = [] then ''''
      else let idx = go_mod workerID (int (length tokens)); idx = (if idx < 0 then - idx else idx) in tokens ! nat idx)"

fun TokenCount :: "TokenProvider \<Rightarrow> int" where
  "TokenCount (StaticTokenProvider token) = (if token = '''' then 0 else 1)"
| "TokenCount (TokenPoolProvider tokens) = int (length tokens)"

definition NewTokenPoolProvider :: "string list \<Rightarrow> auth_error + TokenProvider" where
  "NewTokenPoolProvider tokens = (if tokens = [] then Inl TokenPoolEmpty
     else if list_ex (\<lambda>t. t = '''') tokens then Inl TokenEmpty else Inr (TokenPoolProvider tokens))"

definition NewTokenProvider :: "AuthConfig option \<Rightarrow> auth_error + TokenProvider" where
  "NewTokenProvider cfg = (case cfg of
       None \<Rightarrow> Inr (StaticTokenProvider '''')
     | Some c \<Rightarrow>
         if au_Type c = AuthTypeTokenPool then NewTokenPoolProvider (au_TokenPool c)
         else if au_Type c = AuthTypeBearer \<or> au_Type c = AuthTypeCustomHeader then Inr (StaticTokenProvider (au_Token c))
         else Inr (StaticTokenProvider ''''))"

section \<open>The authenticator (authenticator.go)\<close>

record RequestAuthenticator =
  authType :: string
  headerName :: string
  tokenProvider :: TokenProvider
  basicUsername :: string
  basicPassword :: string

definition NewAuthenticator :: "AuthConfig option \<Rightarrow> auth_error + RequestAuthenticator" where
  "NewAuthenticator cfg = (case cfg of
       None \<Rightarrow> Inr \<lparr>authType = AuthTypeNone, headerName = '''', tokenProvider = StaticTokenProvider '''', basicUsername = '''', basicPassword = ''''\<rparr>
     | Some c \<Rightarrow>
         let t = ToLower (TrimSpace (au_Type c)) in
         result_bind (NewTokenProvider cfg) (\<lambda>provider. Inr
           \<lparr>authType = (if t = '''' then AuthTypeNone else t), headerName = (if au_HeaderName c = '''' then ''Authorization'' else au_HeaderName c),
            tokenProvider = provider, basicUsername = au_Username c, basicPassword = au_Password c\<rparr>))"

definition AuthenticateRequest :: "RequestAuthenticator \<Rightarrow> http_Header \<Rightarrow> int \<Rightarrow> http_Header" where
  "AuthenticateRequest a h workerID =
     (let token = GetToken (tokenProvider a) workerID in
      if authType a = AuthTypeBearer then
        if token \<noteq> '''' then header_Set ''Authorization'' (''Bearer '' @ token) h else h
      else if authType a = AuthTypeCustomHeader then
        if token \<noteq> '''' \<and> headerName a \<noteq> '''' then header_Set (headerName a) token h else h
      else if authType a = AuthTypeBasic then header_Set ''Authorization'' (basic_credentials (basicUsername a) (basicPassword a)) h
      else if authType a = AuthTypeTokenPool then
        if token \<noteq> '''' then
          if EqualFold (headerName a) ''Authorization'' \<or> headerName a = '''' then header_Set ''Authorization'' (''Bearer '' @ token) h
          else header_Set (headerName a) token h
        else h
      else h)"

section \<open>Cookie jars (jar.go)\<close>

text \<open>A cookie jar is known by its identity, a number; \<open>next_jar\<close> is the first unused one. The field
  \<^verbatim>\<open>lazyMap\<close> is allocated and never used.\<close>

record VUJarManager =
  jm_enabled :: bool
  jm_jars :: "nat list"

definition NewVUJarManager :: "bool \<Rightarrow> int \<Rightarrow> nat \<Rightarrow> VUJarManager" where
  "NewVUJarManager enabled numVUs next_jar =
     (if \<not> enabled then \<lparr>jm_enabled = False, jm_jars = []\<rparr>
      else \<lparr>jm_enabled = True, jm_jars = (if numVUs > 0 then [next_jar ..< next_jar + nat numVUs] else [])\<rparr>)"

definition GetJar :: "VUJarManager \<Rightarrow> int \<Rightarrow> nat option" where
  "GetJar m vuID = (if \<not> jm_enabled m \<or> vuID < 0 \<or> vuID \<ge> int (length (jm_jars m)) then None else Some (jm_jars m ! nat vuID))"

section \<open>Properties\<close>

lemma pool_index:
  assumes "tokens \<noteq> []"
  shows "GetToken (TokenPoolProvider tokens) w = tokens ! nat \<bar>go_mod w (int (length tokens))\<bar>"
    and "nat \<bar>go_mod w (int (length tokens))\<bar> < length tokens"
proof -
  have "\<bar>go_mod w (int (length tokens))\<bar> < int (length tokens)" using go_mod_range [of "int (length tokens)" w] assms by simp
  then show "nat \<bar>go_mod w (int (length tokens))\<bar> < length tokens" by linarith
  show "GetToken (TokenPoolProvider tokens) w = tokens ! nat \<bar>go_mod w (int (length tokens))\<bar>"
    using assms by (simp add: Let_def abs_if)
qed
lemma pool_token:
  assumes "tokens \<noteq> []" "0 \<le> w"
  shows "GetToken (TokenPoolProvider tokens) w = tokens ! nat (w mod int (length tokens))"
  using pool_index(1) [OF assms(1), of w] assms by (simp add: go_mod_nonneg)

text \<open>The credential a request of a worker carries: a header and its value.\<close>

definition credential :: "AuthConfig \<Rightarrow> int \<Rightarrow> (string \<times> string) option" where
  "credential a w =
     (if au_Type a = AuthTypeBearer then Some (''Authorization'', ''Bearer '' @ au_Token a)
      else if au_Type a = AuthTypeCustomHeader then Some (au_HeaderName a, au_Token a)
      else if au_Type a = AuthTypeBasic then Some (''Authorization'', basic_credentials (au_Username a) (au_Password a))
      else if au_Type a = AuthTypeTokenPool then
        (let token = au_TokenPool a ! nat (w mod int (length (au_TokenPool a))) in
         if EqualFold (au_HeaderName a) ''Authorization'' then Some (''Authorization'', ''Bearer '' @ token) else Some (au_HeaderName a, token))
      else None)"

lemma TrimSpace_Nil: "TrimSpace s \<noteq> [] \<Longrightarrow> s \<noteq> []"
  by (metis TrimSpace_length le_zero_eq length_0_conv list.size(3))

lemma pool_tokens_nonempty:
  assumes "\<not> list_ex (\<lambda>tok. TrimSpace tok = '''') tokens" "tokens \<noteq> []"
  shows "\<not> list_ex (\<lambda>t. t = '''') tokens" "GetToken (TokenPoolProvider tokens) w \<noteq> ''''"
proof -
  have e: "t \<noteq> ''''" if "t \<in> set tokens" for t using assms(1) that TrimSpace_Nil by (auto simp: list_ex_iff)
  then show "\<not> list_ex (\<lambda>t. t = '''') tokens" by (auto simp: list_ex_iff)
  have "GetToken (TokenPoolProvider tokens) w \<in> set tokens" using pool_index [OF assms(2), of w] by simp
  then show "GetToken (TokenPoolProvider tokens) w \<noteq> ''''" using e by blast
qed

lemma NewTokenProvider_total:
  assumes "auth_ready (au_Type a) a"
  shows "\<exists>P. NewTokenProvider (Some a) = Inr P \<and> (au_Type a \<in> {AuthTypeBearer, AuthTypeCustomHeader} \<longrightarrow> P = StaticTokenProvider (au_Token a))
    \<and> (au_Type a = AuthTypeTokenPool \<longrightarrow> P = TokenPoolProvider (au_TokenPool a))"
  using assms pool_tokens_nonempty(1) [of "au_TokenPool a"]
  by (auto simp: auth_ready_def NewTokenProvider_def NewTokenPoolProvider_def auth_distinct split: if_splits)

lemma NewAuthenticator_total:
  assumes "validateAuth auth = Inr a"
  shows "\<exists>P. NewAuthenticator (Some a) = Inr \<lparr>authType = au_Type a,
      headerName = (if au_HeaderName a = '''' then ''Authorization'' else au_HeaderName a), tokenProvider = P,
      basicUsername = au_Username a, basicPassword = au_Password a\<rparr>
    \<and> (au_Type a \<in> {AuthTypeBearer, AuthTypeCustomHeader} \<longrightarrow> P = StaticTokenProvider (au_Token a))
    \<and> (au_Type a = AuthTypeTokenPool \<longrightarrow> P = TokenPoolProvider (au_TokenPool a))"
proof -
  have "ToLower (TrimSpace (au_Type a)) = au_Type a" "au_Type a \<noteq> ''''"
    using auth_types_fixed validateAuth_type [OF assms] by blast+
  then show ?thesis using NewTokenProvider_total [OF validateAuth_ready [OF assms]] by (auto simp: NewAuthenticator_def Let_def)
qed



text \<open>Workers do not share a cookie jar.\<close>

lemma GetJar_isolated:
  assumes "GetJar (NewVUJarManager True n k) i = Some jar" "GetJar (NewVUJarManager True n k) j = Some jar"
  shows "i = j"
  using assms by (auto simp: GetJar_def NewVUJarManager_def split: if_splits)

end
