(* ===== verification/Metrics_Worker.thy ===== *)
theory Metrics_Worker
  imports Core_Model
begin

text \<open>
  Worker-local metrics: \<^verbatim>\<open>internal/metrics/histogram.go\<close>, \<^verbatim>\<open>worker.go\<close> and
  \<^verbatim>\<open>ratelimit.go\<close>, with the results of \<^verbatim>\<open>internal/executor\<close> they record.

  The HDR histogram is a third-party package. Its operations are the record \<open>'h hdr_ops\<close>,
  an argument of every definition that uses it; \<open>hdr_laws\<close> states what the code relies on.
  A worker is a record of its fields and, in the datatype \<open>worker\<close>, its step workers. The
  \<^verbatim>\<open>Outcomes\<close> map, which is created with every outcome, is a function; the other maps
  are association lists.
\<close>

section \<open>Results of the executor (executor/result.go, executor/ratelimit.go)\<close>

record HeaderParseObservation =
  obs_Name :: string
  obs_Present :: bool
  obs_Valid :: bool
  obs_Value :: string

record RateLimitInfo =
  RetryAfterSeconds :: "int option"
  RetryAfterDate :: "Time option"
  Limit :: "int option"
  Remaining :: "int option"
  ResetSeconds :: "int option"
  ResetDate :: "Time option"
  Policy :: string
  HeaderObservations :: "HeaderParseObservation list"

record exec_Result =
  r_Outcome :: Outcome
  r_StatusCode :: int
  r_Protocol :: string
  r_Timestamps :: RequestTimestamps
  r_Latency :: Duration
  r_TTFB :: Duration
  r_TotalDuration :: Duration
  r_BytesSent :: int
  r_BytesReceived :: int
  r_Truncated :: bool
  r_RateLimitInfo :: "RateLimitInfo option"
  r_Err :: "goerr option"

section \<open>Histograms (histogram.go)\<close>

definition MinLatencyMicroseconds :: int where "MinLatencyMicroseconds = 1"
definition MaxLatencyMicroseconds :: int where "MaxLatencyMicroseconds = 3600 * 1000 * 1000"
definition LatencySignificantFigures :: int where "LatencySignificantFigures = 3"

lemmas latency_limits = MinLatencyMicroseconds_def MaxLatencyMicroseconds_def

text \<open>The operations of the third-party histogram; \<open>RecordValue\<close> gives \<open>None\<close> for its error.\<close>

record 'h hdr_ops =
  hdr_New :: "int \<Rightarrow> int \<Rightarrow> int \<Rightarrow> 'h"
  hdr_RecordValue :: "'h \<Rightarrow> int \<Rightarrow> 'h option"
  hdr_Merge :: "'h \<Rightarrow> 'h \<Rightarrow> 'h"
  hdr_TotalCount :: "'h \<Rightarrow> int"
  hdr_Quantile :: "'h \<Rightarrow> f64 \<Rightarrow> int"
  hdr_Min :: "'h \<Rightarrow> int"
  hdr_Max :: "'h \<Rightarrow> int"
  hdr_Mean :: "'h \<Rightarrow> f64"
  hdr_Reset :: "'h \<Rightarrow> 'h"
  hdr_Copy :: "'h \<Rightarrow> 'h"

text \<open>A value of the Go interface \<^verbatim>\<open>Histogram\<close>: nil, the repository's implementation, or another.\<close>

datatype 'h Histogram = NilHistogram | HDRHistogram 'h | OtherHistogram

datatype metrics_error = ErrNilHistogram | ErrIncompatibleHistogram | ErrSegmentIndex int | ErrAtoi string

definition NewLatencyHistogram :: "'h hdr_ops \<Rightarrow> 'h" where
  "NewLatencyHistogram H = hdr_New H MinLatencyMicroseconds MaxLatencyMicroseconds LatencySignificantFigures"

definition clamp_latency :: "int \<Rightarrow> int" where
  "clamp_latency v = (if v < MinLatencyMicroseconds then MinLatencyMicroseconds
     else if v > MaxLatencyMicroseconds then MaxLatencyMicroseconds else v)"

text \<open>\<^verbatim>\<open>_ = h.Record(v)\<close>: the callers ignore the error, the histogram is then unchanged.\<close>

definition hist_Record :: "'h hdr_ops \<Rightarrow> 'h \<Rightarrow> int \<Rightarrow> 'h" where
  "hist_Record H h v = (case hdr_RecordValue H h (clamp_latency v) of None \<Rightarrow> h | Some h' \<Rightarrow> h')"

definition hist_ValueAtQuantile :: "'h hdr_ops \<Rightarrow> 'h \<Rightarrow> f64 \<Rightarrow> int" where
  "hist_ValueAtQuantile H h q = (if hdr_TotalCount H h = 0 then 0 else hdr_Quantile H h q)"

definition hist_Min :: "'h hdr_ops \<Rightarrow> 'h \<Rightarrow> int" where
  "hist_Min H h = (if hdr_TotalCount H h = 0 then 0 else hdr_Min H h)"

definition hist_Max :: "'h hdr_ops \<Rightarrow> 'h \<Rightarrow> int" where
  "hist_Max H h = (if hdr_TotalCount H h = 0 then 0 else hdr_Max H h)"

definition hist_Mean :: "'h hdr_ops \<Rightarrow> 'h \<Rightarrow> f64" where
  "hist_Mean H h = (if hdr_TotalCount H h = 0 then f0 else hdr_Mean H h)"

definition hist_Count :: "'h hdr_ops \<Rightarrow> 'h \<Rightarrow> int" where
  "hist_Count H h = hdr_TotalCount H h"

definition hist_Merge :: "'h hdr_ops \<Rightarrow> 'h \<Rightarrow> 'h Histogram \<Rightarrow> metrics_error + 'h" where
  "hist_Merge H h other = (case other of
       NilHistogram \<Rightarrow> Inl ErrNilHistogram
     | OtherHistogram \<Rightarrow> Inl ErrIncompatibleHistogram
     | HDRHistogram otherRaw \<Rightarrow>
         if hdr_TotalCount H otherRaw = 0 then Inr h else Inr (hdr_Merge H h otherRaw))"

definition hist_Reset :: "'h hdr_ops \<Rightarrow> 'h \<Rightarrow> 'h" where
  "hist_Reset H h = hdr_Reset H h"

definition hist_Copy :: "'h hdr_ops \<Rightarrow> 'h \<Rightarrow> 'h" where
  "hist_Copy H h = hdr_Copy H h"

text \<open>
  What the code relies on, for the histograms it builds (\<open>ok\<close>): a new histogram is empty, a value
  within the trackable range is recorded and counted once, merging adds the counts, a copy has the
  same count.
\<close>

definition hdr_laws :: "'h hdr_ops \<Rightarrow> ('h \<Rightarrow> bool) \<Rightarrow> bool" where
  "hdr_laws H ok \<longleftrightarrow>
     ok (NewLatencyHistogram H) \<and> hdr_TotalCount H (NewLatencyHistogram H) = 0
     \<and> (\<forall>h v. ok h \<and> MinLatencyMicroseconds \<le> v \<and> v \<le> MaxLatencyMicroseconds \<longrightarrow>
          (\<exists>h'. hdr_RecordValue H h v = Some h' \<and> ok h' \<and> hdr_TotalCount H h' = hdr_TotalCount H h + 1))
     \<and> (\<forall>h g. ok h \<and> ok g \<longrightarrow> ok (hdr_Merge H h g)
          \<and> hdr_TotalCount H (hdr_Merge H h g) = hdr_TotalCount H h + hdr_TotalCount H g)
     \<and> (\<forall>h. ok h \<longrightarrow> ok (hdr_Copy H h) \<and> hdr_TotalCount H (hdr_Copy H h) = hdr_TotalCount H h)"

section \<open>Worker metrics (worker.go)\<close>

definition MaxErrorSamples :: nat where "MaxErrorSamples = 10"
definition MaxRateLimitSamples :: nat where "MaxRateLimitSamples = 10"
definition MaxErrorMessageLength :: nat where "MaxErrorMessageLength = 256"

record ErrorSample =
  es_Message :: string
  es_Class :: string
  es_Count :: int

record RateLimitHeaderSample =
  hs_Limit :: string
  hs_Remaining :: string
  hs_Reset :: string
  hs_Policy :: string

record HeaderConsistency =
  hc_ObservedCount :: int
  hc_ParseErrorCount :: int
  hc_AllParsedAgree :: bool
  hc_Samples :: "string list"

record RateLimitObservations =
  Observed429Count :: int
  RetryAfterSamples :: "string list"
  RateLimitHeaders :: "RateLimitHeaderSample list"
  rl_HeaderConsistency :: "(string \<times> HeaderConsistency) list"

record ScenarioIterationCounts =
  si_Planned :: int
  si_Started :: int
  si_Completed :: int
  si_Failed :: int

record 'h WorkerMetrics =
  WorkerID :: int
  Planned :: int
  Scheduled :: int
  Started :: int
  Completed :: int
  Canceled :: int
  Dropped :: int
  Outcomes :: "Outcome \<Rightarrow> int"
  StatusCodes :: "(int \<times> int) list"
  AllLatency :: 'h
  SuccessLatency :: 'h
  TTFBSumMicroseconds :: int
  TTFBCount :: int
  BytesSent :: int
  BytesReceived :: int
  ErrorSamples :: "ErrorSample list"
  RateLimits :: RateLimitObservations
  SchedulerLagMaxMS :: f64
  FirstThrottleOffsetNS :: int
  ScenarioIterations :: ScenarioIterationCounts

text \<open>A worker and its step workers; a nil pointer in the map is \<open>None\<close>.\<close>

datatype 'h worker = Worker (wm: "'h WorkerMetrics") (StepWorkers: "(string \<times> 'h worker option) list")

definition zero_iterations :: ScenarioIterationCounts where
  "zero_iterations = \<lparr>si_Planned = 0, si_Started = 0, si_Completed = 0, si_Failed = 0\<rparr>"

definition NewWorkerMetrics :: "'h hdr_ops \<Rightarrow> int \<Rightarrow> 'h WorkerMetrics" where
  "NewWorkerMetrics H workerID = \<lparr>
     WorkerID = workerID, Planned = 0, Scheduled = 0, Started = 0, Completed = 0, Canceled = 0, Dropped = 0,
     Outcomes = (\<lambda>_. 0), StatusCodes = [],
     AllLatency = NewLatencyHistogram H, SuccessLatency = NewLatencyHistogram H,
     TTFBSumMicroseconds = 0, TTFBCount = 0, BytesSent = 0, BytesReceived = 0, ErrorSamples = [],
     RateLimits = \<lparr>Observed429Count = 0, RetryAfterSamples = [], RateLimitHeaders = [], rl_HeaderConsistency = []\<rparr>,
     SchedulerLagMaxMS = f0, FirstThrottleOffsetNS = - 1, ScenarioIterations = zero_iterations\<rparr>"

definition NewWorker :: "'h hdr_ops \<Rightarrow> int \<Rightarrow> 'h worker" where
  "NewWorker H workerID = Worker (NewWorkerMetrics H workerID) []"

text \<open>The step worker and the worker that now holds it.\<close>

definition GetOrCreateStepWorker ::
  "'h hdr_ops \<Rightarrow> 'h worker \<Rightarrow> string \<Rightarrow> 'h worker option \<times> 'h worker" where
  "GetOrCreateStepWorker H w stepName = (case map_of (StepWorkers w) stepName of
       Some stepWM \<Rightarrow> (stepWM, w)
     | None \<Rightarrow> let stepWM = Some (NewWorker H (WorkerID (wm w)))
               in (stepWM, Worker (wm w) (gm_put stepName stepWM (StepWorkers w))))"

definition containsString :: "string list \<Rightarrow> string \<Rightarrow> bool" where
  "containsString slice val = list_ex (\<lambda>s. s = val) slice"

definition containsHeaderSample :: "RateLimitHeaderSample list \<Rightarrow> RateLimitHeaderSample \<Rightarrow> bool" where
  "containsHeaderSample slice val = list_ex (\<lambda>s. hs_Limit s = hs_Limit val \<and> hs_Remaining s = hs_Remaining val
     \<and> hs_Reset s = hs_Reset val \<and> hs_Policy s = hs_Policy val) slice"

interpretation strings: sample_membership containsString
  by unfold_locales (auto simp: containsString_def list_ex_iff)

lemma header_sample_eq:
  "hs_Limit s = hs_Limit v \<and> hs_Remaining s = hs_Remaining v \<and> hs_Reset s = hs_Reset v \<and> hs_Policy s = hs_Policy v
   \<longleftrightarrow> s = (v :: RateLimitHeaderSample)"
  by (cases s; cases v) simp

interpretation headers: sample_membership containsHeaderSample
  by unfold_locales (auto simp: containsHeaderSample_def list_ex_iff header_sample_eq)

definition clean_message :: "string \<Rightarrow> string" where
  "clean_message errMsg =
     (let cleaned = TrimSpace errMsg in
      if length cleaned > MaxErrorMessageLength then take MaxErrorMessageLength cleaned @ ''...'' else cleaned)"

text \<open>Find the sample with this message and class and add to its count; \<open>None\<close> if there is none.\<close>

fun bump_sample :: "string \<Rightarrow> string \<Rightarrow> int \<Rightarrow> ErrorSample list \<Rightarrow> ErrorSample list option" where
  "bump_sample msg class n [] = None"
| "bump_sample msg class n (s # ss) =
     (if es_Message s = msg \<and> es_Class s = class then Some (s\<lparr>es_Count := es_Count s + n\<rparr> # ss)
      else map_option (Cons s) (bump_sample msg class n ss))"

definition recordErrorSample :: "ErrorSample list \<Rightarrow> string \<Rightarrow> string \<Rightarrow> ErrorSample list" where
  "recordErrorSample samples errMsg class =
     (let cleaned = clean_message errMsg in
      case bump_sample cleaned class 1 samples of
        Some samples' \<Rightarrow> samples'
      | None \<Rightarrow> if length samples < MaxErrorSamples
                then samples @ [\<lparr>es_Message = cleaned, es_Class = class, es_Count = 1\<rparr>] else samples)"

definition retry_after_sample :: "RateLimitInfo \<Rightarrow> string option" where
  "retry_after_sample info = (case RetryAfterSeconds info of
       Some n \<Rightarrow> Some (Itoa n @ ''s'')
     | None \<Rightarrow> map_option http_format (RetryAfterDate info))"

definition header_sample :: "RateLimitInfo \<Rightarrow> RateLimitHeaderSample" where
  "header_sample info = \<lparr>
     hs_Limit = (case Limit info of Some n \<Rightarrow> Itoa n | None \<Rightarrow> ''''),
     hs_Remaining = (case Remaining info of Some n \<Rightarrow> Itoa n | None \<Rightarrow> ''''),
     hs_Reset = (case ResetSeconds info of Some n \<Rightarrow> Itoa n @ ''s''
        | None \<Rightarrow> (case ResetDate info of Some t \<Rightarrow> http_format t | None \<Rightarrow> '''')),
     hs_Policy = Policy info\<rparr>"

definition header_hasAny :: "RateLimitInfo \<Rightarrow> bool" where
  "header_hasAny info \<longleftrightarrow> Limit info \<noteq> None \<or> Remaining info \<noteq> None \<or> ResetSeconds info \<noteq> None
     \<or> ResetDate info \<noteq> None \<or> Policy info \<noteq> ''''"

definition recordRateLimitInfo :: "RateLimitObservations \<Rightarrow> RateLimitInfo \<Rightarrow> RateLimitObservations" where
  "recordRateLimitInfo rl info =
     rl\<lparr>RetryAfterSamples := (case retry_after_sample info of
           None \<Rightarrow> RetryAfterSamples rl
         | Some sample \<Rightarrow> add_sample MaxRateLimitSamples containsString (RetryAfterSamples rl) sample),
        RateLimitHeaders := (if header_hasAny info
          then add_sample MaxRateLimitSamples containsHeaderSample (RateLimitHeaders rl) (header_sample info)
          else RateLimitHeaders rl)\<rparr>"

section \<open>Header consistency (ratelimit.go)\<close>

definition zero_consistency :: HeaderConsistency where
  "zero_consistency = \<lparr>hc_ObservedCount = 0, hc_ParseErrorCount = 0, hc_AllParsedAgree = False, hc_Samples = []\<rparr>"

text \<open>The branch both functions share: a value that differs from the first sample ends agreement.\<close>

definition observe_value :: "HeaderConsistency \<Rightarrow> string \<Rightarrow> HeaderConsistency" where
  "observe_value c val =
     c\<lparr>hc_AllParsedAgree := (if hc_Samples c \<noteq> [] \<and> hd (hc_Samples c) \<noteq> val then False else hc_AllParsedAgree c),
       hc_Samples := add_sample MaxRateLimitSamples containsString (hc_Samples c) val\<rparr>"

definition begin_consistency :: "HeaderConsistency \<Rightarrow> HeaderConsistency" where
  "begin_consistency c = (if hc_ObservedCount c = 0 then c\<lparr>hc_AllParsedAgree := True\<rparr> else c)"

definition recordHeaderObservation ::
  "(string \<times> HeaderConsistency) list \<Rightarrow> HeaderParseObservation \<Rightarrow> (string \<times> HeaderConsistency) list" where
  "recordHeaderObservation m obs =
     (if \<not> obs_Present obs then m
      else let c = begin_consistency (gm_get zero_consistency m (obs_Name obs));
               c = c\<lparr>hc_ObservedCount := hc_ObservedCount c + 1\<rparr>;
               c = (if \<not> obs_Valid obs then c\<lparr>hc_ParseErrorCount := hc_ParseErrorCount c + 1\<rparr>
                    else if obs_Value obs \<noteq> '''' then observe_value c (obs_Value obs) else c)
           in gm_put (obs_Name obs) c m)"

definition recordHeaderObservations ::
  "(string \<times> HeaderConsistency) list \<Rightarrow> HeaderParseObservation list \<Rightarrow> (string \<times> HeaderConsistency) list" where
  "recordHeaderObservations m observations = foldl recordHeaderObservation m observations"

definition merge_consistency :: "HeaderConsistency \<Rightarrow> HeaderConsistency \<Rightarrow> HeaderConsistency" where
  "merge_consistency cur incoming =
     (let c = begin_consistency cur;
          c = (if \<not> hc_AllParsedAgree incoming then c\<lparr>hc_AllParsedAgree := False\<rparr> else c);
          c = c\<lparr>hc_ObservedCount := hc_ObservedCount c + hc_ObservedCount incoming,
                hc_ParseErrorCount := hc_ParseErrorCount c + hc_ParseErrorCount incoming\<rparr>
      in foldl observe_value c (hc_Samples incoming))"

definition mergeHeaderConsistency ::
  "(string \<times> HeaderConsistency) list \<Rightarrow> (string \<times> HeaderConsistency) list \<Rightarrow> (string \<times> HeaderConsistency) list" where
  "mergeHeaderConsistency destination source =
     foldl (\<lambda>d (name, incoming). gm_put name (merge_consistency (gm_get zero_consistency d name) incoming) d)
       destination source"

section \<open>Recording a result (worker.go)\<close>

definition observe_429 :: "RateLimitObservations \<Rightarrow> exec_Result \<Rightarrow> RateLimitObservations" where
  "observe_429 rl res =
     (if r_StatusCode res = 429 \<or> r_Outcome res = OutcomeRateLimited
      then rl\<lparr>Observed429Count := Observed429Count rl + 1\<rparr> else rl)"

definition record_rate_limits :: "RateLimitObservations \<Rightarrow> exec_Result \<Rightarrow> RateLimitObservations" where
  "record_rate_limits rl res = (case r_RateLimitInfo res of
       None \<Rightarrow> observe_429 rl res
     | Some info \<Rightarrow> (let rl' = recordRateLimitInfo (observe_429 rl res) info
         in rl'\<lparr>rl_HeaderConsistency := recordHeaderObservations (rl_HeaderConsistency rl') (HeaderObservations info)\<rparr>))"

definition record_error :: "ErrorSample list \<Rightarrow> exec_Result \<Rightarrow> ErrorSample list" where
  "record_error samples res = (case r_Err res of
       Some err \<Rightarrow> recordErrorSample samples (Error err) (Outcome_String (r_Outcome res))
     | None \<Rightarrow> if r_Outcome res = OutcomeUnexpectedStatus
         then recordErrorSample samples (''unexpected HTTP status code '' @ Itoa (r_StatusCode res))
                (Outcome_String (r_Outcome res))
         else samples)"

definition RecordResult :: "'h hdr_ops \<Rightarrow> 'h WorkerMetrics \<Rightarrow> exec_Result option \<Rightarrow> 'h WorkerMetrics" where
  "RecordResult H w r = (case r of None \<Rightarrow> w | Some res \<Rightarrow>
     (let latencyUS = (if Microseconds (r_Latency res) < 0 then 0 else Microseconds (r_Latency res))
      in w\<lparr>Outcomes := (Outcomes w)(r_Outcome res := Outcomes w (r_Outcome res) + 1),
           StatusCodes := (if r_StatusCode res > 0 then gm_add (r_StatusCode res) 1 (StatusCodes w) else StatusCodes w),
           AllLatency := hist_Record H (AllLatency w) latencyUS,
           SuccessLatency := (if IsSuccess (r_Outcome res) then hist_Record H (SuccessLatency w) latencyUS else SuccessLatency w),
           TTFBSumMicroseconds := TTFBSumMicroseconds w + (if r_TTFB res > 0 then Microseconds (r_TTFB res) else 0),
           TTFBCount := TTFBCount w + (if r_TTFB res > 0 then 1 else 0),
           BytesSent := BytesSent w + r_BytesSent res,
           BytesReceived := BytesReceived w + r_BytesReceived res,
           ErrorSamples := record_error (ErrorSamples w) res,
           RateLimits := record_rate_limits (RateLimits w) res\<rparr>))"

text \<open>\<^verbatim>\<open>Snapshot\<close>: nil step workers are left out; the values are those of the original.\<close>

fun Snapshot :: "'h hdr_ops \<Rightarrow> 'h worker \<Rightarrow> 'h worker" where
  "Snapshot H (Worker w steps) = Worker
     (w\<lparr>AllLatency := hist_Copy H (AllLatency w), SuccessLatency := hist_Copy H (SuccessLatency w)\<rparr>)
     (concat (map (\<lambda>(k, v). case v of None \<Rightarrow> [] | Some sw \<Rightarrow> [(k, Some (Snapshot H sw))]) steps))"

section \<open>Bounded samples\<close>

definition error_samples_ok :: "ErrorSample list \<Rightarrow> bool" where
  "error_samples_ok ss \<longleftrightarrow> length ss \<le> MaxErrorSamples
     \<and> distinct (map (\<lambda>s. (es_Message s, es_Class s)) ss) \<and> (\<forall>s\<in>set ss. 1 \<le> es_Count s)"

definition consistency_ok :: "HeaderConsistency \<Rightarrow> bool" where
  "consistency_ok c \<longleftrightarrow> samples_ok MaxRateLimitSamples (hc_Samples c)
     \<and> 0 \<le> hc_ParseErrorCount c \<and> hc_ParseErrorCount c \<le> hc_ObservedCount c
     \<and> (hc_ObservedCount c = 0 \<longrightarrow> hc_Samples c = [])
     \<and> (hc_AllParsedAgree c \<longrightarrow> length (hc_Samples c) \<le> 1)"

definition consistency_map_ok :: "(string \<times> HeaderConsistency) list \<Rightarrow> bool" where
  "consistency_map_ok m \<longleftrightarrow> distinct (map fst m) \<and> (\<forall>p\<in>set m. consistency_ok (snd p))"

definition rate_limits_ok :: "RateLimitObservations \<Rightarrow> bool" where
  "rate_limits_ok rl \<longleftrightarrow> samples_ok MaxRateLimitSamples (RetryAfterSamples rl)
     \<and> samples_ok MaxRateLimitSamples (RateLimitHeaders rl)
     \<and> consistency_map_ok (rl_HeaderConsistency rl)"

definition worker_ok :: "'h WorkerMetrics \<Rightarrow> bool" where
  "worker_ok w \<longleftrightarrow> error_samples_ok (ErrorSamples w) \<and> rate_limits_ok (RateLimits w)
     \<and> distinct (map fst (StatusCodes w))"

lemma gm_put_all:
  "(\<forall>p\<in>set m. P (snd p)) \<Longrightarrow> P v \<Longrightarrow> \<forall>p\<in>set (gm_put k v m). P (snd p)"
  by (induction m) auto

lemma gm_get_all: "(\<forall>p\<in>set m. P (snd p)) \<Longrightarrow> P d \<Longrightarrow> P (gm_get d m k)"
  by (auto simp: gm_get_def split: option.splits dest!: map_of_SomeD)

lemma distinct_gm_add: "distinct (map fst m) \<Longrightarrow> distinct (map fst (gm_add k n m))"
proof (induction m)
  case (Cons p m)
  then show ?case using keys_gm_add [of k n m] by auto
qed simp

lemma bump_sample_Some:
  "bump_sample m c n ss = Some ss' \<Longrightarrow>
     map (\<lambda>s. (es_Message s, es_Class s)) ss' = map (\<lambda>s. (es_Message s, es_Class s)) ss
     \<and> (0 \<le> n \<longrightarrow> (\<forall>s\<in>set ss. 1 \<le> es_Count s) \<longrightarrow> (\<forall>s\<in>set ss'. 1 \<le> es_Count s))
     \<and> (\<Sum>s\<leftarrow>ss'. es_Count s) = (\<Sum>s\<leftarrow>ss. es_Count s) + n"
proof (induction ss arbitrary: ss')
  case (Cons s ss)
  show ?case
  proof (cases "es_Message s = m \<and> es_Class s = c")
    case False
    with Cons.prems obtain t where t: "bump_sample m c n ss = Some t" "ss' = s # t" by auto
    then show ?thesis using Cons.IH [OF t(1)] by auto
  qed (use Cons.prems in auto)
qed simp

lemma bump_sample_None: "bump_sample m c n ss = None \<longleftrightarrow> (m, c) \<notin> (\<lambda>s. (es_Message s, es_Class s)) ` set ss"
  by (induction ss) auto

lemma recordErrorSample_ok:
  assumes "error_samples_ok ss"
  shows "error_samples_ok (recordErrorSample ss msg class)"
proof (cases "bump_sample (clean_message msg) class 1 ss")
  case None
  then have "(clean_message msg, class) \<notin> (\<lambda>s. (es_Message s, es_Class s)) ` set ss" by (simp add: bump_sample_None)
  then show ?thesis using assms None by (auto simp: recordErrorSample_def error_samples_ok_def image_iff)
next
  case (Some ss')
  have l: "length ss' = length ss" using bump_sample_Some [OF Some] by (metis length_map)
  have "recordErrorSample ss msg class = ss'" by (simp add: recordErrorSample_def Some)
  moreover have "map (\<lambda>s. (es_Message s, es_Class s)) ss' = map (\<lambda>s. (es_Message s, es_Class s)) ss"
    "(\<forall>s\<in>set ss. 1 \<le> es_Count s) \<longrightarrow> (\<forall>s\<in>set ss'. 1 \<le> es_Count s)"
    using bump_sample_Some [OF Some] by simp_all
  ultimately show ?thesis using assms l by (simp only: error_samples_ok_def) blast
qed

lemma observe_value_ok: "consistency_ok c \<Longrightarrow> hc_ObservedCount c \<noteq> 0 \<Longrightarrow> consistency_ok (observe_value c v)"
  using strings.add_sample_ok [of MaxRateLimitSamples "hc_Samples c" v]
  by (cases "hc_Samples c")
    (auto simp: consistency_ok_def observe_value_def add_sample_def strings.contains_iff)

lemma observe_values_ok:
  "consistency_ok c \<Longrightarrow> hc_ObservedCount c \<noteq> 0 \<Longrightarrow> consistency_ok (foldl observe_value c vs)"
proof (induction vs arbitrary: c)
  case (Cons v vs)
  have "hc_ObservedCount (observe_value c v) = hc_ObservedCount c" by (simp add: observe_value_def)
  then show ?case using Cons observe_value_ok by simp
qed simp

lemma begin_consistency_ok: "consistency_ok c \<Longrightarrow> consistency_ok (begin_consistency c)"
  by (auto simp: consistency_ok_def begin_consistency_def)

lemma zero_consistency_ok: "consistency_ok zero_consistency"
  by (simp add: consistency_ok_def zero_consistency_def samples_ok_def)

lemma consistency_map_put: "consistency_map_ok m \<Longrightarrow> consistency_ok c \<Longrightarrow> consistency_map_ok (gm_put k c m)"
  unfolding consistency_map_ok_def by (intro conjI distinct_gm_put gm_put_all) auto

lemma consistency_map_get: "consistency_map_ok m \<Longrightarrow> consistency_ok (gm_get zero_consistency m k)"
  unfolding consistency_map_ok_def by (rule gm_get_all) (auto intro: zero_consistency_ok)

lemma recordHeaderObservation_ok:
  assumes "consistency_map_ok m"
  shows "consistency_map_ok (recordHeaderObservation m obs)"
proof -
  let ?c = "begin_consistency (gm_get zero_consistency m (obs_Name obs))"
  let ?d = "?c\<lparr>hc_ObservedCount := hc_ObservedCount ?c + 1\<rparr>"
  have c: "consistency_ok ?c" by (intro begin_consistency_ok consistency_map_get assms)
  then have d: "consistency_ok ?d" "hc_ObservedCount ?d \<noteq> 0" by (auto simp: consistency_ok_def)
  have e: "consistency_ok (?d\<lparr>hc_ParseErrorCount := hc_ParseErrorCount ?d + 1\<rparr>)" using c by (auto simp: consistency_ok_def)
  show ?thesis
    unfolding recordHeaderObservation_def Let_def
    using assms consistency_map_put [OF assms d(1)] consistency_map_put [OF assms e]
      consistency_map_put [OF assms observe_value_ok [OF d]] by presburger
qed

lemma recordHeaderObservations_ok:
  "consistency_map_ok m \<Longrightarrow> consistency_map_ok (recordHeaderObservations m os)"
  unfolding recordHeaderObservations_def by (rule foldl_invariant) (auto intro: recordHeaderObservation_ok)

lemma merge_consistency_ok:
  assumes "consistency_ok c" "consistency_ok i"
  shows "consistency_ok (merge_consistency c i)"
proof -
  let ?b = "begin_consistency c"
  let ?a = "if \<not> hc_AllParsedAgree i then ?b\<lparr>hc_AllParsedAgree := False\<rparr> else ?b"
  let ?e = "?a\<lparr>hc_ObservedCount := hc_ObservedCount ?a + hc_ObservedCount i,
      hc_ParseErrorCount := hc_ParseErrorCount ?a + hc_ParseErrorCount i\<rparr>"
  have "consistency_ok ?a" using begin_consistency_ok [OF assms(1)] by (auto simp: consistency_ok_def)
  then have e: "consistency_ok ?e" using assms(2) by (auto simp: consistency_ok_def)
  have "hc_ObservedCount ?e = 0 \<Longrightarrow> hc_Samples i = []"
    using \<open>consistency_ok ?a\<close> assms(2) by (auto simp: consistency_ok_def)
  then have "consistency_ok (foldl observe_value ?e (hc_Samples i))"
    using e by (cases "hc_ObservedCount ?e = 0") (simp, rule observe_values_ok)
  then show ?thesis by (simp only: merge_consistency_def Let_def)
qed

lemma mergeHeaderConsistency_ok:
  assumes "consistency_map_ok d" "\<forall>p\<in>set s. consistency_ok (snd p)"
  shows "consistency_map_ok (mergeHeaderConsistency d s)"
  unfolding mergeHeaderConsistency_def
proof (rule foldl_invariant)
  fix d p
  assume d: "consistency_map_ok d" and "p \<in> set s"
  then obtain n i where p: "p = (n, i)" "consistency_ok i" using assms(2) by (cases p) auto
  show "consistency_map_ok (case p of (n, i) \<Rightarrow> gm_put n (merge_consistency (gm_get zero_consistency d n) i) d)"
    unfolding p(1) prod.case using consistency_map_get [OF d] p(2)
    by (intro consistency_map_put d merge_consistency_ok)
qed (rule assms(1))

lemma recordRateLimitInfo_ok: "rate_limits_ok rl \<Longrightarrow> rate_limits_ok (recordRateLimitInfo rl info)"
  by (auto simp: rate_limits_ok_def recordRateLimitInfo_def strings.add_sample_ok headers.add_sample_ok split: option.splits)

lemma recordHeaderObservations_rl_ok:
  "rate_limits_ok rl \<Longrightarrow>
   rate_limits_ok (rl\<lparr>rl_HeaderConsistency := recordHeaderObservations (rl_HeaderConsistency rl) os\<rparr>)"
  by (simp add: rate_limits_ok_def recordHeaderObservations_ok)

lemma record_rate_limits_ok: "rate_limits_ok rl \<Longrightarrow> rate_limits_ok (record_rate_limits rl res)"
proof -
  assume "rate_limits_ok rl"
  then have "rate_limits_ok (observe_429 rl res)" by (simp add: observe_429_def rate_limits_ok_def)
  then show ?thesis
    by (simp add: record_rate_limits_def Let_def recordHeaderObservations_rl_ok recordRateLimitInfo_ok split: option.split)
qed

lemma record_error_ok: "error_samples_ok ss \<Longrightarrow> error_samples_ok (record_error ss res)"
  by (simp add: record_error_def recordErrorSample_ok split: option.split)

lemma RecordResult_ok: "worker_ok w \<Longrightarrow> worker_ok (RecordResult H w r)"
  by (cases r) (simp_all add: RecordResult_def worker_ok_def Let_def record_rate_limits_ok record_error_ok distinct_gm_add)

lemma NewWorkerMetrics_ok: "worker_ok (NewWorkerMetrics H i)"
  by (simp add: worker_ok_def NewWorkerMetrics_def error_samples_ok_def rate_limits_ok_def samples_ok_def consistency_map_ok_def)

section \<open>Properties\<close>

text \<open>A worker after recording a list of results.\<close>

definition record_all :: "'h hdr_ops \<Rightarrow> 'h WorkerMetrics \<Rightarrow> exec_Result list \<Rightarrow> 'h WorkerMetrics" where
  "record_all H w rs = foldl (\<lambda>w r. RecordResult H w (Some r)) w rs"

definition tally :: "('a \<Rightarrow> bool) \<Rightarrow> 'a list \<Rightarrow> int" where
  "tally P xs = int (length (filter P xs))"

lemma tally_sum: "(\<Sum>x\<leftarrow>xs. if P x then 1 else 0) = tally P xs"
  by (induction xs) (simp_all add: tally_def)

lemma clamp_range: "MinLatencyMicroseconds \<le> clamp_latency v \<and> clamp_latency v \<le> MaxLatencyMicroseconds"
  by (simp add: clamp_latency_def latency_limits)

lemma hist_Record_count:
  assumes "hdr_laws H ok" "ok h"
  shows "ok (hist_Record H h v)" and "hist_Count H (hist_Record H h v) = hist_Count H h + 1"
proof -
  obtain h' where "hdr_RecordValue H h (clamp_latency v) = Some h'" "ok h'"
    "hdr_TotalCount H h' = hdr_TotalCount H h + 1"
    using assms clamp_range unfolding hdr_laws_def by blast
  then show "ok (hist_Record H h v)" "hist_Count H (hist_Record H h v) = hist_Count H h + 1"
    by (simp_all add: hist_Record_def hist_Count_def)
qed

lemma RecordResult_counters [counter_simps]:
  "Outcomes (RecordResult H w (Some r)) out = Outcomes w out + (if r_Outcome r = out then 1 else 0)"
  "0 < c \<Longrightarrow> gm_get 0 (StatusCodes (RecordResult H w (Some r))) c =
     gm_get 0 (StatusCodes w) c + (if r_StatusCode r = c then 1 else 0)"
  "Observed429Count (RateLimits (RecordResult H w (Some r))) = Observed429Count (RateLimits w) +
     (if r_StatusCode r = 429 \<or> r_Outcome r = OutcomeRateLimited then 1 else 0)"
  "BytesSent (RecordResult H w (Some r)) = BytesSent w + r_BytesSent r"
  "BytesReceived (RecordResult H w (Some r)) = BytesReceived w + r_BytesReceived r"
  by (simp_all add: RecordResult_def Let_def record_rate_limits_def observe_429_def recordRateLimitInfo_def
      split: option.split)

lemma RecordResult_frame [frame_simps]:
  "Planned (RecordResult H w r) = Planned w" "Scheduled (RecordResult H w r) = Scheduled w"
  "Started (RecordResult H w r) = Started w" "Completed (RecordResult H w r) = Completed w"
  "Canceled (RecordResult H w r) = Canceled w" "Dropped (RecordResult H w r) = Dropped w"
  "WorkerID (RecordResult H w r) = WorkerID w" "ScenarioIterations (RecordResult H w r) = ScenarioIterations w"
  "SchedulerLagMaxMS (RecordResult H w r) = SchedulerLagMaxMS w"
  "FirstThrottleOffsetNS (RecordResult H w r) = FirstThrottleOffsetNS w"
  by (simp_all add: RecordResult_def Let_def split: option.split)

lemma record_all_hist:
  assumes "hdr_laws H ok" "ok (AllLatency w)" "ok (SuccessLatency w)"
  shows "ok (AllLatency (record_all H w rs)) \<and> ok (SuccessLatency (record_all H w rs))
    \<and> hist_Count H (AllLatency (record_all H w rs)) = hist_Count H (AllLatency w) + int (length rs)
    \<and> hist_Count H (SuccessLatency (record_all H w rs)) =
        hist_Count H (SuccessLatency w) + tally (\<lambda>r. r_Outcome r = OutcomeSuccess) rs"
  using assms(2,3) unfolding record_all_def
proof (induction rs arbitrary: w)
  case (Cons r rs)
  have "ok (AllLatency (RecordResult H w (Some r)))" "ok (SuccessLatency (RecordResult H w (Some r)))"
    "hist_Count H (AllLatency (RecordResult H w (Some r))) = hist_Count H (AllLatency w) + 1"
    "hist_Count H (SuccessLatency (RecordResult H w (Some r))) =
       hist_Count H (SuccessLatency w) + (if r_Outcome r = OutcomeSuccess then 1 else 0)"
    using hist_Record_count [OF assms(1)] Cons.prems by (simp_all add: RecordResult_def Let_def IsSuccess_def)
  then show ?case using Cons.IH [of "RecordResult H w (Some r)"] by (simp add: tally_def)
qed (simp add: tally_def)

lemma record_all_counters:
  "Outcomes (record_all H w rs) out = Outcomes w out + tally (\<lambda>r. r_Outcome r = out) rs"
  "0 < c \<Longrightarrow> gm_get 0 (StatusCodes (record_all H w rs)) c =
     gm_get 0 (StatusCodes w) c + tally (\<lambda>r. r_StatusCode r = c) rs"
  "Observed429Count (RateLimits (record_all H w rs)) = Observed429Count (RateLimits w) +
     tally (\<lambda>r. r_StatusCode r = 429 \<or> r_Outcome r = OutcomeRateLimited) rs"
  "BytesSent (record_all H w rs) = BytesSent w + (\<Sum>r\<leftarrow>rs. r_BytesSent r)"
  "BytesReceived (record_all H w rs) = BytesReceived w + (\<Sum>r\<leftarrow>rs. r_BytesReceived r)"
  unfolding record_all_def tally_sum [symmetric]
  by (rule foldl_counter [where get = "\<lambda>w. Outcomes w out"]
        foldl_counter [where get = "\<lambda>w. gm_get 0 (StatusCodes w) c"]
        foldl_counter [where get = "\<lambda>w. Observed429Count (RateLimits w)"]
        foldl_counter [where get = BytesSent] foldl_counter [where get = BytesReceived],
      simp add: counter_simps)+

lemma record_all_ok: "worker_ok w \<Longrightarrow> worker_ok (record_all H w rs)"
  unfolding record_all_def by (rule foldl_invariant) (auto intro: RecordResult_ok)

lemma tally_outcomes: "(\<Sum>out\<leftarrow>AllOutcomes. tally (\<lambda>r. r_Outcome r = out) rs) = int (length rs)"
proof (induction rs)
  case (Cons r rs)
  have "(\<Sum>out\<leftarrow>AllOutcomes. tally (\<lambda>r. r_Outcome r = out) (r # rs)) =
      (\<Sum>out\<leftarrow>AllOutcomes. tally (\<lambda>r. r_Outcome r = out) rs) + (\<Sum>out\<leftarrow>AllOutcomes. if r_Outcome r = out then 1 else 0)"
    unfolding sum_list_addf [symmetric] by (rule arg_cong [where f = sum_list]) (simp add: tally_def)
  moreover have "(\<Sum>out\<leftarrow>AllOutcomes. if r_Outcome r = out then 1 else 0 :: int) = 1"
    by (cases "r_Outcome r") (simp_all add: AllOutcomes_def)
  ultimately show ?case using Cons by simp
qed (simp add: AllOutcomes_def tally_def)

text \<open>C18. A worker that has recorded a list of results counts them exactly: each outcome and each status code as
  often as it occurred, all outcomes together as many as there were results, and as many latencies; the
  success histogram holds one value per success. Its samples stay bounded and free of duplicates.\<close>

theorem RecordResult_spec:
  assumes "hdr_laws H ok" and w_def: "w = record_all H (NewWorkerMetrics H i) rs"
  shows "(\<forall>out. Outcomes w out = tally (\<lambda>r. r_Outcome r = out) rs)
    \<and> (\<Sum>out\<leftarrow>AllOutcomes. Outcomes w out) = int (length rs)
    \<and> (\<forall>c>0. gm_get 0 (StatusCodes w) c = tally (\<lambda>r. r_StatusCode r = c) rs)
    \<and> hist_Count H (AllLatency w) = int (length rs)
    \<and> hist_Count H (SuccessLatency w) = Outcomes w OutcomeSuccess
    \<and> BytesReceived w = (\<Sum>r\<leftarrow>rs. r_BytesReceived r)
    \<and> worker_ok w"
proof -
  let ?n = "NewWorkerMetrics H i"
  have n: "ok (AllLatency ?n)" "ok (SuccessLatency ?n)" "hist_Count H (AllLatency ?n) = 0" "hist_Count H (SuccessLatency ?n) = 0"
    using assms(1) by (simp_all add: hdr_laws_def NewWorkerMetrics_def hist_Count_def)
  have z: "Outcomes ?n out = 0" "gm_get 0 (StatusCodes ?n) c = 0" "BytesReceived ?n = 0" for out c
    by (simp_all add: NewWorkerMetrics_def gm_get_def)
  have o: "Outcomes w out = tally (\<lambda>r. r_Outcome r = out) rs" for out
    by (simp add: w_def record_all_counters z)
  moreover have "\<forall>c>0. gm_get 0 (StatusCodes w) c = tally (\<lambda>r. r_StatusCode r = c) rs"
    by (simp add: w_def record_all_counters z)
  moreover have "worker_ok w" unfolding w_def by (intro record_all_ok NewWorkerMetrics_ok)
  ultimately show ?thesis
    using record_all_hist [OF assms(1) n(1,2), of rs] n(3,4) tally_outcomes [of rs]
      record_all_counters(5) [of H ?n rs] z(3) unfolding w_def [symmetric] by simp
qed

subsection \<open>A histogram that satisfies the laws\<close>

text \<open>An exact histogram: the list of the recorded values.\<close>

definition exact_hdr :: "int list hdr_ops" where
  "exact_hdr = \<lparr>
     hdr_New = (\<lambda>_ _ _. []),
     hdr_RecordValue = (\<lambda>h v. if MinLatencyMicroseconds \<le> v \<and> v \<le> MaxLatencyMicroseconds then Some (h @ [v]) else None),
     hdr_Merge = (\<lambda>h g. h @ g),
     hdr_TotalCount = (\<lambda>h. int (length h)),
     hdr_Quantile = (\<lambda>h q. (case q of F_Fin x \<Rightarrow> sort h ! nat (\<lceil>x / 100 * of_nat (length h)\<rceil> - 1) | _ \<Rightarrow> 0)),
     hdr_Min = (\<lambda>h. fold min h (hd h)),
     hdr_Max = (\<lambda>h. fold max h (hd h)),
     hdr_Mean = (\<lambda>h. rnd (of_int (sum_list h) / of_nat (length h))),
     hdr_Reset = (\<lambda>_. []),
     hdr_Copy = (\<lambda>h. h)\<rparr>"

lemma exact_hdr_laws: "hdr_laws exact_hdr (\<lambda>_. True)"
  by (simp add: hdr_laws_def exact_hdr_def NewLatencyHistogram_def)

definition sample_result :: "Outcome \<Rightarrow> int \<Rightarrow> exec_Result" where
  "sample_result out code = \<lparr>r_Outcome = out, r_StatusCode = code, r_Protocol = ''HTTP/1.1'',
     r_Timestamps = \<lparr>PlannedAt = 0, ScheduledAt = 1, DispatchedAt = 1, HeadersReceivedAt = 2, BodyCompletedAt = 3\<rparr>,
     r_Latency = 5000000, r_TTFB = 2000000, r_TotalDuration = 5000000, r_BytesSent = 100, r_BytesReceived = 2000,
     r_Truncated = False, r_RateLimitInfo = None, r_Err = None\<rparr>"

theorem RecordResult_spec_witness:
  "hist_Count exact_hdr (AllLatency (record_all exact_hdr (NewWorkerMetrics exact_hdr 0)
      [sample_result OutcomeSuccess 200, sample_result OutcomeRateLimited 429])) = 2"
  using RecordResult_spec [OF exact_hdr_laws refl, of 0
      "[sample_result OutcomeSuccess 200, sample_result OutcomeRateLimited 429]"] by simp

end
