(* ===== verification/Metrics_Health.thy ===== *)
theory Metrics_Health
  imports Core_Model
begin

text \<open>
  The health of the load generator, \<^verbatim>\<open>internal/metrics/health.go\<close>. The sampler is a record;
  starting and stopping its goroutine is the flag \<open>hs_running\<close>, and the goroutine's work is the
  operation \<open>sample\<close>, given the current number of goroutines.
\<close>

section \<open>Model\<close>

definition CPUSaturationThresholdPercent :: f64 where "CPUSaturationThresholdPercent = F_Fin 85"
definition SchedulerLagWarningThresholdMS :: f64 where "SchedulerLagWarningThresholdMS = F_Fin 50"
definition HighGoroutineThreshold :: int where "HighGoroutineThreshold = 10000"

lemmas health_limits = CPUSaturationThresholdPercent_def SchedulerLagWarningThresholdMS_def HighGoroutineThreshold_def

record GeneratorHealth =
  gh_CPUAvailable :: bool
  gh_CPUMaxPercent :: f64
  gh_GoroutinesPeak :: int
  gh_SchedulerLagMaxMS :: f64
  gh_SaturationWarnings :: "string list"

record GeneratorHealthSampler =
  goroutinesPeak :: int
  cpuAvailable :: bool
  cpuMaxPercent :: f64
  hs_schedulerLagMaxMS :: f64
  warnings :: "string list"
  hs_running :: bool

definition NewGeneratorHealthSampler :: GeneratorHealthSampler where
  "NewGeneratorHealthSampler = \<lparr>goroutinesPeak = 0, cpuAvailable = False, cpuMaxPercent = f0,
     hs_schedulerLagMaxMS = f0, warnings = [], hs_running = False\<rparr>"

definition health_Start :: "GeneratorHealthSampler \<Rightarrow> GeneratorHealthSampler" where
  "health_Start s = (if hs_running s then s else s\<lparr>hs_running := True\<rparr>)"

definition health_Stop :: "GeneratorHealthSampler \<Rightarrow> GeneratorHealthSampler" where
  "health_Stop s = (if \<not> hs_running s then s else s\<lparr>hs_running := False\<rparr>)"

definition sample :: "GeneratorHealthSampler \<Rightarrow> int \<Rightarrow> GeneratorHealthSampler" where
  "sample s currentGoroutines =
     (if currentGoroutines > goroutinesPeak s then s\<lparr>goroutinesPeak := currentGoroutines\<rparr> else s)"

definition RecordSchedulerLag :: "GeneratorHealthSampler \<Rightarrow> Duration \<Rightarrow> GeneratorHealthSampler" where
  "RecordSchedulerLag s lag =
     (let lagMS = fdiv (f_of_int (Microseconds lag)) (F_Fin 1000);
          lagMS = (if lagMS < F_Fin 0 then f0 else lagMS)
      in if lagMS > hs_schedulerLagMaxMS s then s\<lparr>hs_schedulerLagMaxMS := lagMS\<rparr> else s)"

definition RecordCPUSample :: "GeneratorHealthSampler \<Rightarrow> f64 \<Rightarrow> GeneratorHealthSampler" where
  "RecordCPUSample s percent =
     (let s = s\<lparr>cpuAvailable := True\<rparr> in
      if percent > cpuMaxPercent s then s\<lparr>cpuMaxPercent := percent\<rparr> else s)"

definition appendIfMissing :: "string list \<Rightarrow> string \<Rightarrow> string list" where
  "appendIfMissing slice val = (if list_ex (\<lambda>s. s = val) slice then slice else slice @ [val])"

definition AddWarning :: "GeneratorHealthSampler \<Rightarrow> string \<Rightarrow> GeneratorHealthSampler" where
  "AddWarning s warning = (if list_ex (\<lambda>w. w = warning) (warnings s) then s else s\<lparr>warnings := warnings s @ [warning]\<rparr>)"

definition Collect_health :: "GeneratorHealthSampler \<Rightarrow> GeneratorHealth" where
  "Collect_health s =
     (let ws = warnings s;
          ws = (if cpuMaxPercent s > CPUSaturationThresholdPercent
                then appendIfMissing ws ''client CPU saturation detected (> 85%)'' else ws);
          ws = (if goroutinesPeak s > HighGoroutineThreshold
                then appendIfMissing ws ''high goroutine count detected'' else ws);
          ws = (if hs_schedulerLagMaxMS s > SchedulerLagWarningThresholdMS
                then appendIfMissing ws ''scheduler lag exceeded 50ms'' else ws)
      in \<lparr>gh_CPUAvailable = cpuAvailable s, gh_CPUMaxPercent = cpuMaxPercent s,
          gh_GoroutinesPeak = goroutinesPeak s, gh_SchedulerLagMaxMS = hs_schedulerLagMaxMS s,
          gh_SaturationWarnings = ws\<rparr>)"

text \<open>One call of a method of the sampler.\<close>

datatype health_call = C_Start | C_Stop | C_Sample int | C_Lag Duration | C_CPU f64 | C_Warn string

fun health_step :: "GeneratorHealthSampler \<Rightarrow> health_call \<Rightarrow> GeneratorHealthSampler" where
  "health_step s C_Start = health_Start s"
| "health_step s C_Stop = health_Stop s"
| "health_step s (C_Sample n) = sample s n"
| "health_step s (C_Lag d) = RecordSchedulerLag s d"
| "health_step s (C_CPU p) = RecordCPUSample s p"
| "health_step s (C_Warn w) = AddWarning s w"

section \<open>Properties\<close>

definition health_inv :: "GeneratorHealthSampler \<Rightarrow> bool" where
  "health_inv s \<longleftrightarrow> distinct (warnings s) \<and> F_Fin 0 \<le> hs_schedulerLagMaxMS s \<and> F_Fin 0 \<le> cpuMaxPercent s"

interpretation health: inductive_invariant "\<lambda>s. s = NewGeneratorHealthSampler" "\<lambda>s t. \<exists>c. t = health_step s c" health_inv
proof
  show "s = NewGeneratorHealthSampler \<Longrightarrow> health_inv s" for s
    by (simp add: NewGeneratorHealthSampler_def health_inv_def f0_def)
next
  fix s t
  assume I: "health_inv s" and "\<exists>c. t = health_step s c"
  then obtain c where "t = health_step s c" by blast
  then show "health_inv t" using I
    by (cases c) (auto simp: health_inv_def health_Start_def health_Stop_def sample_def RecordSchedulerLag_def
        RecordCPUSample_def AddWarning_def Let_def list_ex_iff
        intro: f64_le_trans f64_less_imp_le)
qed

lemma health_reach: "reach (\<lambda>s. s = NewGeneratorHealthSampler) (\<lambda>s t. \<exists>c. t = health_step s c) (foldl health_step NewGeneratorHealthSampler cs)"
proof (induction cs rule: rev_induct)
  case (snoc c cs)
  then show ?case by (auto intro: reach_step)
qed (simp add: reach_start)

lemma appendIfMissing_distinct: "distinct ws \<Longrightarrow> distinct (appendIfMissing ws w) \<and> set (appendIfMissing ws w) = insert w (set ws)"
  by (auto simp: appendIfMissing_def list_ex_iff)

lemma peak_step: "goroutinesPeak s \<le> goroutinesPeak (health_step s c)"
  by (cases c) (simp_all add: health_Start_def health_Stop_def sample_def RecordSchedulerLag_def RecordCPUSample_def AddWarning_def Let_def)

lemma peak_mono: "goroutinesPeak s \<le> goroutinesPeak (foldl health_step s cs)"
  by (induction cs arbitrary: s) (auto intro: order_trans [OF peak_step])

lemma peak_calls: "n \<in> set [n. C_Sample n \<leftarrow> cs] \<Longrightarrow> n \<le> goroutinesPeak (foldl health_step s cs)"
proof (induction cs arbitrary: s)
  case (Cons c cs)
  show ?case
  proof (cases "n \<in> set [n. C_Sample n \<leftarrow> cs]")
    case False
    with Cons.prems have "c = C_Sample n" by (cases c) auto
    then have "n \<le> goroutinesPeak (health_step s c)" by (simp add: sample_def)
    then show ?thesis using order_trans [OF _ peak_mono] by simp
  qed (use Cons.IH in simp)
qed simp

text \<open>Whatever calls are made, in whatever order, the collected health report has no duplicate warning, covers every
  sampled goroutine count with its peak, and carries the saturation warnings exactly when a limit was exceeded or the
  warning was added explicitly.\<close>

lemma Collect_health_spec:
  "(let s = foldl health_step NewGeneratorHealthSampler cs; h = Collect_health s in
    distinct (gh_SaturationWarnings h)
    \<and> (\<forall>n\<in>set [n. C_Sample n \<leftarrow> cs]. n \<le> gh_GoroutinesPeak h)
    \<and> (''scheduler lag exceeded 50ms'' \<in> set (gh_SaturationWarnings h) \<longleftrightarrow>
         gh_SchedulerLagMaxMS h > SchedulerLagWarningThresholdMS \<or> ''scheduler lag exceeded 50ms'' \<in> set (warnings s)))"
proof -
  let ?s = "foldl health_step NewGeneratorHealthSampler cs"
  have "distinct (warnings ?s)" using health.reach_inv [OF health_reach] by (simp add: health_inv_def)
  then show ?thesis using peak_calls [of _ cs NewGeneratorHealthSampler]
    by (auto simp: Collect_health_def Let_def appendIfMissing_distinct)
qed

lemma Collect_health_spec_witness:
  "distinct (gh_SaturationWarnings (Collect_health (foldl health_step NewGeneratorHealthSampler
     [C_Start, C_Sample 20000, C_Warn ''w'', C_Warn ''w'', C_Stop])))
   \<and> 20000 \<le> gh_GoroutinesPeak (Collect_health (foldl health_step NewGeneratorHealthSampler
     [C_Start, C_Sample 20000, C_Warn ''w'', C_Warn ''w'', C_Stop]))"
  using Collect_health_spec [of "[C_Start, C_Sample 20000, C_Warn ''w'', C_Warn ''w'', C_Stop]"]
  unfolding Let_def by simp

end
