(* ===== verification/Threshold_Eval.thy ===== *)
theory Threshold_Eval
  imports Threshold_Parser
begin

text \<open>
  The evaluation of thresholds against a snapshot of the metrics,
  \<^verbatim>\<open>internal/threshold/evaluator.go\<close>. A slice of pointers is a list of options;
  a nil map of step snapshots is the empty list, which every lookup treats alike.
\<close>

section \<open>Model\<close>

definition floatEpsilon :: f64 where "floatEpsilon = rnd (1 / 1000000000)"

record MetricsSnapshot =
  snap_PlannedRequests :: int
  snap_ScheduledRequests :: int
  snap_StartedRequests :: int
  snap_CompletedRequests :: int
  snap_CanceledRequests :: int
  snap_DroppedRequests :: int
  snap_SuccessfulRequests :: int
  snap_MinLatencyMS :: f64
  snap_MaxLatencyMS :: f64
  snap_MeanLatencyMS :: f64
  snap_P50LatencyMS :: f64
  snap_P90LatencyMS :: f64
  snap_P95LatencyMS :: f64
  snap_P99LatencyMS :: f64
  snap_P999LatencyMS :: f64
  snap_AchievedStartRPS :: f64
  snap_CompletedThroughput :: f64
  snap_ErrorRate :: f64
  snap_RateLimitedRate :: f64

definition zero_snapshot :: MetricsSnapshot where
  "zero_snapshot = \<lparr>
     snap_PlannedRequests = 0, snap_ScheduledRequests = 0, snap_StartedRequests = 0, snap_CompletedRequests = 0,
     snap_CanceledRequests = 0, snap_DroppedRequests = 0, snap_SuccessfulRequests = 0,
     snap_MinLatencyMS = f0, snap_MaxLatencyMS = f0, snap_MeanLatencyMS = f0,
     snap_P50LatencyMS = f0, snap_P90LatencyMS = f0, snap_P95LatencyMS = f0, snap_P99LatencyMS = f0,
     snap_P999LatencyMS = f0, snap_AchievedStartRPS = f0, snap_CompletedThroughput = f0,
     snap_ErrorRate = f0, snap_RateLimitedRate = f0\<rparr>"

record EvaluationContext =
  ctx_TargetRPS :: f64
  ctx_MaxInFlight :: int

record eval_result =
  res_Threshold :: Threshold
  res_MetricName :: string
  res_Operator :: string
  res_TargetFormatted :: string
  res_ObservedValue :: f64
  res_ObservedFormatted :: string
  res_Passed :: bool

record ReportResult =
  rr_Expression :: string
  rr_Target :: string
  rr_Observed :: string
  rr_Passed :: bool

definition compareValues :: "f64 \<Rightarrow> f64 \<Rightarrow> string \<Rightarrow> bool" where
  "compareValues observed target op =
     (if op = OpLT then observed < fsub target floatEpsilon
      else if op = OpLTE then observed \<le> fadd target floatEpsilon
      else if op = OpGT then observed > fadd target floatEpsilon
      else if op = OpGTE then observed \<ge> fsub target floatEpsilon
      else if op = OpEQ then fabs (fsub observed target) \<le> floatEpsilon
      else if op = OpNE then fabs (fsub observed target) > floatEpsilon
      else False)"

definition droppedRate :: "MetricsSnapshot \<Rightarrow> f64" where
  "droppedRate snap =
     (if snap_PlannedRequests snap > 0
      then fmul (fdiv (f_of_int (snap_DroppedRequests snap)) (f_of_int (snap_PlannedRequests snap))) (F_Fin 100)
      else let totalScheduled = wrap64 (snap_StartedRequests snap + snap_DroppedRequests snap) in
        if totalScheduled > 0
        then fmul (fdiv (f_of_int (snap_DroppedRequests snap)) (f_of_int totalScheduled)) (F_Fin 100)
        else f0)"

definition with_unit :: "f64 \<Rightarrow> string \<Rightarrow> f64 \<times> string" where
  "with_unit val unit = (val, fmt_f2 val @ unit)"

definition with_count :: "int \<Rightarrow> f64 \<times> string" where
  "with_count n = (f_of_int n, Itoa n)"

definition extractObserved :: "string \<Rightarrow> MetricsSnapshot \<Rightarrow> EvaluationContext \<Rightarrow> f64 \<times> string" where
  "extractObserved metricName snap evalCtx =
     (if metricName = MetricHTTPErrorRate then with_unit (snap_ErrorRate snap) ''%''
      else if metricName = MetricRateLimitedRate then with_unit (snap_RateLimitedRate snap) ''%''
      else if metricName = MetricDroppedRate then with_unit (droppedRate snap) ''%''
      else if metricName = MetricP50 then with_unit (snap_P50LatencyMS snap) ''ms''
      else if metricName = MetricP90 then with_unit (snap_P90LatencyMS snap) ''ms''
      else if metricName = MetricP95 then with_unit (snap_P95LatencyMS snap) ''ms''
      else if metricName = MetricP99 then with_unit (snap_P99LatencyMS snap) ''ms''
      else if metricName = MetricP999 then with_unit (snap_P999LatencyMS snap) ''ms''
      else if metricName = MetricMinLatency then with_unit (snap_MinLatencyMS snap) ''ms''
      else if metricName = MetricMaxLatency then with_unit (snap_MaxLatencyMS snap) ''ms''
      else if metricName = MetricMeanLatency then with_unit (snap_MeanLatencyMS snap) ''ms''
      else if metricName = MetricCompletedRPS then with_unit (snap_CompletedThroughput snap) '' req/s''
      else if metricName = MetricStartedRPS then with_unit (snap_AchievedStartRPS snap) '' req/s''
      else if metricName = MetricTargetRPS then with_unit (ctx_TargetRPS evalCtx) '' req/s''
      else if metricName = MetricDroppedRequests then with_count (snap_DroppedRequests snap)
      else if metricName = MetricFailedRequests
      then (let failed = wrap64 (snap_CompletedRequests snap - snap_SuccessfulRequests snap)
            in with_count (if failed < 0 then 0 else failed))
      else if metricName = MetricCompletedRequests then with_count (snap_CompletedRequests snap)
      else if metricName = MetricCanceledRequests then with_count (snap_CanceledRequests snap)
      else if metricName = MetricMaxInFlight then with_count (ctx_MaxInFlight evalCtx)
      else (f0, ''0''))"

text \<open>The snapshot and the metric name a threshold is evaluated on.\<close>

definition snapToUse :: "MetricsSnapshot \<Rightarrow> (string \<times> MetricsSnapshot) list \<Rightarrow> Threshold \<Rightarrow> MetricsSnapshot" where
  "snapToUse rootSnap stepSnaps t =
     (if StepName t \<noteq> ''''
      then (case map_of stepSnaps (StepName t) of Some sSnap \<Rightarrow> sSnap | None \<Rightarrow> zero_snapshot)
      else rootSnap)"

definition metricNameToExtract :: "Threshold \<Rightarrow> string" where
  "metricNameToExtract t =
     (if StepName t \<noteq> ''''
      then (case AfterLast (CHR ''.'') (MetricName t) of Some m \<Rightarrow> m | None \<Rightarrow> MetricName t)
      else MetricName t)"

definition evaluate_one ::
  "MetricsSnapshot \<Rightarrow> (string \<times> MetricsSnapshot) list \<Rightarrow> EvaluationContext \<Rightarrow> Threshold \<Rightarrow> eval_result" where
  "evaluate_one rootSnap stepSnaps evalCtx t =
     (let (observedVal, observedFmt) = extractObserved (metricNameToExtract t) (snapToUse rootSnap stepSnaps t) evalCtx;
          passed = compareValues observedVal (TargetValue t) (Operator t);
          targetFmt = (if RawExpression t = '''' then Operator t @ '' '' @ TargetRaw t else RawExpression t)
      in \<lparr>res_Threshold = t, res_MetricName = MetricName t, res_Operator = Operator t,
          res_TargetFormatted = targetFmt, res_ObservedValue = observedVal,
          res_ObservedFormatted = observedFmt, res_Passed = passed\<rparr>)"

fun evaluate_loop ::
  "MetricsSnapshot \<Rightarrow> (string \<times> MetricsSnapshot) list \<Rightarrow> EvaluationContext \<Rightarrow>
   eval_result list \<Rightarrow> bool \<Rightarrow> Threshold option list \<Rightarrow> eval_result list \<times> bool" where
  "evaluate_loop rootSnap stepSnaps evalCtx results allPassed [] = (results, allPassed)"
| "evaluate_loop rootSnap stepSnaps evalCtx results allPassed (None # ts) =
     evaluate_loop rootSnap stepSnaps evalCtx results allPassed ts"
| "evaluate_loop rootSnap stepSnaps evalCtx results allPassed (Some t # ts) =
     (let r = evaluate_one rootSnap stepSnaps evalCtx t
      in evaluate_loop rootSnap stepSnaps evalCtx (results @ [r]) (if \<not> res_Passed r then False else allPassed) ts)"

text \<open>The results and \<^verbatim>\<open>allPassed\<close>; the error of the Go signature is always nil.\<close>

definition EvaluateWithSteps ::
  "Threshold option list \<Rightarrow> MetricsSnapshot \<Rightarrow> (string \<times> MetricsSnapshot) list \<Rightarrow> EvaluationContext \<Rightarrow>
   eval_result list \<times> bool" where
  "EvaluateWithSteps thresholds rootSnap stepSnaps evalCtx =
     (if thresholds = [] then ([], True)
      else evaluate_loop rootSnap stepSnaps evalCtx [] True thresholds)"

definition Evaluate ::
  "Threshold option list \<Rightarrow> MetricsSnapshot \<Rightarrow> EvaluationContext \<Rightarrow> eval_result list \<times> bool" where
  "Evaluate thresholds snap evalCtx = EvaluateWithSteps thresholds snap [] evalCtx"

definition ToReportResults :: "eval_result list \<Rightarrow> ReportResult list" where
  "ToReportResults results = map (\<lambda>r.
     \<lparr>rr_Expression = res_MetricName r @ '' '' @
        (if RawExpression (res_Threshold r) \<noteq> '''' then RawExpression (res_Threshold r) else res_TargetFormatted r),
      rr_Target = res_TargetFormatted r, rr_Observed = res_ObservedFormatted r, rr_Passed = res_Passed r\<rparr>) results"

section \<open>Properties\<close>

lemma floatEpsilon_finite:
  obtains y where "floatEpsilon = F_Fin y" "0 \<le> y"
proof -
  have "(1 :: rat) \<le> pow2 971" using pow2_mono [of 0 971] by (simp add: pow2_def)
  then obtain y where y: "rnd (1 / 1000000000) = F_Fin y" using rnd_finite [of "1 / 1000000000"] by auto
  have "F_Fin 0 \<le> rnd (1 / 1000000000)" by (rule rnd_nonneg) simp
  then have "0 \<le> y" unfolding y by simp
  then show thesis using y by (intro that) (simp_all add: floatEpsilon_def)
qed

lemma fadd_eps_not_NaN:
  assumes "t \<noteq> F_NaN"
  shows "fadd t floatEpsilon \<noteq> F_NaN" "fsub t floatEpsilon \<noteq> F_NaN"
proof -
  obtain y where y: "floatEpsilon = F_Fin y" using floatEpsilon_finite by blast
  show "fadd t floatEpsilon \<noteq> F_NaN" "fsub t floatEpsilon \<noteq> F_NaN"
    unfolding y fsub_def using assms by (cases t; simp)+
qed

lemma fabs_NaN [simp]: "fabs x = F_NaN \<longleftrightarrow> x = F_NaN"
  by (cases x) auto

text \<open>The comparison operators come in complementary pairs: on numbers exactly one of \<^verbatim>\<open><\<close> and
  \<^verbatim>\<open>>=\<close> holds, exactly one of \<^verbatim>\<open>>\<close> and \<^verbatim>\<open><=\<close>, and, when the difference is
  a number, exactly one of \<^verbatim>\<open>==\<close> and \<^verbatim>\<open>!=\<close>; a threshold whose target is NaN fails under
  every operator.\<close>

lemma compareValues_complementary:
  assumes "observed \<noteq> F_NaN" "target \<noteq> F_NaN"
  shows "(compareValues observed target OpLT \<longleftrightarrow> \<not> compareValues observed target OpGTE)
    \<and> (compareValues observed target OpGT \<longleftrightarrow> \<not> compareValues observed target OpLTE)
    \<and> (fsub observed target \<noteq> F_NaN \<longrightarrow>
         (compareValues observed target OpEQ \<longleftrightarrow> \<not> compareValues observed target OpNE))
    \<and> \<not> compareValues observed F_NaN op"
proof (intro conjI impI)
  have n: "floatEpsilon \<noteq> F_NaN" by (simp add: floatEpsilon_def)
  show "compareValues observed target OpLT \<longleftrightarrow> \<not> compareValues observed target OpGTE"
    using f64_not_less [OF assms(1) fadd_eps_not_NaN(2) [OF assms(2)]] by (auto simp: compareValues_def op_defs)
  show "compareValues observed target OpGT \<longleftrightarrow> \<not> compareValues observed target OpLTE"
    using f64_not_less [OF fadd_eps_not_NaN(1) [OF assms(2)] assms(1)] by (auto simp: compareValues_def op_defs)
  show "compareValues observed target OpEQ \<longleftrightarrow> \<not> compareValues observed target OpNE"
    if "fsub observed target \<noteq> F_NaN"
    using f64_not_less [OF n, of "fabs (fsub observed target)"] that by (auto simp: compareValues_def op_defs)
  have "fadd F_NaN x = F_NaN" "fsub F_NaN x = F_NaN" "fsub x F_NaN = F_NaN" for x
    by (cases x; simp add: fsub_def)+
  then show "\<not> compareValues observed F_NaN op" by (simp add: compareValues_def)
qed

theorem compareValues_complementary_witness:
  "compareValues (F_Fin 5) (F_Fin 10) OpLT \<and> \<not> compareValues (F_Fin 5) (F_Fin 10) OpGTE"
proof
  show "compareValues (F_Fin 5) (F_Fin 10) OpLT" by code_simp
  then show "\<not> compareValues (F_Fin 5) (F_Fin 10) OpGTE"
    using compareValues_complementary [of "F_Fin 5" "F_Fin 10"] by simp
qed

lemma evaluate_loop_spec:
  "evaluate_loop snap steps ctx rs ok ts =
     (rs @ map (evaluate_one snap steps ctx) (map the (filter (\<lambda>t. t \<noteq> None) ts)),
      ok \<and> (\<forall>r\<in>set (map (evaluate_one snap steps ctx) (map the (filter (\<lambda>t. t \<noteq> None) ts))). res_Passed r))"
  by (induction snap steps ctx rs ok ts rule: evaluate_loop.induct) (auto simp: Let_def)

text \<open>Evaluation reports one result per threshold that is present, in order, and the overall verdict is
  that every one of them passed; the report shows the same verdicts.\<close>

lemma EvaluateWithSteps_spec:
  "EvaluateWithSteps ts snap steps ctx =
     (let results = map (evaluate_one snap steps ctx) (map the (filter (\<lambda>t. t \<noteq> None) ts))
      in (results, list_all res_Passed results))
   \<and> list_all rr_Passed (ToReportResults (fst (EvaluateWithSteps ts snap steps ctx)))
       = snd (EvaluateWithSteps ts snap steps ctx)"
  by (cases ts) (auto simp: EvaluateWithSteps_def evaluate_loop_spec Let_def ToReportResults_def list_all_iff)

lemma extractObserved_zero:
  "m \<noteq> MetricTargetRPS \<Longrightarrow> m \<noteq> MetricMaxInFlight \<Longrightarrow> fst (extractObserved m zero_snapshot ctx) = F_Fin 0"
  by (simp add: extractObserved_def with_unit_def with_count_def zero_snapshot_def f0_def droppedRate_def
      wrap64_def Let_def)

text \<open>A threshold on a step that never ran is judged against zeros: every upper bound on a measured
  metric of that step passes, whatever the run did.\<close>

lemma missing_step_upper_bound_passes:
  assumes "ParseThreshold m e = Inr t" "StepName t \<noteq> ''''" "map_of steps (StepName t) = None"
    and "Operator t = OpLTE" "is_finite (TargetValue t)"
    and "metricNameToExtract t \<notin> {MetricTargetRPS, MetricMaxInFlight}"
  shows "res_Passed (evaluate_one snap steps ctx t)"
proof -
  have "target_ok (Category t) (TargetValue t) (Unit t)"
    using assms(1) by (rule ParseThreshold_Inr) (rule parse_target_ok)
  then have "\<not> TargetValue t < F_Fin 0"
    using f64_le_less_trans by (cases "Category t") (fastforce simp: target_ok_def)+
  then obtain x where x: "TargetValue t = F_Fin x" "0 \<le> x" using assms(5) by (cases "TargetValue t") auto
  obtain y where y: "floatEpsilon = F_Fin y" "0 \<le> y" by (rule floatEpsilon_finite)
  have "F_Fin 0 \<le> fadd (TargetValue t) floatEpsilon"
    unfolding x(1) y(1) using x(2) y(2) by (simp add: rnd_nonneg)
  moreover have "fst (extractObserved (metricNameToExtract t) zero_snapshot ctx) = F_Fin 0"
    using assms(6) by (intro extractObserved_zero) auto
  ultimately show ?thesis
    using assms(2-4) by (auto simp: evaluate_one_def snapToUse_def compareValues_def op_defs Let_def split: prod.splits)
qed

theorem missing_step_upper_bound_passes_witness:
  "\<exists>t. ParseThreshold ''step.login.p95'' ''<= 500ms'' = Inr t
     \<and> res_Passed (evaluate_one zero_snapshot [] \<lparr>ctx_TargetRPS = f0, ctx_MaxInFlight = 1\<rparr> t)"
proof -
  let ?t = "\<lparr>MetricName = ''step.login.p95'', StepName = ''login'', Category = MetricCategoryLatency, Operator = ''<='',
    TargetRaw = ''500ms'', TargetValue = F_Fin 500, Unit = ''ms'', RawExpression = ''<= 500ms''\<rparr>"
  have p: "ParseThreshold ''step.login.p95'' ''<= 500ms'' = Inr ?t" by code_simp
  moreover have "metricNameToExtract ?t = MetricP95" by code_simp
  ultimately show ?thesis
    using missing_step_upper_bound_passes [OF p, of "[]"] by (simp add: op_defs metric_name_defs)
qed

text \<open>The parser accepts a percentage that is not a number, although rates are documented to lie between
  0\% and 100\%; such a threshold then fails for every observation.\<close>

lemma NaN_target_accepted:
  "\<exists>t. ParseThreshold ''http_error_rate'' ''<= NaN%'' = Inr t \<and>
     (\<forall>snap steps ctx. \<not> res_Passed (evaluate_one snap steps ctx t))"
proof -
  let ?t = "\<lparr>MetricName = ''http_error_rate'', StepName = '''', Category = MetricCategoryRate, Operator = ''<='',
    TargetRaw = ''NaN%'', TargetValue = F_NaN, Unit = ''%'', RawExpression = ''<= NaN%''\<rparr>"
  have p: "ParseThreshold ''http_error_rate'' ''<= NaN%'' = Inr ?t" by code_simp
  have "fadd F_NaN x = F_NaN" for x by (cases x) auto
  then have "\<not> compareValues v F_NaN ''<=''" for v by (simp add: compareValues_def op_defs)
  then show ?thesis using p by (intro exI [of _ ?t]) (simp add: evaluate_one_def Let_def split: prod.splits)
qed

text \<open>The dropped rate is a percentage: within 0 and 100 whenever no more requests were dropped than planned.\<close>

lemma droppedRate_bounds:
  assumes "0 \<le> snap_DroppedRequests snap" "snap_DroppedRequests snap \<le> snap_PlannedRequests snap"
    "snap_PlannedRequests snap < 2 ^ 63" "0 < snap_PlannedRequests snap"
  shows "F_Fin 0 \<le> droppedRate snap \<and> droppedRate snap \<le> F_Fin 100"
  using percent_bounds [OF assms(1,2)] assms by (simp add: droppedRate_def)

theorem droppedRate_bounds_witness:
  "droppedRate (zero_snapshot\<lparr>snap_PlannedRequests := 3, snap_DroppedRequests := 1\<rparr>) \<le> F_Fin 100"
  using droppedRate_bounds [of "zero_snapshot\<lparr>snap_PlannedRequests := 3, snap_DroppedRequests := 1\<rparr>"] by simp

end
