(* ===== verification/Metrics_Aggregate.thy ===== *)
theory Metrics_Aggregate
  imports Metrics_Worker Metrics_Health Threshold_Eval Profile_Compiler
begin

text \<open>
  The aggregation of worker metrics: \<^verbatim>\<open>internal/metrics/aggregate.go\<close> and
  \<^verbatim>\<open>segment.go\<close>. The loop of \<^verbatim>\<open>MergeWorkers\<close> is a fold of
  \<open>merge_worker\<close>, one worker at a time; its counters are instances of the interface
  \<open>additive_counter\<close>. \<^verbatim>\<open>MergeWorkers\<close> and \<^verbatim>\<open>MergeStepWorkers\<close>
  call each other; they end because a step worker is smaller than its worker.
\<close>

section \<open>Data (aggregate.go, segment.go)\<close>

record RequestCounts =
  rc_Planned :: int
  rc_Scheduled :: int
  rc_Started :: int
  rc_Completed :: int
  rc_Canceled :: int
  rc_Dropped :: int

record LatencyPercentiles =
  lp_MinMS :: f64
  lp_MaxMS :: f64
  lp_MeanMS :: f64
  lp_P50MS :: f64
  lp_P90MS :: f64
  lp_P95MS :: f64
  lp_P99MS :: f64

record LatencySummary =
  AllCompleted :: LatencyPercentiles
  ExpectedSuccess :: LatencyPercentiles

record Calibration =
  cal_TargetRPS :: f64
  cal_AchievedStartRPS :: f64
  cal_CompletedThroughput :: f64
  cal_AchievedTargetRatio :: f64
  cal_DroppedCount :: int
  cal_DroppedRate :: f64
  cal_SchedulerLagMaxMS :: f64
  cal_Reliable :: bool
  cal_Warnings :: "string list"

record 'h AggregatedMetrics =
  ag_RequestCounts :: RequestCounts
  ag_Outcomes :: "Outcome \<Rightarrow> int"
  ag_StatusCodes :: "(string \<times> int) list"
  ag_Latency :: LatencySummary
  AllLatencyHist :: 'h
  SuccessLatencyHist :: 'h
  ag_RateLimits :: RateLimitObservations
  TotalBytesSent :: int
  TotalBytesReceived :: int
  ag_Duration :: Duration
  AchievedStartRPS :: f64
  CompletedThroughput :: f64
  ErrorRate :: f64
  RateLimitedRate :: f64
  ag_ErrorSamples :: "ErrorSample list"
  ag_SchedulerLagMaxMS :: f64
  ag_FirstThrottleOffsetNS :: int
  ag_ScenarioIterations :: ScenarioIterationCounts

text \<open>The aggregate with its steps, its segments and the aggregate of the measured segments.\<close>

datatype 'h agg = Agg (ag: "'h AggregatedMetrics") (Steps: "(string \<times> 'h agg) list")
  (ag_Segments: "(Segment \<times> 'h agg \<times> Calibration) list") (Measured: "'h agg option")

section \<open>MergeWorkers (aggregate.go)\<close>

text \<open>The local variables of the loop.\<close>

record 'h merge_state =
  reqCounts :: RequestCounts
  outcomes :: "Outcome \<Rightarrow> int"
  statusCodes :: "(string \<times> int) list"
  allLatencyHist :: 'h
  successLatencyHist :: 'h
  totalBytesSent :: int
  totalBytesReceived :: int
  observed429Count :: int
  retryAfterSamples :: "string list"
  rateLimitHeaders :: "RateLimitHeaderSample list"
  headerConsistency :: "(string \<times> HeaderConsistency) list"
  mergedErrors :: "ErrorSample list"
  scenarioIters :: ScenarioIterationCounts
  schedulerLagMaxMS :: f64
  firstThrottleOffsetNS :: int

definition zero_counts :: RequestCounts where
  "zero_counts = \<lparr>rc_Planned = 0, rc_Scheduled = 0, rc_Started = 0, rc_Completed = 0, rc_Canceled = 0, rc_Dropped = 0\<rparr>"

definition merge_init :: "'h hdr_ops \<Rightarrow> 'h merge_state" where
  "merge_init H = \<lparr>reqCounts = zero_counts, outcomes = (\<lambda>_. 0), statusCodes = [],
     allLatencyHist = NewLatencyHistogram H, successLatencyHist = NewLatencyHistogram H,
     totalBytesSent = 0, totalBytesReceived = 0, observed429Count = 0, retryAfterSamples = [],
     rateLimitHeaders = [], headerConsistency = [], mergedErrors = [], scenarioIters = zero_iterations,
     schedulerLagMaxMS = f0, firstThrottleOffsetNS = - 1\<rparr>"

definition merge_counts :: "RequestCounts \<Rightarrow> 'h WorkerMetrics \<Rightarrow> RequestCounts" where
  "merge_counts c w = \<lparr>rc_Planned = rc_Planned c + Planned w, rc_Scheduled = rc_Scheduled c + Scheduled w,
     rc_Started = rc_Started c + Started w, rc_Completed = rc_Completed c + Completed w,
     rc_Canceled = rc_Canceled c + Canceled w, rc_Dropped = rc_Dropped c + Dropped w\<rparr>"

definition merge_iters :: "ScenarioIterationCounts \<Rightarrow> ScenarioIterationCounts \<Rightarrow> ScenarioIterationCounts" where
  "merge_iters c i = \<lparr>si_Planned = si_Planned c + si_Planned i, si_Started = si_Started c + si_Started i,
     si_Completed = si_Completed c + si_Completed i, si_Failed = si_Failed c + si_Failed i\<rparr>"

definition merge_error :: "ErrorSample list \<Rightarrow> ErrorSample \<Rightarrow> ErrorSample list" where
  "merge_error merged s = (case bump_sample (es_Message s) (es_Class s) (es_Count s) merged of
       Some merged' \<Rightarrow> merged'
     | None \<Rightarrow> if length merged < MaxErrorSamples then merged @ [s] else merged)"

definition earliest_throttle :: "int \<Rightarrow> int \<Rightarrow> int" where
  "earliest_throttle cur w = (if w \<ge> 0 \<and> (cur < 0 \<or> w < cur) then w else cur)"

definition merge_worker :: "'h hdr_ops \<Rightarrow> 'h merge_state \<Rightarrow> 'h worker option \<Rightarrow> metrics_error + 'h merge_state" where
  "merge_worker H s wo = (case wo of None \<Rightarrow> Inr s | Some wk \<Rightarrow>
     (let w = wm wk in
      result_bind (hist_Merge H (allLatencyHist s) (HDRHistogram (AllLatency w))) (\<lambda>allHist.
      result_bind (hist_Merge H (successLatencyHist s) (HDRHistogram (SuccessLatency w))) (\<lambda>successHist.
      Inr \<lparr>reqCounts = merge_counts (reqCounts s) w,
           outcomes = (\<lambda>out. outcomes s out + Outcomes w out),
           statusCodes = foldl (\<lambda>m p. gm_add (Itoa (fst p)) (snd p) m) (statusCodes s) (StatusCodes w),
           allLatencyHist = allHist,
           successLatencyHist = successHist,
           totalBytesSent = totalBytesSent s + BytesSent w,
           totalBytesReceived = totalBytesReceived s + BytesReceived w,
           observed429Count = observed429Count s + Observed429Count (RateLimits w),
           retryAfterSamples = add_samples MaxRateLimitSamples containsString (retryAfterSamples s) (RetryAfterSamples (RateLimits w)),
           rateLimitHeaders = add_samples MaxRateLimitSamples containsHeaderSample (rateLimitHeaders s) (RateLimitHeaders (RateLimits w)),
           headerConsistency = mergeHeaderConsistency (headerConsistency s) (rl_HeaderConsistency (RateLimits w)),
           mergedErrors = foldl merge_error (mergedErrors s) (ErrorSamples w),
           scenarioIters = merge_iters (scenarioIters s) (ScenarioIterations w),
           schedulerLagMaxMS = (if SchedulerLagMaxMS w > schedulerLagMaxMS s then SchedulerLagMaxMS w else schedulerLagMaxMS s),
           firstThrottleOffsetNS = earliest_throttle (firstThrottleOffsetNS s) (FirstThrottleOffsetNS w)\<rparr>))))"

definition per_mille :: "f64 \<Rightarrow> f64" where
  "per_mille x = fdiv x (F_Fin 1000)"

definition calculateLatencyPercentiles :: "'h hdr_ops \<Rightarrow> 'h \<Rightarrow> LatencyPercentiles" where
  "calculateLatencyPercentiles H h =
     (if hist_Count H h = 0
      then \<lparr>lp_MinMS = f0, lp_MaxMS = f0, lp_MeanMS = f0, lp_P50MS = f0, lp_P90MS = f0, lp_P95MS = f0, lp_P99MS = f0\<rparr>
      else \<lparr>lp_MinMS = per_mille (f_of_int (hist_Min H h)), lp_MaxMS = per_mille (f_of_int (hist_Max H h)),
            lp_MeanMS = per_mille (hist_Mean H h),
            lp_P50MS = per_mille (f_of_int (hist_ValueAtQuantile H h (F_Fin 50))),
            lp_P90MS = per_mille (f_of_int (hist_ValueAtQuantile H h (F_Fin 90))),
            lp_P95MS = per_mille (f_of_int (hist_ValueAtQuantile H h (F_Fin 95))),
            lp_P99MS = per_mille (f_of_int (hist_ValueAtQuantile H h (F_Fin 99)))\<rparr>)"

definition percent :: "int \<Rightarrow> int \<Rightarrow> f64" where
  "percent a b = fmul (fdiv (f_of_int a) (f_of_int b)) (F_Fin 100)"

definition error_rate :: "'h merge_state \<Rightarrow> f64" where
  "error_rate s =
     (if rc_Completed (reqCounts s) > 0
      then let nonSuccess = rc_Completed (reqCounts s) - outcomes s OutcomeSuccess
           in percent (if nonSuccess < 0 then 0 else nonSuccess) (rc_Completed (reqCounts s))
      else f0)"

definition rate_limited_rate :: "'h merge_state \<Rightarrow> f64" where
  "rate_limited_rate s =
     (if rc_Completed (reqCounts s) > 0
      then let rateLimitCount = outcomes s OutcomeRateLimited
           in percent (if rateLimitCount = 0 then observed429Count s else rateLimitCount) (rc_Completed (reqCounts s))
      else f0)"

definition per_second :: "int \<Rightarrow> Duration \<Rightarrow> f64" where
  "per_second n duration = (if Seconds duration > F_Fin 0 then fdiv (f_of_int n) (Seconds duration) else f0)"

definition merge_finish :: "'h hdr_ops \<Rightarrow> 'h merge_state \<Rightarrow> Duration \<Rightarrow> 'h AggregatedMetrics" where
  "merge_finish H s duration = \<lparr>
     ag_RequestCounts = reqCounts s, ag_Outcomes = outcomes s, ag_StatusCodes = statusCodes s,
     ag_Latency = \<lparr>AllCompleted = calculateLatencyPercentiles H (allLatencyHist s),
                   ExpectedSuccess = calculateLatencyPercentiles H (successLatencyHist s)\<rparr>,
     AllLatencyHist = allLatencyHist s, SuccessLatencyHist = successLatencyHist s,
     ag_RateLimits = \<lparr>Observed429Count = observed429Count s, RetryAfterSamples = retryAfterSamples s,
        RateLimitHeaders = rateLimitHeaders s, rl_HeaderConsistency = headerConsistency s\<rparr>,
     TotalBytesSent = totalBytesSent s, TotalBytesReceived = totalBytesReceived s, ag_Duration = duration,
     AchievedStartRPS = per_second (rc_Started (reqCounts s)) duration,
     CompletedThroughput = per_second (rc_Completed (reqCounts s)) duration,
     ErrorRate = error_rate s, RateLimitedRate = rate_limited_rate s,
     ag_ErrorSamples = mergedErrors s, ag_SchedulerLagMaxMS = schedulerLagMaxMS s,
     ag_FirstThrottleOffsetNS = firstThrottleOffsetNS s, ag_ScenarioIterations = scenarioIters s\<rparr>"

definition stepNames :: "'h worker option list \<Rightarrow> string list" where
  "stepNames workers = remdups (concat (map (\<lambda>w. case w of None \<Rightarrow> [] | Some wk \<Rightarrow> map fst (StepWorkers wk)) workers))"

definition stepWorkerList :: "'h worker option list \<Rightarrow> string \<Rightarrow> 'h worker option list" where
  "stepWorkerList workers stepName = concat (map (\<lambda>w. case w of None \<Rightarrow> []
     | Some wk \<Rightarrow> (case map_of (StepWorkers wk) stepName of Some (Some sw) \<Rightarrow> [Some sw] | _ \<Rightarrow> [])) workers)"

definition workers_size :: "'h worker option list \<Rightarrow> nat" where
  "workers_size ws = (\<Sum>w\<leftarrow>ws. case w of None \<Rightarrow> 0 | Some wk \<Rightarrow> size wk)"

lemma step_worker_smaller:
  assumes "map_of (StepWorkers wk) n = Some (Some sw)" shows "size sw < size wk"
proof (cases wk)
  case (Worker w steps)
  then have "(n, Some sw) \<in> set steps" using assms map_of_SomeD by fastforce
  then have "size_prod (\<lambda>_. 0) (size_option size) (n, Some sw) \<le> size_list (size_prod (\<lambda>_. 0) (size_option size)) steps"
    by (intro size_list_estimation') auto
  then show ?thesis using Worker by simp
qed

lemma stepWorkerList_smaller:
  fixes ws :: "'h worker option list"
  assumes "n \<in> set (stepNames ws)" shows "workers_size (stepWorkerList ws n) < workers_size ws"
proof -
  let ?one = "\<lambda>w :: 'h worker option. case w of None \<Rightarrow> []
     | Some wk \<Rightarrow> (case map_of (StepWorkers wk) n of Some (Some sw) \<Rightarrow> [Some sw] | _ \<Rightarrow> [])"
  have le: "workers_size (?one w) \<le> workers_size [w]" for w
    using step_worker_smaller by (fastforce simp: workers_size_def split: option.splits)
  have lt: "workers_size (?one (Some wk)) < workers_size [Some wk]" for wk
    using step_worker_smaller [of wk n] by (cases wk) (auto simp: workers_size_def split: option.splits)
  have app: "workers_size (a @ b) = workers_size a + workers_size b" for a b :: "'h worker option list"
    by (simp add: workers_size_def)
  have all: "workers_size (stepWorkerList ws n) \<le> workers_size ws" for ws :: "'h worker option list"
  proof (induction ws)
    case (Cons w ws)
    then show ?case using le [of w] app [of "?one w" "stepWorkerList ws n"] app [of "[w]" ws]
      by (simp add: stepWorkerList_def)
  qed (simp add: stepWorkerList_def)
  from assms obtain wk us vs where ws: "ws = us @ Some wk # vs"
    by (auto simp: stepNames_def split: option.splits) (metis split_list)
  have "stepWorkerList ws n = stepWorkerList us n @ ?one (Some wk) @ stepWorkerList vs n"
    by (simp add: stepWorkerList_def ws)
  then show ?thesis
    using all [of us] all [of vs] lt [of wk] app [of "[Some wk]" vs] by (simp add: app ws)
qed

lemma result_fold_cong [fundef_cong]:
  "s = s' \<Longrightarrow> xs = ys \<Longrightarrow> (\<And>s x. x \<in> set ys \<Longrightarrow> f s x = g s x) \<Longrightarrow> result_fold f s xs = result_fold g s' ys"
proof (induction xs arbitrary: s s' ys)
  case (Cons x xs)
  then show ?case by (auto intro!: result_bind_cong)
qed simp

function (sequential) MergeWorkers ::
    "'h hdr_ops \<Rightarrow> 'h worker option list \<Rightarrow> Duration \<Rightarrow> metrics_error + 'h agg"
  and MergeStepWorkers ::
    "'h hdr_ops \<Rightarrow> 'h worker option list \<Rightarrow> Duration \<Rightarrow> metrics_error + (string \<times> 'h agg) list" where
  "MergeWorkers H workers duration =
     result_bind (result_fold (merge_worker H) (merge_init H) workers) (\<lambda>s.
     result_bind (MergeStepWorkers H workers duration) (\<lambda>stepAggs.
     Inr (Agg (merge_finish H s duration) stepAggs [] None)))"
| "MergeStepWorkers H workers duration =
     result_fold (\<lambda>stepAggs stepName.
       result_bind (MergeWorkers H (stepWorkerList workers stepName) duration)
         (\<lambda>stepAgg. Inr (gm_put stepName stepAgg stepAggs))) [] (stepNames workers)"
  by pat_completeness auto
termination
  by (relation "measures [\<lambda>x. case x of Inl (H, ws, d) \<Rightarrow> workers_size ws | Inr (H, ws, d) \<Rightarrow> workers_size ws,
        \<lambda>x. case x of Inl _ \<Rightarrow> 1 | Inr _ \<Rightarrow> 0]") (auto simp: stepWorkerList_smaller)

declare MergeWorkers.simps [simp del] MergeStepWorkers.simps [simp del]

section \<open>Snapshots for the thresholds (aggregate.go)\<close>

definition ToThresholdSnapshot :: "'h hdr_ops \<Rightarrow> 'h agg option \<Rightarrow> MetricsSnapshot" where
  "ToThresholdSnapshot H ao = (case ao of None \<Rightarrow> zero_snapshot | Some g \<Rightarrow>
     (let a = ag g; c = ag_RequestCounts a; l = AllCompleted (ag_Latency a);
          p999 = (if hist_Count H (AllLatencyHist a) > 0
                  then per_mille (f_of_int (hist_ValueAtQuantile H (AllLatencyHist a) (rnd (999 / 10))))
                  else lp_P99MS l)
      in \<lparr>snap_PlannedRequests = rc_Planned c, snap_ScheduledRequests = rc_Scheduled c,
          snap_StartedRequests = rc_Started c, snap_CompletedRequests = rc_Completed c,
          snap_CanceledRequests = rc_Canceled c, snap_DroppedRequests = rc_Dropped c,
          snap_SuccessfulRequests = ag_Outcomes a OutcomeSuccess,
          snap_MinLatencyMS = lp_MinMS l, snap_MaxLatencyMS = lp_MaxMS l, snap_MeanLatencyMS = lp_MeanMS l,
          snap_P50LatencyMS = lp_P50MS l, snap_P90LatencyMS = lp_P90MS l, snap_P95LatencyMS = lp_P95MS l,
          snap_P99LatencyMS = lp_P99MS l, snap_P999LatencyMS = p999,
          snap_AchievedStartRPS = AchievedStartRPS a, snap_CompletedThroughput = CompletedThroughput a,
          snap_ErrorRate = ErrorRate a, snap_RateLimitedRate = RateLimitedRate a\<rparr>))"

definition ToStepThresholdSnapshots :: "'h hdr_ops \<Rightarrow> 'h agg option \<Rightarrow> (string \<times> MetricsSnapshot) list" where
  "ToStepThresholdSnapshots H ao = (case ao of None \<Rightarrow> []
     | Some g \<Rightarrow> map (\<lambda>(stepName, stepAgg). (stepName, ToThresholdSnapshot H (Some stepAgg))) (Steps g))"

section \<open>Segments (segment.go)\<close>

definition MinimumReliableAchievedRatio :: f64 where "MinimumReliableAchievedRatio = rnd (95 / 100)"

text \<open>The destination after the call and the error; the counters are added before the histograms are merged.\<close>

definition mergeWorkerMetrics ::
  "'h hdr_ops \<Rightarrow> 'h WorkerMetrics \<Rightarrow> 'h WorkerMetrics \<Rightarrow> 'h WorkerMetrics \<times> metrics_error option" where
  "mergeWorkerMetrics H dst src =
     (let d = dst\<lparr>Planned := Planned dst + Planned src, Scheduled := Scheduled dst + Scheduled src,
                  Started := Started dst + Started src, Completed := Completed dst + Completed src,
                  Canceled := Canceled dst + Canceled src, Dropped := Dropped dst + Dropped src,
                  Outcomes := (\<lambda>out. Outcomes dst out + Outcomes src out),
                  StatusCodes := foldl (\<lambda>m p. gm_add (fst p) (snd p) m) (StatusCodes dst) (StatusCodes src)\<rparr>
      in case hist_Merge H (AllLatency d) (HDRHistogram (AllLatency src)) of
          Inl e \<Rightarrow> (d, Some e)
        | Inr allH \<Rightarrow>
            (let d = d\<lparr>AllLatency := allH\<rparr> in
             case hist_Merge H (SuccessLatency d) (HDRHistogram (SuccessLatency src)) of
                Inl e \<Rightarrow> (d, Some e)
              | Inr successH \<Rightarrow>
                  (d\<lparr>SuccessLatency := successH,
                     BytesSent := BytesSent d + BytesSent src,
                     BytesReceived := BytesReceived d + BytesReceived src,
                     RateLimits := \<lparr>
                       Observed429Count = Observed429Count (RateLimits d) + Observed429Count (RateLimits src),
                       RetryAfterSamples = add_samples MaxRateLimitSamples containsString
                         (RetryAfterSamples (RateLimits d)) (RetryAfterSamples (RateLimits src)),
                       RateLimitHeaders = add_samples MaxRateLimitSamples containsHeaderSample
                         (RateLimitHeaders (RateLimits d)) (RateLimitHeaders (RateLimits src)),
                       rl_HeaderConsistency = mergeHeaderConsistency
                         (rl_HeaderConsistency (RateLimits d)) (rl_HeaderConsistency (RateLimits src))\<rparr>,
                     ErrorSamples := foldl (\<lambda>ss s. recordErrorSample ss (es_Message s) (es_Class s)) (ErrorSamples d) (ErrorSamples src),
                     SchedulerLagMaxMS := (if SchedulerLagMaxMS src > SchedulerLagMaxMS d then SchedulerLagMaxMS src else SchedulerLagMaxMS d),
                     FirstThrottleOffsetNS := earliest_throttle (FirstThrottleOffsetNS d) (FirstThrottleOffsetNS src)\<rparr>,
                   None)))"

record 'h SegmentCollector =
  accumulators :: "'h worker list"
  col_err :: "metrics_error option"

definition NewSegmentCollector :: "'h hdr_ops \<Rightarrow> int \<Rightarrow> 'h SegmentCollector" where
  "NewSegmentCollector H segmentCount = \<lparr>accumulators = map (NewWorker H) [0..segmentCount - 1], col_err = None\<rparr>"

text \<open>A nil collector ignores every flush; the receiver here is not nil.\<close>

definition Flush :: "'h hdr_ops \<Rightarrow> 'h SegmentCollector \<Rightarrow> int \<Rightarrow> 'h worker option \<Rightarrow> 'h SegmentCollector" where
  "Flush H col segmentIndex source = (case source of None \<Rightarrow> col | Some src \<Rightarrow>
     (if col_err col \<noteq> None then col
      else if segmentIndex < 0 \<or> segmentIndex \<ge> int (length (accumulators col))
      then col\<lparr>col_err := Some (ErrSegmentIndex segmentIndex)\<rparr>
      else let i = nat segmentIndex;
               (d, e) = mergeWorkerMetrics H (wm (accumulators col ! i)) (wm src)
           in \<lparr>accumulators = (accumulators col)[i := Worker d (StepWorkers (accumulators col ! i))], col_err = e\<rparr>))"

definition Snapshots :: "'h hdr_ops \<Rightarrow> 'h SegmentCollector \<Rightarrow> metrics_error + 'h worker list" where
  "Snapshots H col = (case col_err col of Some e \<Rightarrow> Inl e | None \<Rightarrow> Inr (map (Snapshot H) (accumulators col)))"

definition restore_status :: "(int \<times> int) list \<Rightarrow> string \<times> int \<Rightarrow> metrics_error + (int \<times> int) list" where
  "restore_status codes p = (case ParseInt (fst p) of
       None \<Rightarrow> Inl (ErrAtoi (fst p)) | Some code \<Rightarrow> Inr (gm_put code (snd p) codes))"

definition worker_of_aggregate :: "'h hdr_ops \<Rightarrow> int \<Rightarrow> 'h agg \<Rightarrow> metrics_error + 'h worker" where
  "worker_of_aggregate H index g =
     (let a = ag g; c = ag_RequestCounts a in
      result_bind (result_fold restore_status [] (ag_StatusCodes a)) (\<lambda>codes.
      Inr (Worker ((NewWorkerMetrics H index)\<lparr>
        Planned := rc_Planned c, Scheduled := rc_Scheduled c, Started := rc_Started c,
        Completed := rc_Completed c, Canceled := rc_Canceled c, Dropped := rc_Dropped c,
        Outcomes := ag_Outcomes a, StatusCodes := codes,
        AllLatency := hist_Copy H (AllLatencyHist a), SuccessLatency := hist_Copy H (SuccessLatencyHist a),
        BytesSent := TotalBytesSent a, BytesReceived := TotalBytesReceived a,
        RateLimits := ag_RateLimits a, ErrorSamples := ag_ErrorSamples a,
        SchedulerLagMaxMS := ag_SchedulerLagMaxMS a, FirstThrottleOffsetNS := ag_FirstThrottleOffsetNS a\<rparr>) [])))"

definition collect_aggregate ::
  "'h hdr_ops \<Rightarrow> 'h worker option list \<Rightarrow> int \<times> 'h agg option \<Rightarrow> metrics_error + 'h worker option list" where
  "collect_aggregate H workers p = (case snd p of None \<Rightarrow> Inr workers
     | Some g \<Rightarrow> result_bind (worker_of_aggregate H (fst p) g) (\<lambda>w. Inr (workers @ [Some w])))"

definition MergeAggregates :: "'h hdr_ops \<Rightarrow> 'h agg option list \<Rightarrow> Duration \<Rightarrow> metrics_error + 'h agg" where
  "MergeAggregates H inputs duration =
     result_bind (result_fold (collect_aggregate H) [] (zip [0..int (length inputs) - 1] inputs))
       (\<lambda>workers. MergeWorkers H workers duration)"

definition BuildCalibration :: "f64 \<Rightarrow> 'h agg option \<Rightarrow> Calibration" where
  "BuildCalibration targetRPS ao = (case ao of
       None \<Rightarrow> \<lparr>cal_TargetRPS = targetRPS, cal_AchievedStartRPS = f0, cal_CompletedThroughput = f0,
          cal_AchievedTargetRatio = f0, cal_DroppedCount = 0, cal_DroppedRate = f0, cal_SchedulerLagMaxMS = f0,
          cal_Reliable = True, cal_Warnings = []\<rparr>
     | Some g \<Rightarrow>
         (let a = ag g; c = ag_RequestCounts a;
              ratio = (if targetRPS > F_Fin 0 then fdiv (AchievedStartRPS a) targetRPS else f0);
              slow = ratio < MinimumReliableAchievedRatio;
              lagging = ag_SchedulerLagMaxMS a > SchedulerLagWarningThresholdMS;
              dropping = rc_Dropped c > 0
          in \<lparr>cal_TargetRPS = targetRPS, cal_AchievedStartRPS = AchievedStartRPS a,
              cal_CompletedThroughput = CompletedThroughput a, cal_AchievedTargetRatio = ratio,
              cal_DroppedCount = rc_Dropped c,
              cal_DroppedRate = (if rc_Planned c > 0 then percent (rc_Dropped c) (rc_Planned c) else f0),
              cal_SchedulerLagMaxMS = ag_SchedulerLagMaxMS a,
              cal_Reliable = (\<not> slow \<and> \<not> lagging \<and> \<not> dropping),
              cal_Warnings = (if slow then [''achieved start rate was below 95% of target''] else [])
                @ (if lagging then [''scheduler lag exceeded the reliability threshold''] else [])
                @ (if dropping then [''max_in_flight caused dropped requests''] else [])\<rparr>))"

section \<open>The merge loop\<close>

definition raw_merge :: "'h hdr_ops \<Rightarrow> 'h \<Rightarrow> 'h \<Rightarrow> 'h" where
  "raw_merge H h g = (if hdr_TotalCount H g = 0 then h else hdr_Merge H h g)"

lemma hist_Merge_HDR [simp]: "hist_Merge H h (HDRHistogram g) = Inr (raw_merge H h g)"
  by (simp add: hist_Merge_def raw_merge_def)

lemma raw_merge_count:
  assumes "hdr_laws H ok" "ok h" "ok g"
  shows "ok (raw_merge H h g)" "hist_Count H (raw_merge H h g) = hist_Count H h + hist_Count H g"
  using assms by (auto simp: hdr_laws_def raw_merge_def hist_Count_def)

lemma merge_worker_total: "\<exists>s'. merge_worker H s w = Inr s'"
  by (simp add: merge_worker_def Let_def split: option.split)

lemma result_fold_ok:
  "(\<And>s x. x \<in> set xs \<Longrightarrow> \<exists>t. f s x = Inr t) \<Longrightarrow> \<exists>t. result_fold f s xs = Inr t"
proof (induction xs arbitrary: s)
  case (Cons x xs)
  then obtain t where "f s x = Inr t" by (meson list.set_intros(1))
  moreover have "\<exists>u. result_fold f t xs = Inr u" by (rule Cons.IH) (rule Cons.prems, simp)
  ultimately show ?case by simp
qed simp

text \<open>The contribution of the workers to a counter.\<close>

definition worker_val :: "('h WorkerMetrics \<Rightarrow> int) \<Rightarrow> 'h worker option \<Rightarrow> int" where
  "worker_val f w = (case w of None \<Rightarrow> 0 | Some wk \<Rightarrow> f (wm wk))"

definition sum_workers :: "('h WorkerMetrics \<Rightarrow> int) \<Rightarrow> 'h worker option list \<Rightarrow> int" where
  "sum_workers f ws = (\<Sum>w\<leftarrow>ws. worker_val f w)"

definition status_val :: "string \<Rightarrow> 'h WorkerMetrics \<Rightarrow> int" where
  "status_val k w = (\<Sum>p\<leftarrow>StatusCodes w. if Itoa (fst p) = k then snd p else 0)"

lemma gm_get_fold_key:
  "gm_get 0 (foldl (\<lambda>m p. gm_add (key (fst p)) (snd p) m) dst src) k =
   gm_get 0 dst k + (\<Sum>p\<leftarrow>src. if key (fst p) = k then snd p else 0)"
  by (induction src arbitrary: dst) auto

lemmas merge_worker_simps = merge_worker_def merge_counts_def worker_val_def Let_def

interpretation m_planned: additive_counter "merge_worker H" "\<lambda>s. rc_Planned (reqCounts s)" "worker_val Planned" for H
  by unfold_locales (auto simp: merge_worker_simps split: option.splits)

interpretation m_scheduled: additive_counter "merge_worker H" "\<lambda>s. rc_Scheduled (reqCounts s)" "worker_val Scheduled" for H
  by unfold_locales (auto simp: merge_worker_simps split: option.splits)

interpretation m_started: additive_counter "merge_worker H" "\<lambda>s. rc_Started (reqCounts s)" "worker_val Started" for H
  by unfold_locales (auto simp: merge_worker_simps split: option.splits)

interpretation m_completed: additive_counter "merge_worker H" "\<lambda>s. rc_Completed (reqCounts s)" "worker_val Completed" for H
  by unfold_locales (auto simp: merge_worker_simps split: option.splits)

interpretation m_canceled: additive_counter "merge_worker H" "\<lambda>s. rc_Canceled (reqCounts s)" "worker_val Canceled" for H
  by unfold_locales (auto simp: merge_worker_simps split: option.splits)

interpretation m_dropped: additive_counter "merge_worker H" "\<lambda>s. rc_Dropped (reqCounts s)" "worker_val Dropped" for H
  by unfold_locales (auto simp: merge_worker_simps split: option.splits)

interpretation m_outcome: additive_counter "merge_worker H" "\<lambda>s. outcomes s out" "worker_val (\<lambda>w. Outcomes w out)" for H out
  by unfold_locales (auto simp: merge_worker_simps split: option.splits)

interpretation m_status: additive_counter "merge_worker H" "\<lambda>s. gm_get 0 (statusCodes s) k" "worker_val (status_val k)" for H k
  by unfold_locales (auto simp: merge_worker_simps status_val_def gm_get_fold_key split: option.splits)

interpretation m_received: additive_counter "merge_worker H" totalBytesReceived "worker_val BytesReceived" for H
  by unfold_locales (auto simp: merge_worker_simps split: option.splits)

interpretation m_sent: additive_counter "merge_worker H" totalBytesSent "worker_val BytesSent" for H
  by unfold_locales (auto simp: merge_worker_simps split: option.splits)

interpretation m_429: additive_counter "merge_worker H" observed429Count "worker_val (\<lambda>w. Observed429Count (RateLimits w))" for H
  by unfold_locales (auto simp: merge_worker_simps split: option.splits)

lemma merge_fold_totals:
  assumes "result_fold (merge_worker H) (merge_init H) ws = Inr s"
  shows "reqCounts s = \<lparr>rc_Planned = sum_workers Planned ws, rc_Scheduled = sum_workers Scheduled ws, rc_Started = sum_workers Started ws,
      rc_Completed = sum_workers Completed ws, rc_Canceled = sum_workers Canceled ws, rc_Dropped = sum_workers Dropped ws\<rparr>"
    and "outcomes s out = sum_workers (\<lambda>w. Outcomes w out) ws"
    and "gm_get 0 (statusCodes s) k = sum_workers (status_val k) ws"
    and "totalBytesSent s = sum_workers BytesSent ws" "totalBytesReceived s = sum_workers BytesReceived ws"
    and "observed429Count s = sum_workers (\<lambda>w. Observed429Count (RateLimits w)) ws"
proof -
  have "rc_Planned (reqCounts s) = sum_workers Planned ws" "rc_Scheduled (reqCounts s) = sum_workers Scheduled ws"
    "rc_Started (reqCounts s) = sum_workers Started ws" "rc_Completed (reqCounts s) = sum_workers Completed ws"
    "rc_Canceled (reqCounts s) = sum_workers Canceled ws" "rc_Dropped (reqCounts s) = sum_workers Dropped ws"
    using m_planned.get_fold [OF assms] m_scheduled.get_fold [OF assms] m_started.get_fold [OF assms]
      m_completed.get_fold [OF assms] m_canceled.get_fold [OF assms] m_dropped.get_fold [OF assms]
    by (simp_all add: merge_init_def zero_counts_def sum_workers_def)
  then show "reqCounts s = \<lparr>rc_Planned = sum_workers Planned ws, rc_Scheduled = sum_workers Scheduled ws, rc_Started = sum_workers Started ws,
      rc_Completed = sum_workers Completed ws, rc_Canceled = sum_workers Canceled ws, rc_Dropped = sum_workers Dropped ws\<rparr>"
    by (cases "reqCounts s") simp
  show "outcomes s out = sum_workers (\<lambda>w. Outcomes w out) ws" "gm_get 0 (statusCodes s) k = sum_workers (status_val k) ws"
    "totalBytesSent s = sum_workers BytesSent ws" "totalBytesReceived s = sum_workers BytesReceived ws"
    "observed429Count s = sum_workers (\<lambda>w. Observed429Count (RateLimits w)) ws"
    using m_outcome.get_fold [OF assms, of out] m_status.get_fold [OF assms, of k] m_sent.get_fold [OF assms]
      m_received.get_fold [OF assms] m_429.get_fold [OF assms]
    by (simp_all add: merge_init_def sum_workers_def gm_get_def)
qed

lemma MergeWorkers_total_and_steps:
  "\<exists>a. MergeWorkers H ws d = Inr a" "\<exists>x. MergeStepWorkers H ws d = Inr x"
proof (induction H ws d and H ws d rule: MergeWorkers_MergeStepWorkers.induct)
  case (1 H ws d)
  obtain s where s: "result_fold (merge_worker H) (merge_init H) ws = Inr s"
    using result_fold_ok [of ws "merge_worker H" "merge_init H"] merge_worker_total by blast
  with 1 [OF s] show ?case by (auto simp: MergeWorkers.simps [of H ws d])
next
  case (2 H ws d)
  show ?case unfolding MergeStepWorkers.simps [of H ws d]
  proof (rule result_fold_ok)
    fix s n assume "n \<in> set (stepNames ws)"
    with 2 obtain a where "MergeWorkers H (stepWorkerList ws n) d = Inr a" by blast
    then show "\<exists>t. result_bind (MergeWorkers H (stepWorkerList ws n) d) (\<lambda>a. Inr (gm_put n a s)) = Inr t" by simp
  qed
qed

lemma step_fold_lookup:
  assumes "result_fold (\<lambda>aggs n. result_bind (F n) (\<lambda>a. Inr (gm_put n a aggs))) aggs ns = Inr aggs'"
  shows "if n \<in> set ns then F n = Inr (the (map_of aggs' n)) \<and> map_of aggs' n \<noteq> None else map_of aggs' n = map_of aggs n"
  using assms
proof (induction ns arbitrary: aggs)
  case (Cons m ns)
  then obtain a where a: "F m = Inr a"
    "result_fold (\<lambda>aggs n. result_bind (F n) (\<lambda>a. Inr (gm_put n a aggs))) (gm_put m a aggs) ns = Inr aggs'"
    by (auto simp: result_bind_Inr)
  show ?case using Cons.IH [OF a(2)] a(1) by (cases "n \<in> set ns") auto
qed simp

lemma MergeWorkers_Inr:
  assumes "MergeWorkers H ws d = Inr a"
  obtains s where "result_fold (merge_worker H) (merge_init H) ws = Inr s" "ag a = merge_finish H s d"
    "MergeStepWorkers H ws d = Inr (Steps a)" "ag_Segments a = []" "Measured a = None"
  using assms by (auto simp: MergeWorkers.simps [of H ws d] result_bind_Inr)

lemma MergeStepWorkers_lookup:
  assumes "MergeStepWorkers H ws d = Inr steps"
  shows "case map_of steps n of None \<Rightarrow> n \<notin> set (stepNames ws)
    | Some sa \<Rightarrow> n \<in> set (stepNames ws) \<and> MergeWorkers H (stepWorkerList ws n) d = Inr sa"
  using step_fold_lookup [OF assms [unfolded MergeStepWorkers.simps [of H ws d]], of n]
  by (auto split: option.splits if_splits)

text \<open>The request counters of an aggregate, for the schedulers.\<close>

lemma MergeWorkers_counts:
  "\<exists>a. MergeWorkers H ws d = Inr a \<and> ag_RequestCounts (ag a) = \<lparr>rc_Planned = sum_workers Planned ws,
     rc_Scheduled = sum_workers Scheduled ws, rc_Started = sum_workers Started ws, rc_Completed = sum_workers Completed ws,
     rc_Canceled = sum_workers Canceled ws, rc_Dropped = sum_workers Dropped ws\<rparr>"
proof -
  obtain a where a: "MergeWorkers H ws d = Inr a" using MergeWorkers_total_and_steps(1) by blast
  then obtain s where s: "result_fold (merge_worker H) (merge_init H) ws = Inr s" "ag a = merge_finish H s d"
    by (rule MergeWorkers_Inr)
  show ?thesis using a s(2) merge_fold_totals(1) [OF s(1)] by (simp add: merge_finish_def)
qed

section \<open>Properties of aggregation\<close>


lemma percent_range:
  assumes "0 \<le> a" "a \<le> b" "0 < b" "b < 2 ^ 63"
  shows "F_Fin 0 \<le> percent a b" "percent a b \<le> F_Fin 100"
  using percent_bounds [OF assms] by (simp_all add: percent_def)

text \<open>The aggregated error rate is a percentage: with a non-negative number of successes it lies between 0 and 100,
  even where more successes than completions were counted; the rate-limited rate is one as long as no more
  responses were rate limited than completed.\<close>

lemma MergeWorkers_rates:
  assumes "MergeWorkers H ws d = Inr a"
    and "0 \<le> sum_workers (\<lambda>w. Outcomes w OutcomeSuccess) ws" "sum_workers Completed ws < 2 ^ 63"
    and "0 \<le> sum_workers (\<lambda>w. Outcomes w OutcomeRateLimited) ws"
      "sum_workers (\<lambda>w. Outcomes w OutcomeRateLimited) ws \<le> sum_workers Completed ws"
    and "0 \<le> sum_workers (\<lambda>w. Observed429Count (RateLimits w)) ws"
      "sum_workers (\<lambda>w. Observed429Count (RateLimits w)) ws \<le> sum_workers Completed ws"
  shows "F_Fin 0 \<le> ErrorRate (ag a) \<and> ErrorRate (ag a) \<le> F_Fin 100
    \<and> F_Fin 0 \<le> RateLimitedRate (ag a) \<and> RateLimitedRate (ag a) \<le> F_Fin 100"
  using assms(1)
proof (rule MergeWorkers_Inr)
  fix s
  assume s: "result_fold (merge_worker H) (merge_init H) ws = Inr s" "ag a = merge_finish H s d"
  note t = merge_fold_totals [OF s(1)]
  have "F_Fin 0 \<le> error_rate s \<and> error_rate s \<le> F_Fin 100"
    using percent_range assms(2,3) t(1) t(2) [of OutcomeSuccess] by (auto simp: error_rate_def Let_def f0_def)
  moreover have "F_Fin 0 \<le> rate_limited_rate s \<and> rate_limited_rate s \<le> F_Fin 100"
    using percent_range assms(3-) t(1) t(2) [of OutcomeRateLimited] t(6)
    by (auto simp: rate_limited_rate_def Let_def f0_def)
  ultimately show ?thesis using s(2) by (simp add: merge_finish_def)
qed

definition sample_worker :: "int list worker" where
  "sample_worker = Worker ((record_all exact_hdr (NewWorkerMetrics exact_hdr 0)
      [sample_result OutcomeSuccess 200, sample_result OutcomeUnexpectedStatus 500])\<lparr>Started := 2, Completed := 2\<rparr>) []"

lemma sample_worker_vals:
  "Outcomes (wm sample_worker) OutcomeSuccess = 1" "Outcomes (wm sample_worker) OutcomeRateLimited = 0"
  "Completed (wm sample_worker) = 2" "Observed429Count (RateLimits (wm sample_worker)) = 0"
  by (simp_all add: sample_worker_def record_all_counters NewWorkerMetrics_def tally_def sample_result_def)

theorem MergeWorkers_rates_witness:
  "\<exists>a. MergeWorkers exact_hdr [Some sample_worker, None] Second = Inr a \<and> ErrorRate (ag a) \<le> F_Fin 100"
proof -
  obtain a where a: "MergeWorkers exact_hdr [Some sample_worker, None] Second = Inr a"
    using MergeWorkers_total_and_steps(1) by blast
  from MergeWorkers_rates [OF a] a show ?thesis by (simp add: sum_workers_def worker_val_def sample_worker_vals)
qed

lemma merge_fold_latency:
  assumes laws: "hdr_laws H ok" and "result_fold (merge_worker H) s ws = Inr s'"
    and "ok (allLatencyHist s)" "\<forall>w. Some w \<in> set ws \<longrightarrow> ok (AllLatency (wm w))"
  shows "ok (allLatencyHist s') \<and>
    hist_Count H (allLatencyHist s') = hist_Count H (allLatencyHist s) + sum_workers (\<lambda>w. hist_Count H (AllLatency w)) ws"
  using assms(2-)
proof (induction ws arbitrary: s)
  case (Cons w ws)
  then obtain t where t: "merge_worker H s w = Inr t" "result_fold (merge_worker H) t ws = Inr s'"
    by (auto simp: result_bind_Inr)
  have "ok (allLatencyHist t) \<and> hist_Count H (allLatencyHist t) =
      hist_Count H (allLatencyHist s) + worker_val (\<lambda>w. hist_Count H (AllLatency w)) w"
    using t(1) Cons.prems raw_merge_count [OF laws]
    by (cases w) (auto simp: merge_worker_def worker_val_def Let_def)
  then show ?case using Cons.IH [OF t(2)] Cons.prems by (simp add: sum_workers_def)
qed (simp add: sum_workers_def)

text \<open>No latency sample is lost in aggregation: the merged histogram holds as many values as the workers'
  histograms together.\<close>

lemma MergeWorkers_latency_count:
  assumes "hdr_laws H ok" "\<forall>w. Some w \<in> set ws \<longrightarrow> ok (AllLatency (wm w))" "MergeWorkers H ws d = Inr a"
  shows "hist_Count H (AllLatencyHist (ag a)) = sum_workers (\<lambda>w. hist_Count H (AllLatency w)) ws"
  using assms(3)
proof (rule MergeWorkers_Inr)
  fix s
  assume s: "result_fold (merge_worker H) (merge_init H) ws = Inr s" "ag a = merge_finish H s d"
  have "ok (allLatencyHist (merge_init H))" "hist_Count H (allLatencyHist (merge_init H)) = 0"
    using assms(1) by (simp_all add: hdr_laws_def merge_init_def hist_Count_def)
  then show ?thesis using merge_fold_latency [OF assms(1) s(1) _ assms(2)] s(2) by (simp add: merge_finish_def)
qed

theorem MergeWorkers_latency_count_witness:
  "\<exists>a. MergeWorkers exact_hdr [Some sample_worker, Some sample_worker] Second = Inr a
     \<and> hist_Count exact_hdr (AllLatencyHist (ag a)) = 4"
proof -
  obtain a where a: "MergeWorkers exact_hdr [Some sample_worker, Some sample_worker] Second = Inr a"
    using MergeWorkers_total_and_steps(1) by blast
  have "hist_Count exact_hdr (AllLatency (wm sample_worker)) = 2"
    by (simp add: sample_worker_def record_all_def RecordResult_def sample_result_def NewWorkerMetrics_def Let_def
        hist_Record_def hist_Count_def exact_hdr_def NewLatencyHistogram_def clamp_latency_def latency_limits)
  then show ?thesis using MergeWorkers_latency_count [OF exact_hdr_laws _ a] a
    by (simp add: sum_workers_def worker_val_def)
qed

section \<open>Properties of segments\<close>

lemma mergeWorkerMetrics_ok [simp]: "snd (mergeWorkerMetrics H d s) = None"
  by (simp add: mergeWorkerMetrics_def Let_def)

lemma mergeWorkerMetrics_counters [counter_simps]:
  "Planned (fst (mergeWorkerMetrics H d s)) = Planned d + Planned s"
  "Scheduled (fst (mergeWorkerMetrics H d s)) = Scheduled d + Scheduled s"
  "Started (fst (mergeWorkerMetrics H d s)) = Started d + Started s"
  "Completed (fst (mergeWorkerMetrics H d s)) = Completed d + Completed s"
  "Canceled (fst (mergeWorkerMetrics H d s)) = Canceled d + Canceled s"
  "Dropped (fst (mergeWorkerMetrics H d s)) = Dropped d + Dropped s"
  "Outcomes (fst (mergeWorkerMetrics H d s)) out = Outcomes d out + Outcomes s out"
  by (simp_all add: mergeWorkerMetrics_def Let_def)

text \<open>A sequence of flushes, each of a worker into a segment.\<close>

definition flush_all :: "'h hdr_ops \<Rightarrow> 'h SegmentCollector \<Rightarrow> (int \<times> 'h worker) list \<Rightarrow> 'h SegmentCollector" where
  "flush_all H col fs = foldl (\<lambda>col (i, w). Flush H col i (Some w)) col fs"

lemma Flush_in_range:
  assumes "col_err col = None" "0 \<le> i" "i < int (length (accumulators col))"
  shows "col_err (Flush H col i (Some w)) = None"
    and "length (accumulators (Flush H col i (Some w))) = length (accumulators col)"
    and "j < length (accumulators col) \<Longrightarrow> wm (accumulators (Flush H col i (Some w)) ! j) =
      (if int j = i then fst (mergeWorkerMetrics H (wm (accumulators col ! j)) (wm w)) else wm (accumulators col ! j))"
proof -
  let ?m = "mergeWorkerMetrics H (wm (accumulators col ! nat i)) (wm w)"
  have f: "Flush H col i (Some w) =
      \<lparr>accumulators = (accumulators col)[nat i := Worker (fst ?m) (StepWorkers (accumulators col ! nat i))], col_err = snd ?m\<rparr>"
    using assms by (cases ?m) (simp add: Flush_def Let_def)
  show "col_err (Flush H col i (Some w)) = None"
    "length (accumulators (Flush H col i (Some w))) = length (accumulators col)"
    by (simp_all add: f)
  show "wm (accumulators (Flush H col i (Some w)) ! j) =
      (if int j = i then fst (mergeWorkerMetrics H (wm (accumulators col ! j)) (wm w)) else wm (accumulators col ! j))"
    if "j < length (accumulators col)"
  proof (cases "nat i = j")
    case True
    then show ?thesis using that assms(2) by (auto simp: f)
  next
    case False
    then have "int j \<noteq> i" by auto
    then show ?thesis using False by (simp add: f)
  qed
qed

lemma flush_all_counter:
  fixes get :: "'h WorkerMetrics \<Rightarrow> int"
  assumes f: "\<And>d s. get (fst (mergeWorkerMetrics H d s)) = get d + get s"
    and "col_err col = None" "\<forall>p\<in>set fs. 0 \<le> fst p \<and> fst p < int (length (accumulators col))"
    and "j < length (accumulators col)"
  shows "col_err (flush_all H col fs) = None \<and> length (accumulators (flush_all H col fs)) = length (accumulators col)
    \<and> get (wm (accumulators (flush_all H col fs) ! j)) =
        get (wm (accumulators col ! j)) + (\<Sum>p\<leftarrow>filter (\<lambda>p. fst p = int j) fs. get (wm (snd p)))"
  using assms(2-) unfolding flush_all_def
proof (induction fs arbitrary: col)
  case (Cons p fs)
  obtain i w where p: "p = (i, w)" by (cases p)
  have i: "0 \<le> i" "i < int (length (accumulators col))" using Cons.prems(2) p by auto
  note F = Flush_in_range [OF Cons.prems(1) i, where H = H and w = w]
  have "get (wm (accumulators (Flush H col i (Some w)) ! j)) =
      get (wm (accumulators col ! j)) + (if i = int j then get (wm w) else 0)"
    using F(3) [OF Cons.prems(3)] f by auto
  then show ?case using Cons.IH [of "Flush H col i (Some w)"] Cons.prems F(1,2) p by auto
qed simp



text \<open>A flush into a segment that does not exist is recorded once and for all: the collector keeps the error,
  ignores every later flush and refuses to give snapshots.\<close>

lemma Flush_error_sticky:
  assumes "i < 0 \<or> int (length (accumulators col)) \<le> i" "col_err col = None"
  shows "flush_all H (Flush H col i (Some w)) fs = col\<lparr>col_err := Some (ErrSegmentIndex i)\<rparr>
    \<and> Snapshots H (flush_all H (Flush H col i (Some w)) fs) = Inl (ErrSegmentIndex i)"
proof -
  have "Flush H col i (Some w) = col\<lparr>col_err := Some (ErrSegmentIndex i)\<rparr>" using assms by (auto simp: Flush_def)
  moreover have "flush_all H (col\<lparr>col_err := Some e\<rparr>) fs = col\<lparr>col_err := Some e\<rparr>" for e
    unfolding flush_all_def by (rule foldl_invariant) (auto simp: Flush_def split: prod.splits)
  ultimately show ?thesis by (simp add: Snapshots_def)
qed

lemma Flush_error_sticky_witness:
  "Snapshots exact_hdr (flush_all exact_hdr (Flush exact_hdr (NewSegmentCollector exact_hdr 1) 3 (Some sample_worker)) [])
     = Inl (ErrSegmentIndex 3)"
  by (rule conjunct2 [OF Flush_error_sticky]) (simp_all add: NewSegmentCollector_def)

text \<open>A segment is reported as reliable exactly when it carries no warning: it reached 95\% of its target
  rate, its scheduler lag stayed within 50 ms and nothing was dropped.\<close>

lemma BuildCalibration_reliable:
  "(cal_Reliable (BuildCalibration rps (Some g)) \<longleftrightarrow> cal_Warnings (BuildCalibration rps (Some g)) = [])
   \<and> (cal_Reliable (BuildCalibration rps (Some g)) \<longleftrightarrow>
     \<not> cal_AchievedTargetRatio (BuildCalibration rps (Some g)) < MinimumReliableAchievedRatio
     \<and> \<not> ag_SchedulerLagMaxMS (ag g) > F_Fin 50 \<and> rc_Dropped (ag_RequestCounts (ag g)) \<le> 0)"
  by (auto simp: BuildCalibration_def Let_def SchedulerLagWarningThresholdMS_def)

section \<open>Merging aggregates\<close>

text \<open>Status codes are restored from their decimal names.\<close>

definition decimal_keys :: "(string \<times> int) list \<Rightarrow> bool" where
  "decimal_keys m \<longleftrightarrow> distinct (map fst m) \<and> (\<forall>p\<in>set m. \<exists>c. int64 c \<and> fst p = Itoa c)"

lemma Itoa_inj: "int64 a \<Longrightarrow> int64 b \<Longrightarrow> Itoa a = Itoa b \<longleftrightarrow> a = b"
  by (metis ParseInt_Itoa option.inject)

lemma gm_put_new: "k \<notin> fst ` set m \<Longrightarrow> gm_put k v m = m @ [(k, v)]"
  by (induction m) auto

lemma restore_statuses:
  assumes "decimal_keys m" "\<forall>p\<in>set codes. int64 (fst p) \<and> Itoa (fst p) \<notin> fst ` set m"
  shows "\<exists>codes'. result_fold restore_status codes m = Inr codes'
    \<and> (\<forall>k. (\<Sum>p\<leftarrow>codes'. if Itoa (fst p) = k then snd p else 0) =
         (\<Sum>p\<leftarrow>codes. if Itoa (fst p) = k then snd p else 0) + gm_get 0 m k)"
  using assms
proof (induction m arbitrary: codes)
  case (Cons p m)
  then obtain c where c: "int64 c" "fst p = Itoa c" by (auto simp: decimal_keys_def)
  have fresh: "c \<notin> fst ` set codes" using Cons.prems(2) c by auto
  then have put: "gm_put c (snd p) codes = codes @ [(c, snd p)]" by (rule gm_put_new)
  have step: "restore_status codes p = Inr (codes @ [(c, snd p)])"
    using c by (simp add: restore_status_def ParseInt_Itoa put)
  have "decimal_keys m" "\<forall>q\<in>set (codes @ [(c, snd p)]). int64 (fst q) \<and> Itoa (fst q) \<notin> fst ` set m"
    using Cons.prems c by (auto simp: decimal_keys_def)
  from Cons.IH [OF this] obtain codes' where codes':
    "result_fold restore_status (codes @ [(c, snd p)]) m = Inr codes'"
    "\<forall>k. (\<Sum>p\<leftarrow>codes'. if Itoa (fst p) = k then snd p else 0) =
       (\<Sum>q\<leftarrow>codes @ [(c, snd p)]. if Itoa (fst q) = k then snd q else 0) + gm_get 0 m k" by blast
  have "Itoa c \<notin> fst ` set m" using Cons.prems(1) c by (auto simp: decimal_keys_def)
  then have "map_of m (Itoa c) = None" by (simp add: map_of_eq_None_iff)
  then have "gm_get 0 (p # m) k = (if Itoa c = k then snd p else 0) + gm_get 0 m k" for k
    using c by (auto simp: gm_get_def)
  then show ?case using codes' step by auto
qed (simp add: gm_get_def)

definition agg_total :: "('h AggregatedMetrics \<Rightarrow> int) \<Rightarrow> 'h agg option list \<Rightarrow> int" where
  "agg_total f gs = (\<Sum>g\<leftarrow>gs. case g of None \<Rightarrow> 0 | Some a \<Rightarrow> f (ag a))"

text \<open>What the worker built from an aggregate counts.\<close>

definition mirrors :: "'h worker option list \<Rightarrow> 'h agg option list \<Rightarrow> bool" where
  "mirrors ws gs \<longleftrightarrow>
     sum_workers Planned ws = agg_total (\<lambda>a. rc_Planned (ag_RequestCounts a)) gs
     \<and> sum_workers Scheduled ws = agg_total (\<lambda>a. rc_Scheduled (ag_RequestCounts a)) gs
     \<and> sum_workers Started ws = agg_total (\<lambda>a. rc_Started (ag_RequestCounts a)) gs
     \<and> sum_workers Completed ws = agg_total (\<lambda>a. rc_Completed (ag_RequestCounts a)) gs
     \<and> sum_workers Canceled ws = agg_total (\<lambda>a. rc_Canceled (ag_RequestCounts a)) gs
     \<and> sum_workers Dropped ws = agg_total (\<lambda>a. rc_Dropped (ag_RequestCounts a)) gs
     \<and> (\<forall>out. sum_workers (\<lambda>w. Outcomes w out) ws = agg_total (\<lambda>a. ag_Outcomes a out) gs)
     \<and> (\<forall>k. sum_workers (status_val k) ws = agg_total (\<lambda>a. gm_get 0 (ag_StatusCodes a) k) gs)
     \<and> sum_workers BytesReceived ws = agg_total TotalBytesReceived gs"

lemma collect_aggregate_simps:
  "collect_aggregate H ws (i, None) = Inr ws"
  "collect_aggregate H ws (i, Some g) = result_bind (worker_of_aggregate H i g) (\<lambda>w. Inr (ws @ [Some w]))"
  by (simp_all add: collect_aggregate_def)

lemma mirrors_None: "mirrors ws gs \<Longrightarrow> mirrors ws (None # gs)"
  by (simp add: mirrors_def agg_total_def)

lemma collect_aggregates:
  assumes "\<forall>g. Some g \<in> set gs \<longrightarrow> decimal_keys (ag_StatusCodes (ag g))" "length is = length gs"
  shows "\<exists>ws'. result_fold (collect_aggregate H) ws (zip is gs) = Inr (ws @ ws') \<and> mirrors ws' gs"
  using assms
proof (induction gs arbitrary: ws "is")
  case Nil
  then show ?case by (auto simp: mirrors_def sum_workers_def agg_total_def)
next
  case (Cons g gs)
  from Cons.prems(2) obtain i ks where "is": "is = i # ks" "length ks = length gs" by (cases "is") auto
  show ?case
  proof (cases g)
    case None
    have "\<exists>ws'. result_fold (collect_aggregate H) ws (zip ks gs) = Inr (ws @ ws') \<and> mirrors ws' gs"
      using Cons.prems(1) "is"(2) by (intro Cons.IH) auto
    then show ?thesis using None "is" mirrors_None by (auto simp: collect_aggregate_simps)
  next
    case (Some a)
    have "decimal_keys (ag_StatusCodes (ag a))" using Cons.prems(1) Some by simp
    from restore_statuses [OF this, of "[]"] obtain codes where codes:
      "result_fold restore_status [] (ag_StatusCodes (ag a)) = Inr codes"
      "\<forall>k. (\<Sum>p\<leftarrow>codes. if Itoa (fst p) = k then snd p else 0) = gm_get 0 (ag_StatusCodes (ag a)) k" by auto
    define w where "w = projr (worker_of_aggregate H i a)"
    have w: "worker_of_aggregate H i a = Inr w" using codes(1) by (simp add: w_def worker_of_aggregate_def Let_def)
    obtain ws' where ws': "result_fold (collect_aggregate H) (ws @ [Some w]) (zip ks gs) = Inr ((ws @ [Some w]) @ ws')"
      "mirrors ws' gs"
      using Cons.IH [of ks "ws @ [Some w]"] Cons.prems(1) "is"(2) by auto
    have "mirrors (Some w # ws') (g # gs)"
      using ws'(2) codes unfolding Some w_def
      by (simp add: mirrors_def sum_workers_def agg_total_def worker_val_def worker_of_aggregate_def Let_def status_val_def)
    then show ?thesis using ws'(1) "is" Some w by (auto simp: collect_aggregate_simps)
  qed
qed

text \<open>Merging segment aggregates, as the scheduler does for the measured part of a profile, never fails on
  aggregates whose status codes are decimal, and gives the sum of every counter, outcome and status code: nothing
  is counted twice or lost between the segments and the total.\<close>

lemma MergeAggregates_spec:
  assumes "\<forall>g. Some g \<in> set gs \<longrightarrow> decimal_keys (ag_StatusCodes (ag g))"
  shows "\<exists>a. MergeAggregates H gs d = Inr a
    \<and> rc_Completed (ag_RequestCounts (ag a)) = agg_total (\<lambda>a. rc_Completed (ag_RequestCounts a)) gs
    \<and> rc_Dropped (ag_RequestCounts (ag a)) = agg_total (\<lambda>a. rc_Dropped (ag_RequestCounts a)) gs
    \<and> rc_Started (ag_RequestCounts (ag a)) = agg_total (\<lambda>a. rc_Started (ag_RequestCounts a)) gs
    \<and> (\<forall>out. ag_Outcomes (ag a) out = agg_total (\<lambda>a. ag_Outcomes a out) gs)
    \<and> (\<forall>k. gm_get 0 (ag_StatusCodes (ag a)) k = agg_total (\<lambda>a. gm_get 0 (ag_StatusCodes a) k) gs)"
proof -
  obtain ws where ws: "result_fold (collect_aggregate H) [] (zip [0..int (length gs) - 1] gs) = Inr ws" "mirrors ws gs"
    using collect_aggregates [OF assms, of "[0..int (length gs) - 1]" H "[]"] by auto
  obtain a where a: "MergeWorkers H ws d = Inr a" using MergeWorkers_total_and_steps(1) by blast
  then obtain s where s: "result_fold (merge_worker H) (merge_init H) ws = Inr s" "ag a = merge_finish H s d"
    by (rule MergeWorkers_Inr)
  have "MergeAggregates H gs d = Inr a" using ws a by (simp add: MergeAggregates_def)
  then show ?thesis
    using s(2) merge_fold_totals [OF s(1)] ws(2) by (intro exI [of _ a]) (simp add: merge_finish_def mirrors_def)
qed

lemma gm_add_decimal: "decimal_keys m \<Longrightarrow> int64 c \<Longrightarrow> decimal_keys (gm_add (Itoa c) n m)"
  using keys_gm_add [of "Itoa c" n m] distinct_gm_add [of m "Itoa c" n]
  unfolding decimal_keys_def by (metis (no_types, opaque_lifting) image_iff insertE imageI)

lemma merge_statuses_decimal:
  assumes "decimal_keys m" "\<forall>p\<in>set codes. int64 (fst p)"
  shows "decimal_keys (foldl (\<lambda>m p. gm_add (Itoa (fst p)) (snd p) m) m codes)"
  by (rule foldl_invariant) (use assms gm_add_decimal in auto)

text \<open>The aggregates that \<^verbatim>\<open>MergeWorkers\<close> builds have decimal status codes.\<close>

lemma MergeWorkers_decimal:
  assumes "MergeWorkers H ws d = Inr a" "\<forall>w. Some w \<in> set ws \<longrightarrow> (\<forall>p\<in>set (StatusCodes (wm w)). int64 (fst p))"
  shows "decimal_keys (ag_StatusCodes (ag a))"
  using assms(1)
proof (rule MergeWorkers_Inr)
  fix s
  assume s: "result_fold (merge_worker H) (merge_init H) ws = Inr s" "ag a = merge_finish H s d"
  have "decimal_keys (statusCodes s)" using s(1)
  proof (rule result_fold_invariant)
    show "decimal_keys (statusCodes (merge_init H))" by (simp add: merge_init_def decimal_keys_def)
    fix s w t
    assume "decimal_keys (statusCodes s)" "w \<in> set ws" "merge_worker H s w = Inr t"
    then show "decimal_keys (statusCodes t)"
      using assms(2) by (cases w) (auto simp: merge_worker_def Let_def intro!: merge_statuses_decimal)
  qed
  then show ?thesis using s(2) by (simp add: merge_finish_def)
qed

lemma sample_worker_codes: "\<forall>p\<in>set (StatusCodes (wm sample_worker)). int64 (fst p)"
  by (simp add: sample_worker_def record_all_def RecordResult_def sample_result_def NewWorkerMetrics_def Let_def int64_def)

lemma MergeAggregates_spec_witness:
  "\<exists>g a. MergeWorkers exact_hdr [Some sample_worker] Second = Inr g
     \<and> MergeAggregates exact_hdr [Some g, None, Some g] Second = Inr a
     \<and> rc_Completed (ag_RequestCounts (ag a)) = 4"
proof -
  obtain g where g: "MergeWorkers exact_hdr [Some sample_worker] Second = Inr g"
    using MergeWorkers_total_and_steps(1) by blast
  have "decimal_keys (ag_StatusCodes (ag g))" using MergeWorkers_decimal [OF g] sample_worker_codes by simp
  then obtain a where "MergeAggregates exact_hdr [Some g, None, Some g] Second = Inr a"
    "rc_Completed (ag_RequestCounts (ag a)) = agg_total (\<lambda>a. rc_Completed (ag_RequestCounts a)) [Some g, None, Some g]"
    using MergeAggregates_spec [of "[Some g, None, Some g]" exact_hdr Second] by auto
  moreover have "rc_Completed (ag_RequestCounts (ag g)) = 2"
    using g
  proof (rule MergeWorkers_Inr)
    fix s
    assume s: "result_fold (merge_worker exact_hdr) (merge_init exact_hdr) [Some sample_worker] = Inr s"
      "ag g = merge_finish exact_hdr s Second"
    show ?thesis using merge_fold_totals(1) [OF s(1)] s(2)
      by (simp add: merge_finish_def sum_workers_def worker_val_def sample_worker_vals)
  qed
  ultimately show ?thesis using g by (intro exI [of _ g] exI [of _ a]) (simp add: agg_total_def)
qed

text \<open>Flushing a worker into a fresh segment forgets how often each error occurred: every sample arrives with the
  count one, while aggregating the same worker directly keeps its count.\<close>

lemma flush_forgets_error_counts:
  assumes "ErrorSamples w = [\<lparr>es_Message = m, es_Class = c, es_Count = n\<rparr>]" "clean_message m = m"
  shows "ErrorSamples (fst (mergeWorkerMetrics H (NewWorkerMetrics H i) w)) = [\<lparr>es_Message = m, es_Class = c, es_Count = 1\<rparr>]
    \<and> (\<exists>a. MergeWorkers H [Some (Worker w [])] d = Inr a
         \<and> ag_ErrorSamples (ag a) = [\<lparr>es_Message = m, es_Class = c, es_Count = n\<rparr>])"
proof
  show "ErrorSamples (fst (mergeWorkerMetrics H (NewWorkerMetrics H i) w)) = [\<lparr>es_Message = m, es_Class = c, es_Count = 1\<rparr>]"
    using assms by (simp add: mergeWorkerMetrics_def Let_def NewWorkerMetrics_def recordErrorSample_def MaxErrorSamples_def)
  obtain a where a: "MergeWorkers H [Some (Worker w [])] d = Inr a" using MergeWorkers_total_and_steps(1) by blast
  then show "\<exists>a. MergeWorkers H [Some (Worker w [])] d = Inr a
         \<and> ag_ErrorSamples (ag a) = [\<lparr>es_Message = m, es_Class = c, es_Count = n\<rparr>]"
  proof (rule MergeWorkers_Inr)
    fix s
    assume s: "result_fold (merge_worker H) (merge_init H) [Some (Worker w [])] = Inr s" "ag a = merge_finish H s d"
    then have "mergedErrors s = [\<lparr>es_Message = m, es_Class = c, es_Count = n\<rparr>]"
      using assms by (auto simp: merge_worker_def Let_def merge_init_def merge_error_def MaxErrorSamples_def)
    then show ?thesis using a s(2) by (intro exI [of _ a]) (simp add: merge_finish_def)
  qed
qed

theorem flush_forgets_error_counts_witness:
  "ErrorSamples (fst (mergeWorkerMetrics exact_hdr (NewWorkerMetrics exact_hdr 0)
     ((NewWorkerMetrics exact_hdr 1)\<lparr>ErrorSamples := [\<lparr>es_Message = ''boom'', es_Class = ''timeout'', es_Count = 7\<rparr>]\<rparr>)))
   = [\<lparr>es_Message = ''boom'', es_Class = ''timeout'', es_Count = 1\<rparr>]"
proof -
  have "clean_message ''boom'' = ''boom''" by code_simp
  then show ?thesis
    by (intro conjunct1 [OF flush_forgets_error_counts [where n = 7 and d = Second]]) simp_all
qed

lemma merge_error_keys:
  assumes "length es \<le> MaxErrorSamples" "distinct (map (\<lambda>s. (es_Message s, es_Class s)) es)"
  shows "length (merge_error es s) \<le> MaxErrorSamples \<and> distinct (map (\<lambda>s. (es_Message s, es_Class s)) (merge_error es s))"
proof (cases "bump_sample (es_Message s) (es_Class s) (es_Count s) es")
  case None
  then have "(es_Message s, es_Class s) \<notin> (\<lambda>s. (es_Message s, es_Class s)) ` set es" by (simp add: bump_sample_None)
  then show ?thesis using assms None by (auto simp: merge_error_def image_iff)
next
  case (Some es')
  have k: "map (\<lambda>s. (es_Message s, es_Class s)) es' = map (\<lambda>s. (es_Message s, es_Class s)) es"
    using bump_sample_Some [OF Some] by simp
  then have "length es' = length es" by (metis length_map)
  then show ?thesis using assms k by (simp add: merge_error_def Some)
qed

text \<open>An aggregate is bounded in size however many workers and errors there were: at most ten distinct error
  messages, ten distinct retry-after values and ten distinct header samples are kept.\<close>

lemma MergeWorkers_bounded:
  assumes "MergeWorkers H ws d = Inr a"
  shows "length (ag_ErrorSamples (ag a)) \<le> MaxErrorSamples
    \<and> distinct (map (\<lambda>s. (es_Message s, es_Class s)) (ag_ErrorSamples (ag a)))
    \<and> samples_ok MaxRateLimitSamples (RetryAfterSamples (ag_RateLimits (ag a)))
    \<and> samples_ok MaxRateLimitSamples (RateLimitHeaders (ag_RateLimits (ag a)))"
  using assms
proof (rule MergeWorkers_Inr)
  fix s
  assume s: "result_fold (merge_worker H) (merge_init H) ws = Inr s" "ag a = merge_finish H s d"
  let ?P = "\<lambda>es. length es \<le> MaxErrorSamples \<and> distinct (map (\<lambda>s. (es_Message s, es_Class s)) es)"
  let ?I = "\<lambda>s :: 'a merge_state. ?P (mergedErrors s) \<and> samples_ok MaxRateLimitSamples (retryAfterSamples s)
    \<and> samples_ok MaxRateLimitSamples (rateLimitHeaders s)"
  have "?I s" using s(1)
  proof (rule result_fold_invariant)
    show "?I (merge_init H)" by (simp add: merge_init_def samples_ok_def)
    fix s :: "'a merge_state" and w t
    assume I: "?I s" and t: "merge_worker H s w = Inr t"
    show "?I t"
    proof (cases w)
      case (Some wk)
      have "?P (foldl merge_error (mergedErrors s) (ErrorSamples (wm wk)))"
        by (rule foldl_invariant) (use I merge_error_keys in auto)
      then show ?thesis using t I Some
        by (auto simp: merge_worker_def Let_def strings.add_samples_ok headers.add_samples_ok)
    qed (use t I in \<open>simp add: merge_worker_def\<close>)
  qed
  then show ?thesis using s(2) by (simp add: merge_finish_def)
qed

lemma MergeWorkers_bounded_witness:
  "\<exists>a. MergeWorkers exact_hdr [Some sample_worker] Second = Inr a \<and> length (ag_ErrorSamples (ag a)) \<le> MaxErrorSamples"
proof -
  obtain a where a: "MergeWorkers exact_hdr [Some sample_worker] Second = Inr a"
    using MergeWorkers_total_and_steps(1) by blast
  with MergeWorkers_bounded [OF a] show ?thesis by blast
qed

end
