(* ===== verification/Scheduler_Open.thy ===== *)
theory Scheduler_Open
  imports Metrics_Aggregate
begin

text \<open>
  The open-model scheduler, \<^verbatim>\<open>internal/scheduler/open.go\<close>, as a system of interleaved
  steps. The dispatcher goroutine (\<^verbatim>\<open>Run\<close> and \<^verbatim>\<open>scheduleSegment\<close>) and each
  worker goroutine (\<^verbatim>\<open>runWorker\<close>) has a program counter; \<open>open_step\<close> performs one
  atomic action of one of them, chosen by an event. Every access to the shared counters
  \<^verbatim>\<open>inFlightCount\<close> and \<^verbatim>\<open>peakInFlight\<close> and to the job channel is a step of its
  own, so all interleavings of the code are sequences of events. Events carry what the code does not
  determine: the readings of the clock, whether the context is done, and the value
  \<^verbatim>\<open>ExecuteRequest\<close> returns.

  The clock is assumed monotone (\<open>last_reading\<close> is its last reading), and a timer not to fire early: a
  reading after a wait is at least the awaited time. \<^verbatim>\<open>ExecuteRequest\<close> is assumed to return a result or an error.
\<close>

section \<open>Configuration and state\<close>

record 'h open_cfg =
  ops :: "'h hdr_ops"
  MaxInFlight :: int
  TimeUnit :: Duration
  segments :: "Segment list"
  startTime :: Time
  float_oob :: "f64 \<Rightarrow> int"

definition seg_interval :: "'h open_cfg \<Rightarrow> Segment \<Rightarrow> Duration" where
  "seg_interval cfg seg = f_to_int64 (float_oob cfg) (fdiv (f_of_int (TimeUnit cfg)) (seg_Rate seg))"

definition segmentStart :: "'h open_cfg \<Rightarrow> nat \<Rightarrow> Time" where
  "segmentStart cfg i = time_add (startTime cfg) (seg_StartOffset (segments cfg ! i))"

definition segmentEnd :: "'h open_cfg \<Rightarrow> nat \<Rightarrow> Time" where
  "segmentEnd cfg i = time_add (startTime cfg) (seg_EndOffset (segments cfg ! i))"

record dispatchJob =
  intendedTime :: Time
  actualTime :: Time
  segmentIndex :: int
  plannedOffsetNS :: int

text \<open>
  Program counters of the dispatcher: \<open>D_Loop i tick\<close> is the head of the loop of
  \<^verbatim>\<open>scheduleSegment\<close> for segment \<open>i\<close>; \<open>D_Wait\<close> waits for the timer;
  \<open>D_Woke i tick t\<close> is before the second clock reading, which is at least \<open>t\<close>;
  \<open>D_Check\<close> to \<open>D_Send\<close> hold the planned job; \<open>D_Seg i\<close> is the head of the loop over
  the segments; \<open>D_Close\<close> closes the channel; \<open>D_Drain\<close> waits for the workers.
\<close>

datatype disp_pc =
    D_Seg nat
  | D_Loop nat Time
  | D_Wait nat Time Time
  | D_Woke nat Time Time
  | D_Check nat Time dispatchJob
  | D_Add nat Time dispatchJob
  | D_Peak nat Time dispatchJob
  | D_Cas nat Time dispatchJob int int
  | D_Send nat Time dispatchJob
  | D_Close bool
  | D_Drain bool
  | D_Finished
  | D_Failed

datatype worker_pc =
    W_Idle
  | W_Exec dispatchJob
  | W_Release dispatchJob "exec_Result option \<times> bool"
  | W_Record dispatchJob "exec_Result option \<times> bool"
  | W_Exited

record 'h pool_worker =
  pw_pc :: worker_pc
  overall :: "'h WorkerMetrics"
  currentSegment :: int
  cur_metrics :: "'h WorkerMetrics option"

record 'h open_state =
  disp :: disp_pc
  inFlightCount :: int
  peakInFlight :: int
  jobs :: "dispatchJob list"
  chan_closed :: bool
  lifecycle :: LifecycleStateMachine
  previousStage :: string
  dispatcherMetrics :: "'h WorkerMetrics"
  segmentDispatcher :: "'h WorkerMetrics list"
  healthSampler :: GeneratorHealthSampler
  workerPool :: "'h pool_worker list"
  segmentCollector :: "'h SegmentCollector"
  last_reading :: Time

datatype scheduler_error =
    ErrInvalidPlan | ErrInvalidExecutor | ErrIncompatibleModel | ErrInvalidTimeUnit | ErrInvalidMaxInFlight
  | ErrZeroDuration | ErrInvalidRate | ErrZeroUsers | ErrUnknownStage string | ErrTransition core_error

section \<open>Construction\<close>

text \<open>The parts of a plan the constructor reads.\<close>

record open_plan =
  op_Model :: WorkloadModel
  op_TimeUnit :: Duration
  op_MaxInFlight :: int
  op_Duration :: Duration
  op_Rate :: f64
  op_CompiledSegments :: "Segment list"

definition default_segment :: "open_plan \<Rightarrow> Segment" where
  "default_segment p = \<lparr>seg_Index = 0, seg_Name = ''measured'', seg_Stage = StageMeasured,
     seg_StartOffset = 0, seg_EndOffset = op_Duration p, seg_StartOffsetMS = 0,
     seg_EndOffsetMS = Milliseconds (op_Duration p), seg_Duration = op_Duration p,
     seg_DurationMS = Milliseconds (op_Duration p), seg_Rate = op_Rate p,
     seg_TargetRPS = fdiv (op_Rate p) (Seconds (op_TimeUnit p)), seg_IncludedMeasured = True\<rparr>"

text \<open>\<open>now\<close> is the reading of the clock at the start of \<^verbatim>\<open>Run\<close>, which the configuration of a run includes.\<close>

definition NewOpenScheduler ::
  "'h hdr_ops \<Rightarrow> (f64 \<Rightarrow> int) \<Rightarrow> Time \<Rightarrow> open_plan option \<Rightarrow> bool \<Rightarrow> scheduler_error + 'h open_cfg" where
  "NewOpenScheduler H oob now po hasExecutor = (case po of
       None \<Rightarrow> Inl ErrInvalidPlan
     | Some p \<Rightarrow>
         if \<not> hasExecutor then Inl ErrInvalidExecutor
         else if op_Model p \<noteq> WorkloadModelOpen then Inl ErrIncompatibleModel
         else if op_TimeUnit p \<le> 0 then Inl ErrInvalidTimeUnit
         else if op_MaxInFlight p \<le> 0 then Inl ErrInvalidMaxInFlight
         else if op_Duration p \<le> 0 then Inl ErrZeroDuration
         else if op_CompiledSegments p = [] \<and> op_Rate p \<le> F_Fin 0 then Inl ErrInvalidRate
         else Inr \<lparr>ops = H, MaxInFlight = op_MaxInFlight p, TimeUnit = op_TimeUnit p,
                   segments = (if op_CompiledSegments p = [] then [default_segment p] else op_CompiledSegments p),
                   startTime = now, float_oob = oob\<rparr>)"

definition new_pool_worker :: "'h hdr_ops \<Rightarrow> int \<Rightarrow> 'h pool_worker" where
  "new_pool_worker H workerID = \<lparr>pw_pc = W_Idle, overall = NewWorkerMetrics H workerID, currentSegment = - 1, cur_metrics = None\<rparr>"

definition enterStage :: "LifecycleStateMachine \<Rightarrow> string \<Rightarrow> LifecycleStateMachine \<times> scheduler_error option" where
  "enterStage m stage =
     (let go = (\<lambda>st. case TransitionTo m st of (m', e) \<Rightarrow> (m', map_option ErrTransition e)) in
      if stage = StageWarmup then go StateWarmup
      else if stage = StageMeasured then go StateRunning
      else if stage = StageCooldown then go StateCooldown
      else (m, Some (ErrUnknownStage stage)))"

text \<open>\<^verbatim>\<open>Run\<close> up to the launch of the workers.\<close>

definition open_start :: "'h open_cfg \<Rightarrow> scheduler_error + 'h open_state" where
  "open_start cfg =
     (let stage = seg_Stage (segments cfg ! 0) in
      case enterStage NewLifecycleStateMachine stage of
        (m, Some e) \<Rightarrow> Inl e
      | (m, None) \<Rightarrow> Inr \<lparr>
          disp = D_Seg 0, inFlightCount = 0, peakInFlight = 0, jobs = [], chan_closed = False, lifecycle = m,
          previousStage = stage, dispatcherMetrics = NewWorkerMetrics (ops cfg) (- 1),
          segmentDispatcher = map (\<lambda>_. NewWorkerMetrics (ops cfg) (- 1)) (segments cfg),
          healthSampler = health_Start NewGeneratorHealthSampler,
          workerPool = map (new_pool_worker (ops cfg)) [0..MaxInFlight cfg - 1],
          segmentCollector = NewSegmentCollector (ops cfg) (int (length (segments cfg))),
          last_reading = startTime cfg\<rparr>)"

section \<open>The dispatcher\<close>

definition next_tick :: "Duration \<Rightarrow> Time \<Rightarrow> Time \<Rightarrow> Time" where
  "next_tick interval nextTargetTick actual =
     (if time_sub actual nextTargetTick > interval then time_add actual interval else time_add nextTargetTick interval)"

definition lag_ms :: "Duration \<Rightarrow> f64" where
  "lag_ms lag = fdiv (f_of_int (Microseconds lag)) (F_Fin 1000)"

definition record_lag :: "'h WorkerMetrics \<Rightarrow> Duration \<Rightarrow> 'h WorkerMetrics" where
  "record_lag d lag = (if lag > 0 \<and> lag_ms lag > SchedulerLagMaxMS d then d\<lparr>SchedulerLagMaxMS := lag_ms lag\<rparr> else d)"

definition count_planned :: "'h WorkerMetrics \<Rightarrow> 'h WorkerMetrics" where
  "count_planned d = d\<lparr>Planned := Planned d + 1\<rparr>"

definition count_dropped :: "'h WorkerMetrics \<Rightarrow> 'h WorkerMetrics" where
  "count_dropped d = d\<lparr>Dropped := Dropped d + 1,
     Outcomes := (Outcomes d)(OutcomeDropped := Outcomes d OutcomeDropped + 1)\<rparr>"

definition count_scheduled :: "'h WorkerMetrics \<Rightarrow> 'h WorkerMetrics" where
  "count_scheduled d = d\<lparr>Scheduled := Scheduled d + 1\<rparr>"

text \<open>The accumulator of the segment being scheduled, \<^verbatim>\<open>segmentDispatcher[segment.Index]\<close>.\<close>

definition upd_segment :: "('h WorkerMetrics \<Rightarrow> 'h WorkerMetrics) \<Rightarrow> nat \<Rightarrow> 'h open_state \<Rightarrow> 'h open_state" where
  "upd_segment f i s = s\<lparr>segmentDispatcher := (segmentDispatcher s)[i := f (segmentDispatcher s ! i)]\<rparr>"

definition seg_slot :: "'h open_cfg \<Rightarrow> nat \<Rightarrow> nat" where
  "seg_slot cfg i = nat (seg_Index (segments cfg ! i))"

text \<open>From the second reading of the clock to the \<^verbatim>\<open>Planned\<close> counters.\<close>

definition plan_tick :: "'h open_cfg \<Rightarrow> nat \<Rightarrow> Time \<Rightarrow> Time \<Rightarrow> 'h open_state \<Rightarrow> 'h open_state" where
  "plan_tick cfg i tick actual s =
     (if actual \<ge> segmentEnd cfg i then s\<lparr>disp := D_Seg (Suc i)\<rparr>
      else let lag = time_sub actual tick;
               s = (if lag > 0 then s\<lparr>healthSampler := RecordSchedulerLag (healthSampler s) lag\<rparr> else s);
               s = upd_segment (\<lambda>d. count_planned (record_lag d lag)) (seg_slot cfg i) s
           in s\<lparr>dispatcherMetrics := count_planned (dispatcherMetrics s),
                disp := D_Check i (next_tick (seg_interval cfg (segments cfg ! i)) tick actual)
                  \<lparr>intendedTime = tick, actualTime = actual, segmentIndex = seg_Index (segments cfg ! i),
                   plannedOffsetNS = time_sub tick (startTime cfg)\<rparr>\<rparr>)"

definition check_in_flight :: "'h open_cfg \<Rightarrow> nat \<Rightarrow> Time \<Rightarrow> dispatchJob \<Rightarrow> 'h open_state \<Rightarrow> 'h open_state" where
  "check_in_flight cfg i tick job s =
     (if inFlightCount s \<ge> MaxInFlight cfg
      then (upd_segment count_dropped (seg_slot cfg i) s)\<lparr>
             dispatcherMetrics := count_dropped (dispatcherMetrics s),
             healthSampler := AddWarning (healthSampler s) ''max_in_flight reached, dropped requests'',
             disp := D_Loop i tick\<rparr>
      else (upd_segment count_scheduled (seg_slot cfg i) s)\<lparr>
             dispatcherMetrics := count_scheduled (dispatcherMetrics s),
             disp := D_Add i tick job\<rparr>)"

text \<open>The head of the loop over the segments.\<close>

definition next_segment :: "'h open_cfg \<Rightarrow> nat \<Rightarrow> 'h open_state \<Rightarrow> 'h open_state" where
  "next_segment cfg i s =
     (if i \<ge> length (segments cfg) then s\<lparr>disp := D_Close False\<rparr>
      else let stage = seg_Stage (segments cfg ! i) in
        if stage \<noteq> previousStage s
        then (case enterStage (lifecycle s) stage of
                (m, Some e) \<Rightarrow> s\<lparr>lifecycle := m, chan_closed := True, disp := D_Failed\<rparr>
              | (m, None) \<Rightarrow> s\<lparr>lifecycle := m, previousStage := stage, disp := D_Loop i (segmentStart cfg i)\<rparr>)
        else s\<lparr>disp := D_Loop i (segmentStart cfg i)\<rparr>)"

text \<open>Events of the dispatcher.\<close>

datatype disp_event =
    E_Segment
  | E_Top Time bool
  | E_Timer
  | E_CtxDone
  | E_Plan Time
  | E_Check
  | E_Add
  | E_Peak
  | E_Cas
  | E_Send
  | E_Close
  | E_Drained bool

definition all_exited :: "'h open_state \<Rightarrow> bool" where
  "all_exited s \<longleftrightarrow> list_all (\<lambda>w. pw_pc w = W_Exited) (workerPool s)"

definition close_channel :: "bool \<Rightarrow> 'h open_state \<Rightarrow> 'h open_state" where
  "close_channel hard s = s\<lparr>chan_closed := True,
     lifecycle := attempt (lifecycle s) (if hard then StateCanceled else StateGracefulStop), disp := D_Drain hard\<rparr>"

definition finish_run :: "bool \<Rightarrow> bool \<Rightarrow> 'h open_state \<Rightarrow> 'h open_state" where
  "finish_run hard done s = s\<lparr>
     lifecycle := attempt (if \<not> hard \<and> done then attempt (lifecycle s) StateCanceled else lifecycle s) StateCompleted,
     healthSampler := (if Dropped (dispatcherMetrics s) > 0
       then AddWarning (healthSampler s) ''target degradation or low max_in_flight caused dropped requests''
       else healthSampler s),
     disp := D_Finished\<rparr>"

definition loop_top :: "'h open_cfg \<Rightarrow> nat \<Rightarrow> Time \<Rightarrow> Time \<Rightarrow> bool \<Rightarrow> disp_pc" where
  "loop_top cfg i tick now done =
     (if now \<ge> segmentEnd cfg i then D_Seg (Suc i)
      else if done then D_Close True
      else if time_sub tick now > 0 then D_Wait i tick (time_add now (time_sub tick now))
      else D_Woke i tick now)"

definition compare_and_swap :: "nat \<Rightarrow> Time \<Rightarrow> dispatchJob \<Rightarrow> int \<Rightarrow> int \<Rightarrow> 'h open_state \<Rightarrow> 'h open_state" where
  "compare_and_swap i tick job pk cur s =
     (if cur \<le> pk then s\<lparr>disp := D_Send i tick job\<rparr>
      else if peakInFlight s = pk then s\<lparr>peakInFlight := cur, disp := D_Send i tick job\<rparr>
      else s\<lparr>disp := D_Peak i tick job\<rparr>)"

definition disp_step :: "'h open_cfg \<Rightarrow> 'h open_state \<Rightarrow> disp_event \<Rightarrow> 'h open_state option" where
  "disp_step cfg s e = (case e of
       E_Segment \<Rightarrow> (case disp s of D_Seg i \<Rightarrow> Some (next_segment cfg i s) | _ \<Rightarrow> None)
     | E_Top now done \<Rightarrow> (case disp s of
           D_Loop i tick \<Rightarrow> if now \<ge> last_reading s
             then Some (s\<lparr>last_reading := now, disp := loop_top cfg i tick now done\<rparr>) else None
         | _ \<Rightarrow> None)
     | E_Timer \<Rightarrow> (case disp s of D_Wait i tick wake \<Rightarrow> Some (s\<lparr>disp := D_Woke i tick wake\<rparr>) | _ \<Rightarrow> None)
     | E_CtxDone \<Rightarrow> (case disp s of D_Wait i tick wake \<Rightarrow> Some (s\<lparr>disp := D_Close True\<rparr>) | _ \<Rightarrow> None)
     | E_Plan actual \<Rightarrow> (case disp s of
           D_Woke i tick earliest \<Rightarrow> if actual \<ge> earliest
             then Some (plan_tick cfg i tick actual (s\<lparr>last_reading := actual\<rparr>)) else None
         | _ \<Rightarrow> None)
     | E_Check \<Rightarrow> (case disp s of D_Check i tick job \<Rightarrow> Some (check_in_flight cfg i tick job s) | _ \<Rightarrow> None)
     | E_Add \<Rightarrow> (case disp s of
           D_Add i tick job \<Rightarrow> Some (s\<lparr>inFlightCount := inFlightCount s + 1, disp := D_Peak i tick job\<rparr>) | _ \<Rightarrow> None)
     | E_Peak \<Rightarrow> (case disp s of
           D_Peak i tick job \<Rightarrow> Some (s\<lparr>disp := D_Cas i tick job (peakInFlight s) (inFlightCount s)\<rparr>) | _ \<Rightarrow> None)
     | E_Cas \<Rightarrow> (case disp s of D_Cas i tick job pk cur \<Rightarrow> Some (compare_and_swap i tick job pk cur s) | _ \<Rightarrow> None)
     | E_Send \<Rightarrow> (case disp s of
           D_Send i tick job \<Rightarrow> if length (jobs s) < length (workerPool s)
             then Some (s\<lparr>jobs := jobs s @ [job], disp := D_Loop i tick\<rparr>) else None
         | _ \<Rightarrow> None)
     | E_Close \<Rightarrow> (case disp s of D_Close hard \<Rightarrow> Some (close_channel hard s) | _ \<Rightarrow> None)
     | E_Drained done \<Rightarrow> (case disp s of
           D_Drain hard \<Rightarrow> if all_exited s then Some (finish_run hard done s) else None
         | _ \<Rightarrow> None))"

section \<open>The workers\<close>

datatype worker_event =
    E_Recv
  | E_Return "exec_Result option \<times> bool"
  | E_Release
  | E_Record
  | E_Exit

definition flush_current :: "'h open_cfg \<Rightarrow> 'h pool_worker \<Rightarrow> 'h SegmentCollector \<Rightarrow> 'h SegmentCollector" where
  "flush_current cfg w col = (case cur_metrics w of None \<Rightarrow> col
     | Some cur \<Rightarrow> Flush (ops cfg) col (currentSegment w) (Some (Worker cur [])))"

definition switch_segment :: "'h open_cfg \<Rightarrow> dispatchJob \<Rightarrow> 'h pool_worker \<Rightarrow> 'h pool_worker" where
  "switch_segment cfg job w =
     (if segmentIndex job \<noteq> currentSegment w
      then w\<lparr>currentSegment := segmentIndex job, cur_metrics := Some (NewWorkerMetrics (ops cfg) (WorkerID (overall w)))\<rparr>
      else w)"

definition count_started :: "'h WorkerMetrics \<Rightarrow> 'h WorkerMetrics" where
  "count_started m = m\<lparr>Started := Started m + 1\<rparr>"

definition record_return :: "'h hdr_ops \<Rightarrow> exec_Result option \<times> bool \<Rightarrow> 'h WorkerMetrics \<Rightarrow> 'h WorkerMetrics" where
  "record_return H ret m = (case ret of
       (Some res, _) \<Rightarrow> RecordResult H
         (if r_Outcome res = OutcomeCanceled then m\<lparr>Canceled := Canceled m + 1\<rparr> else m\<lparr>Completed := Completed m + 1\<rparr>) (Some res)
     | (None, err) \<Rightarrow> if err then m\<lparr>Canceled := Canceled m + 1\<rparr> else m)"

definition record_throttle :: "dispatchJob \<Rightarrow> exec_Result option \<times> bool \<Rightarrow> 'h WorkerMetrics \<Rightarrow> 'h WorkerMetrics" where
  "record_throttle job ret m = (case fst ret of
       Some res \<Rightarrow>
         if r_StatusCode res = 429 \<and> (FirstThrottleOffsetNS m < 0 \<or> plannedOffsetNS job < FirstThrottleOffsetNS m)
         then m\<lparr>FirstThrottleOffsetNS := plannedOffsetNS job\<rparr> else m
     | None \<Rightarrow> m)"

definition set_worker :: "nat \<Rightarrow> 'h pool_worker \<Rightarrow> 'h open_state \<Rightarrow> 'h open_state" where
  "set_worker k w s = s\<lparr>workerPool := (workerPool s)[k := w]\<rparr>"

text \<open>A worker takes a job; when the job belongs to another segment, the finished segment is flushed first.\<close>

definition take_job :: "'h open_cfg \<Rightarrow> nat \<Rightarrow> 'h pool_worker \<Rightarrow> dispatchJob \<Rightarrow> dispatchJob list \<Rightarrow> 'h open_state \<Rightarrow> 'h open_state" where
  "take_job cfg k w job rest s =
     (let col = (if segmentIndex job \<noteq> currentSegment w then flush_current cfg w (segmentCollector s) else segmentCollector s);
          w' = switch_segment cfg job w
      in set_worker k (w'\<lparr>pw_pc := W_Exec job, overall := count_started (overall w'),
                          cur_metrics := map_option count_started (cur_metrics w')\<rparr>)
           (s\<lparr>jobs := rest, segmentCollector := col\<rparr>))"

definition record_job :: "'h open_cfg \<Rightarrow> dispatchJob \<Rightarrow> exec_Result option \<times> bool \<Rightarrow> 'h pool_worker \<Rightarrow> 'h pool_worker" where
  "record_job cfg job ret w = w\<lparr>pw_pc := W_Idle, overall := record_return (ops cfg) ret (overall w),
     cur_metrics := map_option (\<lambda>m. record_throttle job ret (record_return (ops cfg) ret m)) (cur_metrics w)\<rparr>"

definition work_step :: "'h open_cfg \<Rightarrow> 'h open_state \<Rightarrow> nat \<Rightarrow> 'h pool_worker \<Rightarrow> worker_event \<Rightarrow> 'h open_state option" where
  "work_step cfg s k w e = (case e of
       E_Recv \<Rightarrow> (case pw_pc w of
           W_Idle \<Rightarrow> (case jobs s of [] \<Rightarrow> None | job # rest \<Rightarrow> Some (take_job cfg k w job rest s))
         | _ \<Rightarrow> None)
     | E_Return ret \<Rightarrow> (case pw_pc w of
           W_Exec job \<Rightarrow> if fst ret \<noteq> None \<or> snd ret then Some (set_worker k (w\<lparr>pw_pc := W_Release job ret\<rparr>) s) else None
         | _ \<Rightarrow> None)
     | E_Release \<Rightarrow> (case pw_pc w of
           W_Release job ret \<Rightarrow>
             Some (set_worker k (w\<lparr>pw_pc := W_Record job ret\<rparr>) (s\<lparr>inFlightCount := inFlightCount s - 1\<rparr>))
         | _ \<Rightarrow> None)
     | E_Record \<Rightarrow> (case pw_pc w of W_Record job ret \<Rightarrow> Some (set_worker k (record_job cfg job ret w) s) | _ \<Rightarrow> None)
     | E_Exit \<Rightarrow> (case pw_pc w of
           W_Idle \<Rightarrow> if jobs s = [] \<and> chan_closed s
             then Some (set_worker k (w\<lparr>pw_pc := W_Exited\<rparr>) (s\<lparr>segmentCollector := flush_current cfg w (segmentCollector s)\<rparr>))
             else None
         | _ \<Rightarrow> None))"

section \<open>Runs\<close>

datatype open_event = Disp disp_event | Work nat worker_event

fun open_step :: "'h open_cfg \<Rightarrow> 'h open_state \<Rightarrow> open_event \<Rightarrow> 'h open_state option" where
  "open_step cfg s (Disp e) = disp_step cfg s e"
| "open_step cfg s (Work k e) =
     (if k < length (workerPool s) then work_step cfg s k (workerPool s ! k) e else None)"

fun open_run :: "'h open_cfg \<Rightarrow> 'h open_state \<Rightarrow> open_event list \<Rightarrow> 'h open_state option" where
  "open_run cfg s [] = Some s"
| "open_run cfg s (e # es) = Option.bind (open_step cfg s e) (\<lambda>t. open_run cfg t es)"

text \<open>\<^verbatim>\<open>Run\<close> after the drain: the merged aggregate with its segments and the measured part.\<close>

definition segment_result :: "'h open_cfg \<Rightarrow> 'h open_state \<Rightarrow> 'h worker list \<Rightarrow> Segment \<times> nat \<Rightarrow> metrics_error + Segment \<times> 'h agg \<times> Calibration" where
  "segment_result cfg s workerSegments p = (case p of (segment, index) \<Rightarrow>
     result_bind (MergeWorkers (ops cfg) [Some (Worker (segmentDispatcher s ! index) []), Some (workerSegments ! index)] (seg_Duration segment))
       (\<lambda>a. Inr (segment, a, BuildCalibration (seg_TargetRPS segment) (Some a))))"

definition open_report :: "'h open_cfg \<Rightarrow> 'h open_state \<Rightarrow> Duration \<Rightarrow> metrics_error + 'h agg \<times> GeneratorHealth" where
  "open_report cfg s elapsed =
     result_bind (MergeWorkers (ops cfg)
       (Some (Worker (dispatcherMetrics s) []) # map (\<lambda>w. Some (Worker (overall w) [])) (workerPool s)) elapsed) (\<lambda>aggregate.
     result_bind (Snapshots (ops cfg) (segmentCollector s)) (\<lambda>workerSegments.
     result_bind (result_fold (\<lambda>rs p. result_bind (segment_result cfg s workerSegments p) (\<lambda>r. Inr (rs @ [r]))) []
        (zip (segments cfg) [0..<length (segments cfg)])) (\<lambda>segmentResults.
     (let ms = filter (\<lambda>r. seg_IncludedMeasured (fst r)) segmentResults in
      result_bind (MergeAggregates (ops cfg) (map (\<lambda>r. Some (fst (snd r))) ms) (\<Sum>r\<leftarrow>ms. seg_Duration (fst r))) (\<lambda>measured.
      Inr (Agg (ag aggregate) (Steps aggregate) segmentResults (Some measured), Collect_health (healthSampler s)))))))"

section \<open>Invariants\<close>

subsection \<open>Counting over the pool\<close>

definition pool_sum :: "('h pool_worker \<Rightarrow> int) \<Rightarrow> 'h open_state \<Rightarrow> int" where
  "pool_sum f s = (\<Sum>w\<leftarrow>workerPool s. f w)"

lemma sum_list_update_int:
  fixes f :: "'a \<Rightarrow> int"
  shows "k < length xs \<Longrightarrow> (\<Sum>x\<leftarrow>xs[k := y]. f x) = (\<Sum>x\<leftarrow>xs. f x) - f (xs ! k) + f y"
proof (induction xs arbitrary: k)
  case (Cons x xs)
  then show ?case by (cases k) auto
qed simp

lemma pool_sum_set [simp]:
  "k < length (workerPool s) \<Longrightarrow> pool_sum f (set_worker k w s) = pool_sum f s - f (workerPool s ! k) + f w"
  by (simp add: pool_sum_def set_worker_def sum_list_update_int)

lemma pool_sum_frame [simp]:
  "pool_sum f (s\<lparr>disp := x1\<rparr>) = pool_sum f s" "pool_sum f (s\<lparr>inFlightCount := x2\<rparr>) = pool_sum f s"
  "pool_sum f (s\<lparr>peakInFlight := x3\<rparr>) = pool_sum f s" "pool_sum f (s\<lparr>jobs := x4\<rparr>) = pool_sum f s"
  "pool_sum f (s\<lparr>chan_closed := x5\<rparr>) = pool_sum f s" "pool_sum f (s\<lparr>lifecycle := x6\<rparr>) = pool_sum f s"
  "pool_sum f (s\<lparr>previousStage := x7\<rparr>) = pool_sum f s" "pool_sum f (s\<lparr>dispatcherMetrics := x8\<rparr>) = pool_sum f s"
  "pool_sum f (s\<lparr>segmentDispatcher := x9\<rparr>) = pool_sum f s" "pool_sum f (s\<lparr>healthSampler := x10\<rparr>) = pool_sum f s"
  "pool_sum f (s\<lparr>segmentCollector := x11\<rparr>) = pool_sum f s" "pool_sum f (s\<lparr>last_reading := x12\<rparr>) = pool_sum f s" "pool_sum f (upd_segment g i s) = pool_sum f s"
  by (simp_all add: pool_sum_def upd_segment_def)

lemma set_worker_frame [simp]:
  "disp (set_worker k w s) = disp s" "inFlightCount (set_worker k w s) = inFlightCount s"
  "peakInFlight (set_worker k w s) = peakInFlight s" "jobs (set_worker k w s) = jobs s"
  "chan_closed (set_worker k w s) = chan_closed s" "lifecycle (set_worker k w s) = lifecycle s"
  "previousStage (set_worker k w s) = previousStage s" "dispatcherMetrics (set_worker k w s) = dispatcherMetrics s"
  "segmentDispatcher (set_worker k w s) = segmentDispatcher s" "healthSampler (set_worker k w s) = healthSampler s"
  "segmentCollector (set_worker k w s) = segmentCollector s" "last_reading (set_worker k w s) = last_reading s"
  "length (workerPool (set_worker k w s)) = length (workerPool s)"
  by (simp_all add: set_worker_def)

lemma upd_segment_frame [simp]:
  "disp (upd_segment f i s) = disp s" "inFlightCount (upd_segment f i s) = inFlightCount s"
  "peakInFlight (upd_segment f i s) = peakInFlight s" "jobs (upd_segment f i s) = jobs s"
  "chan_closed (upd_segment f i s) = chan_closed s" "lifecycle (upd_segment f i s) = lifecycle s"
  "previousStage (upd_segment f i s) = previousStage s" "dispatcherMetrics (upd_segment f i s) = dispatcherMetrics s"
  "healthSampler (upd_segment f i s) = healthSampler s" "workerPool (upd_segment f i s) = workerPool s"
  "segmentCollector (upd_segment f i s) = segmentCollector s" "last_reading (upd_segment f i s) = last_reading s"
  by (simp_all add: upd_segment_def)

text \<open>How many requests the dispatcher holds between two counters, and what each worker holds.\<close>

fun planned_in_hand :: "disp_pc \<Rightarrow> int" where
  "planned_in_hand (D_Check _ _ _) = 1"
| "planned_in_hand _ = 0"

fun scheduled_in_hand :: "disp_pc \<Rightarrow> int" where
  "scheduled_in_hand (D_Add _ _ _) = 1"
| "scheduled_in_hand (D_Peak _ _ _) = 1"
| "scheduled_in_hand (D_Cas _ _ _ _ _) = 1"
| "scheduled_in_hand (D_Send _ _ _) = 1"
| "scheduled_in_hand _ = 0"

fun flying_in_hand :: "disp_pc \<Rightarrow> int" where
  "flying_in_hand (D_Peak _ _ _) = 1"
| "flying_in_hand (D_Cas _ _ _ _ _) = 1"
| "flying_in_hand (D_Send _ _ _) = 1"
| "flying_in_hand _ = 0"

fun flying :: "worker_pc \<Rightarrow> int" where
  "flying (W_Exec _) = 1"
| "flying (W_Release _ _) = 1"
| "flying _ = 0"

fun unrecorded :: "worker_pc \<Rightarrow> int" where
  "unrecorded (W_Exec _) = 1"
| "unrecorded (W_Release _ _) = 1"
| "unrecorded (W_Record _ _) = 1"
| "unrecorded _ = 0"

fun peak_ok :: "'h open_cfg \<Rightarrow> 'h open_state \<Rightarrow> disp_pc \<Rightarrow> bool" where
  "peak_ok cfg s (D_Add _ _ _) = (inFlightCount s < MaxInFlight cfg)"
| "peak_ok cfg s (D_Cas _ _ _ pk cur) = (pk = peakInFlight s \<and> cur \<le> MaxInFlight cfg)"
| "peak_ok cfg s _ = True"

fun returned_ok :: "worker_pc \<Rightarrow> bool" where
  "returned_ok (W_Release _ ret) = (fst ret \<noteq> None \<or> snd ret)"
| "returned_ok (W_Record _ ret) = (fst ret \<noteq> None \<or> snd ret)"
| "returned_ok _ = True"

definition flow_inv :: "'h open_cfg \<Rightarrow> 'h open_state \<Rightarrow> bool" where
  "flow_inv cfg s \<longleftrightarrow>
     int (length (workerPool s)) = MaxInFlight cfg
     \<and> inFlightCount s = int (length (jobs s)) + pool_sum (\<lambda>w. flying (pw_pc w)) s + flying_in_hand (disp s)
     \<and> inFlightCount s \<le> MaxInFlight cfg \<and> peakInFlight s \<le> MaxInFlight cfg \<and> peak_ok cfg s (disp s)
     \<and> list_all (\<lambda>w. returned_ok (pw_pc w)) (workerPool s)"

definition count_inv :: "'h open_state \<Rightarrow> bool" where
  "count_inv s \<longleftrightarrow>
     Planned (dispatcherMetrics s) = Scheduled (dispatcherMetrics s) + Dropped (dispatcherMetrics s) + planned_in_hand (disp s)
     \<and> Scheduled (dispatcherMetrics s) =
         pool_sum (\<lambda>w. Started (overall w)) s + int (length (jobs s)) + scheduled_in_hand (disp s)
     \<and> pool_sum (\<lambda>w. Started (overall w)) s =
         pool_sum (\<lambda>w. Completed (overall w)) s + pool_sum (\<lambda>w. Canceled (overall w)) s + pool_sum (\<lambda>w. unrecorded (pw_pc w)) s
     \<and> Outcomes (dispatcherMetrics s) OutcomeDropped = Dropped (dispatcherMetrics s) \<and> 0 \<le> Dropped (dispatcherMetrics s)"

lemma pool_nonneg: "(\<And>w. 0 \<le> f w) \<Longrightarrow> 0 \<le> pool_sum f s"
  unfolding pool_sum_def by (rule sum_list_nonneg) auto

lemma flying_nonneg [simp]: "0 \<le> flying pc" by (cases pc) auto

lemma count_simps [simp]:
  "Planned (count_planned d) = Planned d + 1" "Scheduled (count_planned d) = Scheduled d" "Dropped (count_planned d) = Dropped d"
  "Outcomes (count_planned d) = Outcomes d"
  "Planned (count_dropped d) = Planned d" "Scheduled (count_dropped d) = Scheduled d" "Dropped (count_dropped d) = Dropped d + 1"
  "Outcomes (count_dropped d) OutcomeDropped = Outcomes d OutcomeDropped + 1"
  "Planned (count_scheduled d) = Planned d" "Scheduled (count_scheduled d) = Scheduled d + 1" "Dropped (count_scheduled d) = Dropped d"
  "Outcomes (count_scheduled d) = Outcomes d"
  "Started (count_started m) = Started m + 1" "Completed (count_started m) = Completed m" "Canceled (count_started m) = Canceled m"
  by (simp_all add: count_planned_def count_dropped_def count_scheduled_def count_started_def)

lemmas disp_ops = plan_tick_def check_in_flight_def next_segment_def loop_top_def compare_and_swap_def
  close_channel_def finish_run_def Let_def

lemma flow_inv_disp:
  assumes "flow_inv cfg s" "disp_step cfg s e = Some t"
  shows "flow_inv cfg t"
proof -
  have "0 \<le> pool_sum (\<lambda>w. flying (pw_pc w)) s" by (rule pool_nonneg) simp
  then show ?thesis using assms
    by (cases e) (auto simp: flow_inv_def disp_step_def disp_ops split: disp_pc.splits if_splits option.splits prod.splits)
qed

lemma count_inv_disp:
  assumes "count_inv s" "disp_step cfg s e = Some t"
  shows "count_inv t"
  using assms
  by (cases e) (auto simp: count_inv_def disp_step_def disp_ops split: disp_pc.splits if_splits option.splits prod.splits)

lemma record_return_counts:
  assumes "fst ret \<noteq> None \<or> snd ret"
  shows "Completed (record_return H ret m) + Canceled (record_return H ret m) = Completed m + Canceled m + 1"
    and "Started (record_return H ret m) = Started m"
  using assms by (cases ret; cases "fst ret"; auto simp: record_return_def frame_simps)+

lemma work_step_cases:
  assumes "work_step cfg s k w e = Some t"
  obtains (w_recv) job rest where "pw_pc w = W_Idle" "jobs s = job # rest" "t = take_job cfg k w job rest s"
  | (w_return) job ret where "pw_pc w = W_Exec job" "fst ret \<noteq> None \<or> snd ret" "t = set_worker k (w\<lparr>pw_pc := W_Release job ret\<rparr>) s"
  | (w_release) job ret where "pw_pc w = W_Release job ret"
      "t = set_worker k (w\<lparr>pw_pc := W_Record job ret\<rparr>) (s\<lparr>inFlightCount := inFlightCount s - 1\<rparr>)"
  | (w_record) job ret where "pw_pc w = W_Record job ret" "t = set_worker k (record_job cfg job ret w) s"
  | (w_exit) "pw_pc w = W_Idle" "jobs s = []" "chan_closed s"
      "t = set_worker k (w\<lparr>pw_pc := W_Exited\<rparr>) (s\<lparr>segmentCollector := flush_current cfg w (segmentCollector s)\<rparr>)"
proof (cases e)
  case E_Recv
  with assms show ?thesis by (cases "pw_pc w"; cases "jobs s") (simp_all add: work_step_def w_recv)
next
  case (E_Return ret)
  with assms show ?thesis by (cases "pw_pc w") (simp_all add: work_step_def w_return split: if_splits)
next
  case E_Release
  with assms show ?thesis by (cases "pw_pc w") (simp_all add: work_step_def w_release)
next
  case E_Record
  with assms show ?thesis by (cases "pw_pc w") (simp_all add: work_step_def w_record)
next
  case E_Exit
  with assms show ?thesis by (cases "pw_pc w") (simp_all add: work_step_def w_exit split: if_splits)
qed

lemma set_worker_all:
  "list_all P (workerPool s) \<Longrightarrow> P w \<Longrightarrow> list_all P (workerPool (set_worker k w s))"
  by (auto simp: set_worker_def list_all_iff dest!: set_update_subset_insert [THEN subsetD])

lemma take_job_frame [simp]:
  "disp (take_job cfg k w job rest s) = disp s" "inFlightCount (take_job cfg k w job rest s) = inFlightCount s"
  "peakInFlight (take_job cfg k w job rest s) = peakInFlight s" "jobs (take_job cfg k w job rest s) = rest"
  "dispatcherMetrics (take_job cfg k w job rest s) = dispatcherMetrics s"
  "segmentDispatcher (take_job cfg k w job rest s) = segmentDispatcher s"
  "chan_closed (take_job cfg k w job rest s) = chan_closed s" "lifecycle (take_job cfg k w job rest s) = lifecycle s"
  "previousStage (take_job cfg k w job rest s) = previousStage s" "last_reading (take_job cfg k w job rest s) = last_reading s"
  "length (workerPool (take_job cfg k w job rest s)) = length (workerPool s)"
  by (simp_all add: take_job_def Let_def)

lemma switch_segment_frame [simp]: "overall (switch_segment cfg job w) = overall w" "pw_pc (switch_segment cfg job w) = pw_pc w"
  by (simp_all add: switch_segment_def)

lemma peak_ok_frame:
  "peakInFlight t = peakInFlight s \<Longrightarrow> inFlightCount t \<le> inFlightCount s \<Longrightarrow> peak_ok cfg s pc \<Longrightarrow> peak_ok cfg t pc"
  by (cases pc) auto

lemma pool_ret: "list_all (\<lambda>w. returned_ok (pw_pc w)) (workerPool s) \<Longrightarrow> k < length (workerPool s) \<Longrightarrow> returned_ok (pw_pc (workerPool s ! k))"
  by (simp add: list_all_length)

lemma flow_inv_work:
  assumes inv: "flow_inv cfg s" and k: "k < length (workerPool s)" and step: "work_step cfg s k (workerPool s ! k) e = Some t"
  shows "flow_inv cfg t"
  using step
proof (cases rule: work_step_cases)
  case (w_recv job rest)
  have "list_all (\<lambda>w. returned_ok (pw_pc w)) (workerPool t)"
    unfolding w_recv(3) take_job_def Let_def by (rule set_worker_all) (use inv in \<open>simp_all add: flow_inv_def\<close>)
  moreover have "pool_sum (\<lambda>w. flying (pw_pc w)) t = pool_sum (\<lambda>w. flying (pw_pc w)) s + 1"
    using w_recv k by (simp add: take_job_def Let_def)
  moreover have "peak_ok cfg t (disp t)" by (rule peak_ok_frame [of t s]) (use inv w_recv in \<open>simp_all add: flow_inv_def\<close>)
  ultimately show ?thesis using inv w_recv by (simp add: flow_inv_def)
next
  case (w_return job ret)
  then show ?thesis using inv k set_worker_all [of _ s "(workerPool s ! k)\<lparr>pw_pc := W_Release job ret\<rparr>" k]
    by (auto simp: flow_inv_def intro!: peak_ok_frame [of _ s])
next
  case (w_release job ret)
  let ?s = "s\<lparr>inFlightCount := inFlightCount s - 1\<rparr>"
  have "returned_ok (W_Record job ret)" using pool_ret inv k w_release(1) by (fastforce simp: flow_inv_def)
  then have "list_all (\<lambda>w. returned_ok (pw_pc w)) (workerPool t)"
    unfolding w_release(2) using inv by (intro set_worker_all) (simp_all add: flow_inv_def)
  moreover have "peak_ok cfg t (disp t)" by (rule peak_ok_frame [of t s]) (use inv w_release in \<open>simp_all add: flow_inv_def\<close>)
  ultimately show ?thesis using inv k w_release by (simp add: flow_inv_def)
next
  case (w_record job ret)
  then show ?thesis using inv k set_worker_all [of _ s "record_job cfg job ret (workerPool s ! k)" k]
    by (auto simp: flow_inv_def record_job_def intro!: peak_ok_frame [of _ s])
next
  case w_exit
  let ?s = "s\<lparr>segmentCollector := flush_current cfg (workerPool s ! k) (segmentCollector s)\<rparr>"
  show ?thesis using w_exit inv k set_worker_all [of _ ?s "(workerPool s ! k)\<lparr>pw_pc := W_Exited\<rparr>" k]
    by (auto simp: flow_inv_def intro!: peak_ok_frame [of _ s])
qed

lemma count_inv_work:
  assumes inv: "count_inv s" "flow_inv cfg s" and k: "k < length (workerPool s)"
    and step: "work_step cfg s k (workerPool s ! k) e = Some t"
  shows "count_inv t"
  using step
proof (cases rule: work_step_cases)
  case (w_record job ret)
  have "returned_ok (pw_pc (workerPool s ! k))" using inv(2) k by (intro pool_ret) (simp_all add: flow_inv_def)
  then have r: "fst ret \<noteq> None \<or> snd ret" using w_record(1) by simp
  show ?thesis using w_record inv(1) k record_return_counts [OF r, of "ops cfg" "overall (workerPool s ! k)"]
    by (simp add: count_inv_def record_job_def)
qed (use inv k in \<open>auto simp: count_inv_def take_job_def Let_def\<close>)

subsection \<open>Closing and draining\<close>

fun draining :: "disp_pc \<Rightarrow> bool" where
  "draining (D_Drain _) = True"
| "draining D_Finished = True"
| "draining D_Failed = True"
| "draining _ = False"

definition drain_inv :: "'h open_state \<Rightarrow> bool" where
  "drain_inv s \<longleftrightarrow> (chan_closed s \<longrightarrow> draining (disp s))
     \<and> (\<forall>w\<in>set (workerPool s). pw_pc w = W_Exited \<longrightarrow> jobs s = [] \<and> chan_closed s)
     \<and> (disp s = D_Finished \<longrightarrow> all_exited s)"

lemma drain_inv_disp: "drain_inv s \<Longrightarrow> disp_step cfg s e = Some t \<Longrightarrow> drain_inv t"
  by (cases e)
    (auto simp: drain_inv_def disp_step_def disp_ops all_exited_def split: disp_pc.splits if_splits option.splits prod.splits)

lemma drain_inv_work:
  assumes inv: "drain_inv s" and k: "k < length (workerPool s)" and step: "work_step cfg s k (workerPool s ! k) e = Some t"
  shows "drain_inv t"
proof -
  have pool: "w \<in> set (workerPool (set_worker k v u)) \<Longrightarrow> w = v \<or> w \<in> set (workerPool u)" for w v and u :: "'a open_state"
    by (auto simp: set_worker_def dest!: set_update_subset_insert [THEN subsetD])
  have mem: "workerPool s ! k \<in> set (workerPool s)" using k by simp
  have nf: "disp s \<noteq> D_Finished" if "pw_pc (workerPool s ! k) \<noteq> W_Exited"
    using inv mem that by (auto simp: drain_inv_def all_exited_def list_all_iff)
  from step show ?thesis
  proof (cases rule: work_step_cases)
    case (w_recv job rest)
    have "pw_pc w \<noteq> W_Exited" if "w \<in> set (workerPool s)" for w
      using inv that w_recv(2) by (auto simp: drain_inv_def)
    then show ?thesis using inv w_recv nf by (auto simp: drain_inv_def take_job_def Let_def dest!: pool)
  next
    case (w_return job ret)
    then show ?thesis using inv nf by (auto simp: drain_inv_def dest!: pool)
  next
    case (w_release job ret)
    then show ?thesis using inv nf by (auto simp: drain_inv_def dest!: pool)
  next
    case (w_record job ret)
    then show ?thesis using inv nf by (auto simp: drain_inv_def record_job_def dest!: pool)
  next
    case w_exit
    then show ?thesis using inv nf by (auto simp: drain_inv_def dest!: pool)
  qed
qed

fun life_inv :: "LifecycleState \<Rightarrow> disp_pc \<Rightarrow> bool" where
  "life_inv st (D_Drain _) = (st = StateCanceled \<or> st = StateGracefulStop)"
| "life_inv st D_Finished = (st = StateCompleted)"
| "life_inv st D_Failed = True"
| "life_inv st _ = (st = StateWarmup \<or> st = StateRunning \<or> st = StateCooldown)"

lemma enterStage_ok:
  "enterStage m stage = (m', None) \<Longrightarrow> current m' \<in> {StateWarmup, StateRunning, StateCooldown}"
  by (auto simp: enterStage_def TransitionTo_def Let_def split: if_splits)

lemma life_inv_loop: "life_inv st (loop_top cfg i tick now done) = (st = StateWarmup \<or> st = StateRunning \<or> st = StateCooldown)"
  by (simp add: loop_top_def)

lemma life_inv_disp:
  assumes "life_inv (current (lifecycle s)) (disp s)" "disp_step cfg s e = Some t"
  shows "life_inv (current (lifecycle t)) (disp t)"
proof (cases e)
  case E_Segment
  then show ?thesis using assms enterStage_ok
    by (fastforce simp: disp_step_def next_segment_def Let_def split: disp_pc.splits if_splits option.splits prod.splits)
next
  case E_Close
  then show ?thesis using assms
    by (auto simp: disp_step_def close_channel_def current_attempt CanTransitionTo_def split: disp_pc.splits if_splits)
next
  case (E_Drained dn)
  then show ?thesis using assms
    by (auto simp: disp_step_def finish_run_def current_attempt CanTransitionTo_def split: disp_pc.splits if_splits)
qed (use assms in \<open>auto simp: disp_step_def plan_tick_def check_in_flight_def compare_and_swap_def life_inv_loop Let_def
      split: disp_pc.splits if_splits\<close>)

lemma work_step_frame:
  assumes "work_step cfg s k w e = Some t"
  shows "disp t = disp s" "lifecycle t = lifecycle s" "dispatcherMetrics t = dispatcherMetrics s"
    "segmentDispatcher t = segmentDispatcher s" "previousStage t = previousStage s" "last_reading t = last_reading s"
    "peakInFlight t = peakInFlight s"
  using assms by (cases rule: work_step_cases; simp)+

subsection \<open>Reachable states\<close>

definition open_inv :: "'h open_cfg \<Rightarrow> 'h open_state \<Rightarrow> bool" where
  "open_inv cfg s \<longleftrightarrow> flow_inv cfg s \<and> count_inv s \<and> drain_inv s \<and> life_inv (current (lifecycle s)) (disp s)"

lemma open_inv_start:
  assumes "open_start cfg = Inr s" "0 < MaxInFlight cfg"
  shows "open_inv cfg s"
proof -
  from assms(1) obtain m where m: "enterStage NewLifecycleStateMachine (seg_Stage (segments cfg ! 0)) = (m, None)"
    and s: "s = \<lparr>disp = D_Seg 0, inFlightCount = 0, peakInFlight = 0, jobs = [], chan_closed = False, lifecycle = m,
          previousStage = seg_Stage (segments cfg ! 0), dispatcherMetrics = NewWorkerMetrics (ops cfg) (- 1),
          segmentDispatcher = map (\<lambda>_. NewWorkerMetrics (ops cfg) (- 1)) (segments cfg),
          healthSampler = health_Start NewGeneratorHealthSampler,
          workerPool = map (new_pool_worker (ops cfg)) [0..MaxInFlight cfg - 1],
          segmentCollector = NewSegmentCollector (ops cfg) (int (length (segments cfg))),
          last_reading = startTime cfg\<rparr>"
    by (auto simp: open_start_def Let_def split: prod.splits option.splits)
  have p: "pool_sum f s = 0" if "\<And>i. f (new_pool_worker (ops cfg) i) = 0" for f
    using that by (simp add: pool_sum_def s comp_def)
  show ?thesis
    using assms(2) enterStage_ok [OF m] p
    by (auto simp: open_inv_def flow_inv_def count_inv_def drain_inv_def s new_pool_worker_def NewWorkerMetrics_def list_all_iff)
qed

lemma open_inv_step:
  assumes "open_inv cfg s" "open_step cfg s e = Some t"
  shows "open_inv cfg t"
proof (cases e)
  case (Disp d)
  then show ?thesis using assms flow_inv_disp count_inv_disp drain_inv_disp life_inv_disp
    by (auto simp: open_inv_def)
next
  case (Work k w)
  then have k: "k < length (workerPool s)" and step: "work_step cfg s k (workerPool s ! k) w = Some t"
    using assms(2) by (auto split: if_splits)
  show ?thesis
    using assms(1) flow_inv_work [OF _ k step] count_inv_work [OF _ _ k step] drain_inv_work [OF _ k step]
      work_step_frame [OF step] by (auto simp: open_inv_def)
qed

interpretation open_sys: inductive_invariant
  "\<lambda>s. open_start cfg = Inr s \<and> 0 < MaxInFlight cfg" "\<lambda>s t. \<exists>e. open_step cfg s e = Some t" "open_inv cfg" for cfg
  by unfold_locales (auto intro: open_inv_start open_inv_step)

lemma open_run_steps: "open_run cfg s es = Some t \<Longrightarrow> (\<lambda>s t. \<exists>e. open_step cfg s e = Some t)\<^sup>*\<^sup>* s t"
proof (induction es arbitrary: s)
  case (Cons e es)
  then obtain u where u: "open_step cfg s e = Some u" "open_run cfg u es = Some t" by (auto simp: bind_eq_Some_conv)
  show ?case by (rule converse_rtranclp_into_rtranclp [OF _ Cons.IH [OF u(2)]]) (use u(1) in blast)
qed simp

lemma open_run_inv:
  assumes "open_start cfg = Inr s0" "0 < MaxInFlight cfg" "open_run cfg s0 es = Some s"
  shows "open_inv cfg s"
  using open_sys.run_inv [OF open_inv_start [OF assms(1,2)] open_run_steps [OF assms(3)]] .

section \<open>Properties\<close>

subsection \<open>A sample run\<close>

definition sample_segment :: Segment where
  "sample_segment = \<lparr>seg_Index = 0, seg_Name = ''m'', seg_Stage = StageMeasured, seg_StartOffset = 0,
     seg_EndOffset = 100, seg_StartOffsetMS = 0, seg_EndOffsetMS = 0, seg_Duration = 100, seg_DurationMS = 0,
     seg_Rate = F_Fin 1, seg_TargetRPS = F_Fin 1, seg_IncludedMeasured = True\<rparr>"

text \<open>One request at most in flight, one request every 40 ns for 100 ns.\<close>

definition sample_cfg :: "int list open_cfg" where
  "sample_cfg = \<lparr>ops = exact_hdr, MaxInFlight = 1, TimeUnit = 40, segments = [sample_segment], startTime = 1000,
     float_oob = (\<lambda>_. 0)\<rparr>"

text \<open>The first request is sent, the second is dropped while the first is still running, then the run ends.\<close>

definition sample_events :: "open_event list" where
  "sample_events = map Disp [E_Segment, E_Top 1000 False, E_Plan 1001, E_Check, E_Add, E_Peak, E_Cas, E_Send]
     @ [Work 0 E_Recv]
     @ map Disp [E_Top 1002 False, E_Timer, E_Plan 1041, E_Check]
     @ [Work 0 (E_Return (Some (sample_result OutcomeSuccess 200), False)), Work 0 E_Release, Work 0 E_Record]
     @ map Disp [E_Top 1100 False, E_Segment, E_Close]
     @ [Work 0 E_Exit, Disp (E_Drained False)]"

lemma sample_interval: "seg_interval sample_cfg sample_segment = 40"
  by (simp add: seg_interval_def sample_cfg_def sample_segment_def f_of_int_exact rnd_numeral rat_trunc_def)

lemmas sample_run_simps =
  sample_cfg_def sample_segment_def sample_events_def open_start_def enterStage_def TransitionTo_def CanTransitionTo_def
  NewLifecycleStateMachine_def Let_def new_pool_worker_def disp_step_def work_step_def disp_ops segmentStart_def segmentEnd_def
  time_add_def time_sub_def upd_segment_def seg_slot_def next_tick_def record_lag_def take_job_def switch_segment_def
  flush_current_def set_worker_def record_job_def all_exited_def stage_defs attempt_def lag_ms_def

lemma sample_start: "\<exists>s0. open_start sample_cfg = Inr s0"
  by (simp add: sample_run_simps)

lemma sample_run:
  "\<exists>s0 s. open_start sample_cfg = Inr s0 \<and> open_run sample_cfg s0 sample_events = Some s \<and> disp s = D_Finished
     \<and> Planned (dispatcherMetrics s) = 2 \<and> Dropped (dispatcherMetrics s) = 1"
  using sample_interval
  by (simp add: sample_run_simps NewWorkerMetrics_def)

subsection \<open>Concurrency\<close>

lemma flow_inv_bounds:
  assumes "flow_inv cfg s"
  shows "0 \<le> inFlightCount s" "inFlightCount s \<le> MaxInFlight cfg" "peakInFlight s \<le> MaxInFlight cfg"
    "int (length (jobs s)) \<le> MaxInFlight cfg"
    "disp s = D_Send i tick job \<Longrightarrow> open_step cfg s (Disp E_Send) \<noteq> None"
proof -
  have f: "0 \<le> pool_sum (\<lambda>w. flying (pw_pc w)) s" by (rule pool_nonneg) simp
  have "0 \<le> flying_in_hand (disp s)" by (cases "disp s") auto
  then show "0 \<le> inFlightCount s" "inFlightCount s \<le> MaxInFlight cfg" "peakInFlight s \<le> MaxInFlight cfg"
    "int (length (jobs s)) \<le> MaxInFlight cfg"
    using assms f by (auto simp: flow_inv_def)
  assume d: "disp s = D_Send i tick job"
  then have "int (length (jobs s)) < int (length (workerPool s))" using assms f by (auto simp: flow_inv_def)
  then show "open_step cfg s (Disp E_Send) \<noteq> None" using d by (simp add: disp_step_def)
qed

text \<open>C4. However the dispatcher and the workers interleave, the number of requests in flight stays between zero and the
  configured maximum, so does the reported peak, and the job channel never holds more than its capacity: a dispatcher
  that has admitted a request can always send it and never blocks.\<close>

theorem open_in_flight_bounded:
  assumes "open_start cfg = Inr s0" "0 < MaxInFlight cfg" "open_run cfg s0 es = Some s"
  shows "0 \<le> inFlightCount s \<and> inFlightCount s \<le> MaxInFlight cfg \<and> peakInFlight s \<le> MaxInFlight cfg
    \<and> int (length (jobs s)) \<le> int (length (workerPool s))
    \<and> (\<forall>i tick job. disp s = D_Send i tick job \<longrightarrow> open_step cfg s (Disp E_Send) \<noteq> None)"
proof -
  have inv: "flow_inv cfg s" using open_run_inv [OF assms] by (simp add: open_inv_def)
  then have "int (length (workerPool s)) = MaxInFlight cfg" by (simp add: flow_inv_def)
  then show ?thesis using flow_inv_bounds [OF inv] by simp
qed

theorem open_in_flight_bounded_witness:
  "\<exists>s0 s. open_start sample_cfg = Inr s0 \<and> open_run sample_cfg s0 sample_events = Some s \<and> inFlightCount s \<le> 1"
proof -
  obtain s0 s where s: "open_start sample_cfg = Inr s0" "open_run sample_cfg s0 sample_events = Some s"
    using sample_run by blast
  moreover have "MaxInFlight sample_cfg = 1" by (simp add: sample_cfg_def)
  ultimately show ?thesis using open_in_flight_bounded [OF s(1) _ s(2)] by (intro exI conjI) auto
qed

text \<open>Once the run is finished, nothing is in flight, queued or unrecorded.\<close>

lemma finished_totals:
  assumes "open_inv cfg s" "disp s = D_Finished" "0 < MaxInFlight cfg"
  shows "inFlightCount s = 0" "jobs s = []"
    "Planned (dispatcherMetrics s) = Scheduled (dispatcherMetrics s) + Dropped (dispatcherMetrics s)"
    "Scheduled (dispatcherMetrics s) = pool_sum (\<lambda>w. Started (overall w)) s"
    "pool_sum (\<lambda>w. Started (overall w)) s = pool_sum (\<lambda>w. Completed (overall w)) s + pool_sum (\<lambda>w. Canceled (overall w)) s"
    "current (lifecycle s) = StateCompleted"
proof -
  have ex: "\<forall>w\<in>set (workerPool s). pw_pc w = W_Exited" and d: "drain_inv s"
    using assms(1,2) by (auto simp: open_inv_def drain_inv_def all_exited_def list_all_iff)
  have "workerPool s \<noteq> []" using assms(1,3) by (auto simp: open_inv_def flow_inv_def)
  then have "hd (workerPool s) \<in> set (workerPool s)" by simp
  then show j: "jobs s = []" using ex d unfolding drain_inv_def by blast
  have "pool_sum (\<lambda>w. flying (pw_pc w)) s = pool_sum (\<lambda>w. 0) s" "pool_sum (\<lambda>w. unrecorded (pw_pc w)) s = pool_sum (\<lambda>w. 0) s"
    unfolding pool_sum_def using ex by (intro arg_cong [where f = sum_list] map_cong; simp)+
  then have z: "pool_sum (\<lambda>w. flying (pw_pc w)) s = 0" "pool_sum (\<lambda>w. unrecorded (pw_pc w)) s = 0"
    by (simp_all add: pool_sum_def)
  show "inFlightCount s = 0"
    "Planned (dispatcherMetrics s) = Scheduled (dispatcherMetrics s) + Dropped (dispatcherMetrics s)"
    "Scheduled (dispatcherMetrics s) = pool_sum (\<lambda>w. Started (overall w)) s"
    "pool_sum (\<lambda>w. Started (overall w)) s = pool_sum (\<lambda>w. Completed (overall w)) s + pool_sum (\<lambda>w. Canceled (overall w)) s"
    "current (lifecycle s) = StateCompleted"
    using assms(1,2) j z by (auto simp: open_inv_def flow_inv_def count_inv_def)
qed

text \<open>C1. A finished run has accounted for every request it planned: each planned request was either dropped or
  scheduled, each scheduled one was started, each started one completed or was canceled; nothing is left in flight or
  in the channel, and the lifecycle has reached its final state.\<close>

theorem open_conservation:
  assumes "open_start cfg = Inr s0" "0 < MaxInFlight cfg" "open_run cfg s0 es = Some s" "disp s = D_Finished"
  shows "Planned (dispatcherMetrics s) = Dropped (dispatcherMetrics s)
      + pool_sum (\<lambda>w. Completed (overall w)) s + pool_sum (\<lambda>w. Canceled (overall w)) s
    \<and> Scheduled (dispatcherMetrics s) = pool_sum (\<lambda>w. Started (overall w)) s
    \<and> inFlightCount s = 0 \<and> jobs s = [] \<and> current (lifecycle s) = StateCompleted"
  using finished_totals [OF open_run_inv [OF assms(1-3)] assms(4,2)] by simp

theorem open_conservation_witness:
  "\<exists>s0 s. open_start sample_cfg = Inr s0 \<and> open_run sample_cfg s0 sample_events = Some s
     \<and> current (lifecycle s) = StateCompleted"
proof -
  obtain s0 s where s: "open_start sample_cfg = Inr s0" "open_run sample_cfg s0 sample_events = Some s" "disp s = D_Finished"
    using sample_run by blast
  moreover have "0 < MaxInFlight sample_cfg" by (simp add: sample_cfg_def)
  ultimately show ?thesis using open_conservation [OF s(1) _ s(2,3)] by (intro exI conjI) auto
qed

subsection \<open>Pacing\<close>

text \<open>A configuration as the constructor and the profile compiler make it.\<close>

definition cfg_ok :: "'h open_cfg \<Rightarrow> bool" where
  "cfg_ok cfg \<longleftrightarrow> 0 < MaxInFlight cfg \<and> segments cfg \<noteq> []
     \<and> (\<forall>i<length (segments cfg). seg_Index (segments cfg ! i) = int i
         \<and> 0 < seg_interval cfg (segments cfg ! i) \<and> seg_interval cfg (segments cfg ! i) \<le> MaxInt64
         \<and> seg_StartOffset (segments cfg ! i) \<le> MaxInt64
         \<and> seg_EndOffset (segments cfg ! i) = seg_StartOffset (segments cfg ! i) + seg_Duration (segments cfg ! i))"

definition seg_planned :: "'h open_state \<Rightarrow> nat \<Rightarrow> int" where
  "seg_planned s j = Planned (segmentDispatcher s ! j)"

definition tick_ok :: "'h open_cfg \<Rightarrow> 'h open_state \<Rightarrow> nat \<Rightarrow> Time \<Rightarrow> bool" where
  "tick_ok cfg s i tick \<longleftrightarrow> i < length (segments cfg)
     \<and> segmentStart cfg i + seg_planned s i * seg_interval cfg (segments cfg ! i) \<le> tick
     \<and> tick - last_reading s \<le> MaxInt64 \<and> (\<forall>j. i < j \<longrightarrow> j < length (segments cfg) \<longrightarrow> seg_planned s j = 0)"

fun pace_pc :: "'h open_cfg \<Rightarrow> 'h open_state \<Rightarrow> disp_pc \<Rightarrow> bool" where
  "pace_pc cfg s (D_Seg i) = (\<forall>j. i \<le> j \<longrightarrow> j < length (segments cfg) \<longrightarrow> seg_planned s j = 0)"
| "pace_pc cfg s (D_Loop i tick) = tick_ok cfg s i tick"
| "pace_pc cfg s (D_Wait i tick wake) = (tick_ok cfg s i tick \<and> tick \<le> wake)"
| "pace_pc cfg s (D_Woke i tick earliest) = (tick_ok cfg s i tick \<and> tick \<le> earliest)"
| "pace_pc cfg s (D_Check i tick _) = tick_ok cfg s i tick"
| "pace_pc cfg s (D_Add i tick _) = tick_ok cfg s i tick"
| "pace_pc cfg s (D_Peak i tick _) = tick_ok cfg s i tick"
| "pace_pc cfg s (D_Cas i tick _ _ _) = tick_ok cfg s i tick"
| "pace_pc cfg s (D_Send i tick _) = tick_ok cfg s i tick"
| "pace_pc cfg s _ = True"

definition pace_inv :: "'h open_cfg \<Rightarrow> 'h open_state \<Rightarrow> bool" where
  "pace_inv cfg s \<longleftrightarrow> length (segmentDispatcher s) = length (segments cfg) \<and> startTime cfg \<le> last_reading s
     \<and> (\<forall>j<length (segments cfg). 0 \<le> seg_planned s j \<and> (0 < seg_planned s j \<longrightarrow>
          (seg_planned s j - 1) * seg_interval cfg (segments cfg ! j) < seg_Duration (segments cfg ! j)))
     \<and> pace_pc cfg s (disp s)"

lemma seg_planned_frame [simp]:
  "seg_planned (s\<lparr>disp := x1\<rparr>) = seg_planned s" "seg_planned (s\<lparr>inFlightCount := x2\<rparr>) = seg_planned s"
  "seg_planned (s\<lparr>peakInFlight := x3\<rparr>) = seg_planned s" "seg_planned (s\<lparr>jobs := x4\<rparr>) = seg_planned s"
  "seg_planned (s\<lparr>chan_closed := x5\<rparr>) = seg_planned s" "seg_planned (s\<lparr>lifecycle := x6\<rparr>) = seg_planned s"
  "seg_planned (s\<lparr>previousStage := x7\<rparr>) = seg_planned s" "seg_planned (s\<lparr>dispatcherMetrics := x8\<rparr>) = seg_planned s"
  "seg_planned (s\<lparr>healthSampler := x10\<rparr>) = seg_planned s" "seg_planned (s\<lparr>last_reading := x12\<rparr>) = seg_planned s"
  by (simp_all add: seg_planned_def fun_eq_iff)

lemma upd_segment_length [simp]: "length (segmentDispatcher (upd_segment f i s)) = length (segmentDispatcher s)"
  by (simp add: upd_segment_def)

lemma seg_planned_upd:
  "i < length (segmentDispatcher s) \<Longrightarrow> seg_planned (upd_segment f i s) j =
    (if j = i then Planned (f (segmentDispatcher s ! i)) else seg_planned s j)"
  by (simp add: seg_planned_def upd_segment_def nth_list_update)

lemma next_tick_bounds:
  assumes "tick \<le> actual" "0 < interval"
  shows "tick + interval \<le> next_tick interval tick actual" "next_tick interval tick actual \<le> actual + interval"
  using assms by (auto simp: next_tick_def time_add_def)

lemma tick_ok_mono:
  "tick_ok cfg s i tick \<Longrightarrow> seg_planned t = seg_planned s \<Longrightarrow> last_reading s \<le> last_reading t \<Longrightarrow> tick_ok cfg t i tick"
  by (auto simp: tick_ok_def)

lemma pace_inv_frame:
  assumes "pace_inv cfg s" "seg_planned t = seg_planned s" "last_reading t = last_reading s"
    "length (segmentDispatcher t) = length (segmentDispatcher s)" "pace_pc cfg t (disp t)"
  shows "pace_inv cfg t"
  using assms by (auto simp: pace_inv_def)

lemma pace_pc_mono:
  assumes "pace_pc cfg s pc" "seg_planned t = seg_planned s" "last_reading t = last_reading s"
  shows "pace_pc cfg t pc"
  using assms by (cases pc) (auto simp: tick_ok_def)

lemma pace_plan:
  assumes ok: "cfg_ok cfg" and inv: "pace_inv cfg s" and d: "disp s = D_Woke i tick earliest" and a: "earliest \<le> actual"
    and reading: "last_reading s \<le> actual"
  shows "pace_inv cfg (plan_tick cfg i tick actual (s\<lparr>last_reading := actual\<rparr>))"
proof -
  let ?I = "seg_interval cfg (segments cfg ! i)"
  have t: "tick_ok cfg s i tick" "tick \<le> actual" using inv d a by (auto simp: pace_inv_def)
  then have i: "i < length (segments cfg)" by (simp add: tick_ok_def)
  have slot: "seg_slot cfg i = i" "i < length (segmentDispatcher s)" and I: "0 < ?I" "?I \<le> MaxInt64"
    and e: "segmentEnd cfg i = segmentStart cfg i + seg_Duration (segments cfg ! i)"
    using ok inv i by (auto simp: cfg_ok_def pace_inv_def seg_slot_def segmentEnd_def segmentStart_def time_add_def)
  let ?u = "s\<lparr>last_reading := actual\<rparr>"
  show ?thesis
  proof (cases "actual \<ge> segmentEnd cfg i")
    case True
    then show ?thesis using inv t reading by (auto simp: plan_tick_def pace_inv_def tick_ok_def Suc_le_eq)
  next
    case False
    let ?t = "plan_tick cfg i tick actual ?u"
    have p: "seg_planned ?t j = (if j = i then seg_planned s i + 1 else seg_planned s j)" for j
      using False slot by (simp add: plan_tick_def Let_def seg_planned_upd record_lag_def seg_planned_def upd_segment_def nth_list_update)
    have f: "length (segmentDispatcher ?t) = length (segmentDispatcher s)" "last_reading ?t = actual"
      "disp ?t = D_Check i (next_tick ?I tick actual) \<lparr>intendedTime = tick, actualTime = actual,
         segmentIndex = seg_Index (segments cfg ! i), plannedOffsetNS = time_sub tick (startTime cfg)\<rparr>"
      using False by (simp_all add: plan_tick_def Let_def)
    have "seg_planned s i * ?I < seg_Duration (segments cfg ! i)"
      using t e False by (auto simp: tick_ok_def)
    moreover have "0 \<le> seg_planned s i" using inv i by (auto simp: pace_inv_def)
    moreover have "tick_ok cfg ?t i (next_tick ?I tick actual)"
      using t p i I next_tick_bounds [OF t(2) I(1)] by (auto simp: tick_ok_def f distrib_right)
    ultimately show ?thesis using inv p f t reading by (auto simp: pace_inv_def)
  qed
qed

lemma reading_woke:
  assumes "pace_inv cfg s" "disp s = D_Loop i tick" "last_reading s \<le> now"
  shows "pace_inv cfg (s\<lparr>last_reading := now, disp := loop_top cfg i tick now c\<rparr>)"
proof -
  have t: "tick_ok cfg s i tick" using assms by (auto simp: pace_inv_def)
  then have "tick - now \<le> MaxInt64" using assms(3) by (auto simp: tick_ok_def)
  then have "time_sub tick now > 0 \<Longrightarrow> tick \<le> time_add now (time_sub tick now)" "\<not> time_sub tick now > 0 \<Longrightarrow> tick \<le> now"
    by (auto simp: time_add_def time_sub_def split: if_splits)
  moreover have "tick_ok cfg (s\<lparr>last_reading := now, disp := x\<rparr>) i tick" for x
    by (rule tick_ok_mono [OF t]) (use assms(3) in simp_all)
  ultimately show ?thesis using assms t by (auto simp: pace_inv_def loop_top_def tick_ok_def Suc_le_eq)
qed

text \<open>The second reading of the clock is not before the first.\<close>

fun woke_ok :: "'h open_state \<Rightarrow> disp_pc \<Rightarrow> bool" where
  "woke_ok s (D_Wait _ _ wake) = (last_reading s \<le> wake)"
| "woke_ok s (D_Woke _ _ earliest) = (last_reading s \<le> earliest)"
| "woke_ok s _ = True"

lemma woke_ok_disp:
  assumes "woke_ok s (disp s)" "disp_step cfg s e = Some t"
  shows "woke_ok t (disp t)"
  using assms
  by (cases e) (auto simp: disp_step_def disp_ops time_add_def split: disp_pc.splits if_splits option.splits prod.splits)

lemma pace_inv_disp:
  assumes ok: "cfg_ok cfg" and inv: "pace_inv cfg s" "woke_ok s (disp s)" and step: "disp_step cfg s e = Some t"
  shows "pace_inv cfg t"
proof (cases e)
  case (E_Plan actual)
  with step obtain i tick earliest where d: "disp s = D_Woke i tick earliest" and a: "earliest \<le> actual"
    and t: "t = plan_tick cfg i tick actual (s\<lparr>last_reading := actual\<rparr>)"
    by (auto simp: disp_step_def split: disp_pc.splits if_splits)
  have "last_reading s \<le> actual" using inv(2) d a by simp
  then show ?thesis unfolding t by (rule pace_plan [OF ok inv(1) d a])
next
  case (E_Top now c)
  with step obtain i tick where "disp s = D_Loop i tick" "last_reading s \<le> now"
    "t = s\<lparr>last_reading := now, disp := loop_top cfg i tick now c\<rparr>"
    by (auto simp: disp_step_def split: disp_pc.splits if_splits)
  then show ?thesis using reading_woke [OF inv(1)] by simp
next
  case E_Segment
  with step obtain i where d: "disp s = D_Seg i" and t: "t = next_segment cfg i s"
    by (auto simp: disp_step_def split: disp_pc.splits)
  have "tick_ok cfg (s\<lparr>disp := x\<rparr>) i (segmentStart cfg i)" if "i < length (segments cfg)" for x
    using inv(1) ok d that by (auto simp: pace_inv_def tick_ok_def cfg_ok_def segmentStart_def time_add_def)
  then show ?thesis using inv(1) unfolding t
    by (auto simp: next_segment_def Let_def pace_inv_def tick_ok_def split: prod.splits option.splits)
next
  case E_Check
  with step obtain i tick job where d: "disp s = D_Check i tick job" and t: "t = check_in_flight cfg i tick job s"
    by (auto simp: disp_step_def split: disp_pc.splits)
  have i: "i < length (segmentDispatcher s)" "seg_slot cfg i = i"
    using inv(1) ok d by (auto simp: pace_inv_def tick_ok_def cfg_ok_def seg_slot_def)
  have "seg_planned t = seg_planned s" using i unfolding t
    by (auto simp: check_in_flight_def fun_eq_iff seg_planned_upd) (auto simp: seg_planned_def)
  then show ?thesis using inv(1) d unfolding t
    by (intro pace_inv_frame [OF inv(1)]) (auto simp: check_in_flight_def pace_inv_def tick_ok_def)
qed (use step inv(1) in \<open>auto simp: disp_step_def compare_and_swap_def close_channel_def finish_run_def pace_inv_def tick_ok_def
      split: disp_pc.splits if_splits\<close>)

subsection \<open>Segments account for the whole run\<close>

definition seg_total :: "('h WorkerMetrics \<Rightarrow> int) \<Rightarrow> 'h open_state \<Rightarrow> int" where
  "seg_total f s = (\<Sum>d\<leftarrow>segmentDispatcher s. f d)"

lemma seg_total_upd: "i < length (segmentDispatcher s) \<Longrightarrow>
   seg_total f (upd_segment g i s) = seg_total f s - f (segmentDispatcher s ! i) + f (g (segmentDispatcher s ! i))"
  by (simp add: seg_total_def upd_segment_def sum_list_update_int)

lemma seg_total_frame [simp]:
  "seg_total f (s\<lparr>disp := x1\<rparr>) = seg_total f s" "seg_total f (s\<lparr>inFlightCount := x2\<rparr>) = seg_total f s"
  "seg_total f (s\<lparr>peakInFlight := x3\<rparr>) = seg_total f s" "seg_total f (s\<lparr>jobs := x4\<rparr>) = seg_total f s"
  "seg_total f (s\<lparr>chan_closed := x5\<rparr>) = seg_total f s" "seg_total f (s\<lparr>lifecycle := x6\<rparr>) = seg_total f s"
  "seg_total f (s\<lparr>previousStage := x7\<rparr>) = seg_total f s" "seg_total f (s\<lparr>dispatcherMetrics := x8\<rparr>) = seg_total f s"
  "seg_total f (s\<lparr>healthSampler := x10\<rparr>) = seg_total f s" "seg_total f (s\<lparr>last_reading := x12\<rparr>) = seg_total f s"
  by (simp_all add: seg_total_def)

definition seg_inv :: "'h open_state \<Rightarrow> bool" where
  "seg_inv s \<longleftrightarrow> seg_total Planned s = Planned (dispatcherMetrics s)
     \<and> seg_total Scheduled s = Scheduled (dispatcherMetrics s) \<and> seg_total Dropped s = Dropped (dispatcherMetrics s)"

lemma record_lag_counts [simp]:
  "Planned (record_lag d lag) = Planned d" "Scheduled (record_lag d lag) = Scheduled d" "Dropped (record_lag d lag) = Dropped d"
  by (simp_all add: record_lag_def)

lemma seg_inv_disp:
  assumes ok: "cfg_ok cfg" and inv: "seg_inv s" "pace_inv cfg s" and step: "disp_step cfg s e = Some t"
  shows "seg_inv t"
proof (cases e)
  case (E_Plan actual)
  with step obtain i tick earliest where d: "disp s = D_Woke i tick earliest"
    and t: "t = plan_tick cfg i tick actual (s\<lparr>last_reading := actual\<rparr>)"
    by (auto simp: disp_step_def split: disp_pc.splits if_splits)
  have "i < length (segmentDispatcher s)" "seg_slot cfg i = i"
    using inv(2) ok d by (auto simp: pace_inv_def tick_ok_def cfg_ok_def seg_slot_def)
  then show ?thesis using inv(1) unfolding t seg_inv_def plan_tick_def Let_def by (auto simp: seg_total_upd)
next
  case E_Check
  with step obtain i tick job where d: "disp s = D_Check i tick job" and t: "t = check_in_flight cfg i tick job s"
    by (auto simp: disp_step_def split: disp_pc.splits)
  have "i < length (segmentDispatcher s)" "seg_slot cfg i = i"
    using inv(2) ok d by (auto simp: pace_inv_def tick_ok_def cfg_ok_def seg_slot_def)
  then show ?thesis using inv(1) unfolding t seg_inv_def check_in_flight_def by (auto simp: seg_total_upd)
qed (use step inv(1) in \<open>auto simp: disp_step_def next_segment_def compare_and_swap_def close_channel_def finish_run_def seg_inv_def Let_def
      split: disp_pc.splits if_splits prod.splits option.splits\<close>)

definition pacing :: "'h open_cfg \<Rightarrow> 'h open_state \<Rightarrow> bool" where
  "pacing cfg s \<longleftrightarrow> cfg_ok cfg \<and> pace_inv cfg s \<and> woke_ok s (disp s) \<and> seg_inv s"

lemma pacing_step:
  assumes "pacing cfg s" "open_step cfg s e = Some t"
  shows "pacing cfg t"
proof (cases e)
  case (Disp d)
  then show ?thesis using assms pace_inv_disp woke_ok_disp seg_inv_disp by (auto simp: pacing_def)
next
  case (Work k w)
  then have step: "work_step cfg s k (workerPool s ! k) w = Some t" using assms(2) by (auto split: if_splits)
  note f = work_step_frame [OF step]
  have p: "seg_planned t = seg_planned s" by (simp add: fun_eq_iff seg_planned_def f)
  have inv: "pace_inv cfg s" and woke: "woke_ok s (disp s)" and seg: "seg_inv s" and ok: "cfg_ok cfg"
    using assms(1) by (simp_all add: pacing_def)
  have "pace_pc cfg s (disp s)" using inv by (simp add: pace_inv_def)
  then have "pace_pc cfg t (disp t)" unfolding f(1) by (rule pace_pc_mono [OF _ p f(6)])
  then have "pace_inv cfg t" by (intro pace_inv_frame [OF inv p f(6)]) (simp_all add: f(4))
  moreover have "woke_ok t (disp t)" unfolding f(1) using woke f(6) by (cases "disp s") simp_all
  moreover have "seg_inv t" using seg by (simp add: seg_inv_def seg_total_def f(3,4))
  ultimately show ?thesis using ok by (simp add: pacing_def)
qed

lemma pacing_start:
  assumes "open_start cfg = Inr s" "cfg_ok cfg"
  shows "pacing cfg s"
proof -
  have "disp s = D_Seg 0" "segmentDispatcher s = map (\<lambda>_. NewWorkerMetrics (ops cfg) (- 1)) (segments cfg)"
    "last_reading s = startTime cfg" "dispatcherMetrics s = NewWorkerMetrics (ops cfg) (- 1)"
    using assms(1) by (auto simp: open_start_def Let_def split: prod.splits option.splits)
  then show ?thesis using assms(2)
    by (auto simp: pacing_def pace_inv_def seg_inv_def seg_planned_def seg_total_def NewWorkerMetrics_def comp_def)
qed

interpretation pace_sys: inductive_invariant
  "\<lambda>s. open_start cfg = Inr s \<and> cfg_ok cfg" "\<lambda>s t. \<exists>e. open_step cfg s e = Some t" "pacing cfg" for cfg
  by unfold_locales (auto intro: pacing_start pacing_step)

lemma open_run_pacing:
  assumes "open_start cfg = Inr s0" "cfg_ok cfg" "open_run cfg s0 es = Some s"
  shows "pacing cfg s"
  using pace_sys.run_inv [OF pacing_start [OF assms(1,2)] open_run_steps [OF assms(3)]] .



end
