(* ===== verification/Scheduler_Stages.thy ===== *)
theory Scheduler_Stages
  imports Scheduler_Open
begin

text \<open>
  The stages of an open-model run against the lifecycle machine: a profile whose stages follow each other in the order
  warm-up, measured, cool-down, each present stage next to the one before it, is run through without a refused
  transition, whatever the interleaving.
\<close>

definition stage_step :: "string \<Rightarrow> string \<Rightarrow> bool" where
  "stage_step a b \<longleftrightarrow> a = b \<or> a = StageWarmup \<and> b = StageMeasured \<or> a = StageMeasured \<and> b = StageCooldown"

abbreviation stage_at :: "'h open_cfg \<Rightarrow> nat \<Rightarrow> string" where
  "stage_at cfg i \<equiv> seg_Stage (segments cfg ! i)"

definition stages_ok :: "'h open_cfg \<Rightarrow> bool" where
  "stages_ok cfg \<longleftrightarrow> segments cfg \<noteq> [] \<and> stage_at cfg 0 \<in> {StageWarmup, StageMeasured}
     \<and> (\<forall>i. Suc i < length (segments cfg) \<longrightarrow> stage_step (stage_at cfg i) (stage_at cfg (Suc i)))"

definition stage_state :: "string \<Rightarrow> LifecycleState" where
  "stage_state stage = (if stage = StageWarmup then StateWarmup else if stage = StageMeasured then StateRunning else StateCooldown)"

text \<open>The segment the dispatcher works on, and the stage it is in.\<close>

fun pc_segment :: "disp_pc \<Rightarrow> nat option" where
  "pc_segment (D_Loop i _) = Some i"
| "pc_segment (D_Wait i _ _) = Some i"
| "pc_segment (D_Woke i _ _) = Some i"
| "pc_segment (D_Check i _ _) = Some i"
| "pc_segment (D_Add i _ _) = Some i"
| "pc_segment (D_Peak i _ _) = Some i"
| "pc_segment (D_Cas i _ _ _ _) = Some i"
| "pc_segment (D_Send i _ _) = Some i"
| "pc_segment _ = None"

definition in_stage :: "'h open_cfg \<Rightarrow> 'h open_state \<Rightarrow> nat \<Rightarrow> bool" where
  "in_stage cfg s i \<longleftrightarrow> i < length (segments cfg) \<and> previousStage s = stage_at cfg i
     \<and> current (lifecycle s) = stage_state (stage_at cfg i)
     \<and> stage_at cfg i \<in> {StageWarmup, StageMeasured, StageCooldown}"

definition stage_inv :: "'h open_cfg \<Rightarrow> 'h open_state \<Rightarrow> bool" where
  "stage_inv cfg s \<longleftrightarrow> disp s \<noteq> D_Failed
     \<and> (\<forall>i. pc_segment (disp s) = Some i \<longrightarrow> in_stage cfg s i)
     \<and> (\<forall>i. disp s = D_Seg i \<longrightarrow> in_stage cfg s (i - 1))"

lemma in_stage_frame:
  "previousStage t = previousStage s \<Longrightarrow> lifecycle t = lifecycle s \<Longrightarrow> in_stage cfg t i = in_stage cfg s i"
  by (simp add: in_stage_def)

lemma enter_next:
  assumes "stage_step a b" "a \<noteq> b" "current m = stage_state a"
  shows "enterStage m b = (m\<lparr>current := stage_state b\<rparr>, None)"
  using assms by (auto simp: stage_step_def enterStage_def stage_state_def TransitionTo_def CanTransitionTo_def stage_defs)

lemma stage_inv_segment:
  assumes "stages_ok cfg" "stage_inv cfg s" "disp s = D_Seg i"
  shows "stage_inv cfg (next_segment cfg i s)"
proof (cases "i < length (segments cfg)")
  case True
  have in_s: "in_stage cfg s (i - 1)" using assms(2,3) by (simp add: stage_inv_def)
  have st: "stage_step (stage_at cfg (i - 1)) (stage_at cfg i)"
    using assms(1) True by (cases i) (auto simp: stages_ok_def stage_step_def)
  have mem: "stage_at cfg i \<in> {StageWarmup, StageMeasured, StageCooldown}"
    using st in_s by (auto simp: stage_step_def in_stage_def)
  show ?thesis
  proof (cases "stage_at cfg i = previousStage s")
    case True
    then show ?thesis using in_s \<open>i < length (segments cfg)\<close> mem by (auto simp: next_segment_def stage_inv_def in_stage_def)
  next
    case False
    then have "enterStage (lifecycle s) (stage_at cfg i) = ((lifecycle s)\<lparr>current := stage_state (stage_at cfg i)\<rparr>, None)"
      using enter_next [OF st, of "lifecycle s"] in_s by (auto simp: in_stage_def)
    then show ?thesis using False \<open>i < length (segments cfg)\<close> mem by (auto simp: next_segment_def stage_inv_def in_stage_def)
  qed
qed (simp add: next_segment_def stage_inv_def)

lemma disp_keeps:
  assumes "disp_step cfg s e = Some t" "pc_segment (disp s) = Some i"
  shows "previousStage t = previousStage s \<and> lifecycle t = lifecycle s
    \<and> (disp t = D_Seg (Suc i) \<or> pc_segment (disp t) = Some i \<or> (\<exists>hard. disp t = D_Close hard))"
  using assms
  by (cases "disp s"; cases e)
    (auto simp: disp_step_def loop_top_def plan_tick_def check_in_flight_def compare_and_swap_def upd_segment_def Let_def split: if_splits)

lemma disp_leaves:
  assumes "disp_step cfg s e = Some t" "pc_segment (disp s) = None" "disp s \<noteq> D_Failed"
  shows "(\<exists>i. disp s = D_Seg i \<and> t = next_segment cfg i s) \<or> (\<exists>hard. disp t = D_Drain hard) \<or> disp t = D_Finished"
  using assms by (cases "disp s"; cases e) (auto simp: disp_step_def close_channel_def finish_run_def split: if_splits)

lemma stage_inv_disp:
  assumes "stages_ok cfg" "stage_inv cfg s" "disp_step cfg s e = Some t"
  shows "stage_inv cfg t"
proof (cases "pc_segment (disp s)")
  case None
  then show ?thesis using disp_leaves [OF assms(3)] assms(2) stage_inv_segment [OF assms(1,2)] by (auto simp: stage_inv_def)
next
  case (Some i)
  then have "in_stage cfg s i" using assms(2) by (simp add: stage_inv_def)
  then have "in_stage cfg t i" using disp_keeps [OF assms(3) Some] in_stage_frame by blast
  then show ?thesis using disp_keeps [OF assms(3) Some] by (auto simp: stage_inv_def)
qed

lemma stage_inv_step:
  assumes "stages_ok cfg" "stage_inv cfg s" "open_step cfg s e = Some t"
  shows "stage_inv cfg t"
proof (cases e)
  case (Disp d)
  then show ?thesis using assms stage_inv_disp by auto
next
  case (Work k w)
  then obtain v where "work_step cfg s k v w = Some t" using assms(3) by (auto split: if_splits)
  from work_step_frame [OF this] show ?thesis using assms(2) in_stage_frame [of t s cfg] by (auto simp: stage_inv_def)
qed

lemma stages_start:
  assumes "stages_ok cfg"
  shows "\<exists>s0. open_start cfg = Inr s0 \<and> stage_inv cfg s0"
proof -
  have "enterStage NewLifecycleStateMachine (stage_at cfg 0) = (\<lparr>current = stage_state (stage_at cfg 0)\<rparr>, None)"
    using assms by (auto simp: stages_ok_def enterStage_def NewLifecycleStateMachine_def TransitionTo_def CanTransitionTo_def stage_state_def stage_defs)
  then show ?thesis using assms by (auto simp: open_start_def Let_def stage_inv_def in_stage_def stages_ok_def)
qed

lemma stage_inv_start: "open_start cfg = Inr s \<Longrightarrow> stages_ok cfg \<Longrightarrow> stage_inv cfg s"
  using stages_start [of cfg] by auto

interpretation stage_sys: inductive_invariant
  "\<lambda>s. open_start cfg = Inr s \<and> stages_ok cfg" "\<lambda>s t. stages_ok cfg \<and> (\<exists>e. open_step cfg s e = Some t)" "stage_inv cfg" for cfg
  by unfold_locales (auto intro: stage_inv_start stage_inv_step)

lemma open_run_stages:
  assumes "stages_ok cfg" "open_start cfg = Inr s0" "open_run cfg s0 es = Some s"
  shows "stage_inv cfg s"
proof -
  have "(\<lambda>s t. stages_ok cfg \<and> (\<exists>e. open_step cfg s e = Some t))\<^sup>*\<^sup>* s0 s"
    using open_run_steps [OF assms(3)] assms(1) by simp
  moreover have "stage_inv cfg s0" using stages_start [OF assms(1)] assms(2) by auto
  ultimately show ?thesis by (rule stage_sys.run_inv [rotated])
qed

lemma open_never_fails:
  assumes "stages_ok cfg"
  shows "\<exists>s0. open_start cfg = Inr s0 \<and> (\<forall>es s. open_run cfg s0 es = Some s \<longrightarrow> disp s \<noteq> D_Failed)"
  using stages_start [OF assms] open_run_stages [OF assms] by (auto simp: stage_inv_def)

end
