(* ===== verification/Scheduler_Closed.thy ===== *)
theory Scheduler_Closed
  imports Scheduler_Open
begin

text \<open>
  The closed-model scheduler, \<^verbatim>\<open>internal/scheduler/closed.go\<close>, as a system of interleaved
  steps. The main goroutine (\<^verbatim>\<open>Run\<close>) and each virtual user (\<^verbatim>\<open>runVU\<close>) has a
  program counter; \<open>closed_step\<close> performs one atomic action of one of them, or the cancellation of
  the parent context, chosen by an event. The accumulators of a virtual user are local to its goroutine, so
  updating them is part of the step that precedes or follows it; the shared counter
  \<^verbatim>\<open>inFlightCount\<close>, the channel \<^verbatim>\<open>stopNewRequests\<close>, the cancellation of the
  workers and the lifecycle are changed by steps of their own.

  Events carry what the code does not determine: which case of a \<^verbatim>\<open>select\<close> is taken, what
  \<^verbatim>\<open>ExecuteRequest\<close> returns (a result or an error) and which step results a scenario iteration
  reports before it returns.
\<close>

section \<open>Configuration and state\<close>

text \<open>The result of a scenario step, \<^verbatim>\<open>scenario/types.go\<close>, as far as the scheduler reads it.\<close>

record StepResult =
  sr_StepName :: string
  sr_StepIndex :: int
  sr_Result :: "exec_Result option"
  sr_ExtractErr :: "goerr option"
  Succeeded :: bool
  AbortedVU :: bool

record closed_plan =
  cp_Model :: WorkloadModel
  Users :: int
  cp_Duration :: Duration
  cp_GracefulStop :: Duration
  ThinkTime :: Duration
  hasScenario :: bool

datatype main_pc =
    M_Wait
  | M_Stop bool
  | M_Select
  | M_Cancel bool
  | M_Await bool
  | M_Finished

datatype vu_pc =
    V_Top
  | V_Add
  | V_Exec
  | V_Release "exec_Result option \<times> bool"
  | V_Record "exec_Result option \<times> bool"
  | V_Iterate
  | V_Check
  | V_Think
  | V_Exited

record 'h vu =
  vu_pc :: vu_pc
  vu_metrics :: "'h worker"

record 'h closed_state =
  main :: main_pc
  c_lifecycle :: LifecycleStateMachine
  parent_done :: bool
  workers_canceled :: bool
  stopNewRequests :: bool
  c_inFlight :: int
  vus :: "'h vu list"
  c_health :: GeneratorHealthSampler

section \<open>Construction and start\<close>

definition NewClosedScheduler ::
  "'h hdr_ops \<Rightarrow> closed_plan option \<Rightarrow> bool \<Rightarrow> scheduler_error + 'h worker list" where
  "NewClosedScheduler H po hasExecutor = (case po of
       None \<Rightarrow> Inl ErrInvalidPlan
     | Some p \<Rightarrow>
         if \<not> hasExecutor then Inl ErrInvalidExecutor
         else if cp_Model p \<noteq> WorkloadModelClosed then Inl ErrIncompatibleModel
         else if Users p \<le> 0 then Inl ErrZeroUsers
         else if cp_Duration p \<le> 0 then Inl ErrZeroDuration
         else Inr (map (NewWorker H) [0..Users p - 1]))"

text \<open>\<^verbatim>\<open>Run\<close> up to the duration timer.\<close>

definition closed_start :: "'h worker list \<Rightarrow> scheduler_error + 'h closed_state" where
  "closed_start workers = (case TransitionTo NewLifecycleStateMachine StateRunning of
       (m, Some e) \<Rightarrow> Inl (ErrTransition e)
     | (m, None) \<Rightarrow> Inr \<lparr>main = M_Wait, c_lifecycle = m, parent_done = False, workers_canceled = False,
         stopNewRequests = False, c_inFlight = 0, vus = map (\<lambda>w. \<lparr>vu_pc = V_Top, vu_metrics = w\<rparr>) workers,
         c_health = health_Start NewGeneratorHealthSampler\<rparr>)"

section \<open>The main goroutine\<close>

datatype main_event =
    E_Elapsed
  | E_ParentDone
  | E_StopNew
  | E_WorkersDone
  | E_Grace
  | E_CancelWorkers

definition vus_exited :: "'h closed_state \<Rightarrow> bool" where
  "vus_exited s \<longleftrightarrow> list_all (\<lambda>v. vu_pc v = V_Exited) (vus s)"

definition stop_new :: "bool \<Rightarrow> 'h closed_state \<Rightarrow> 'h closed_state" where
  "stop_new hardCanceled s = s\<lparr>stopNewRequests := True,
     c_lifecycle := attempt (c_lifecycle s) (if hardCanceled then StateCanceled else StateGracefulStop),
     main := (if hardCanceled then M_Cancel False else M_Select)\<rparr>"

definition finish_closed :: "bool \<Rightarrow> 'h closed_state \<Rightarrow> 'h closed_state" where
  "finish_closed canceled s = s\<lparr>
     c_lifecycle := attempt (if canceled then attempt (c_lifecycle s) StateCanceled else c_lifecycle s) StateCompleted,
     main := M_Finished\<rparr>"

definition main_step :: "'h closed_state \<Rightarrow> main_event \<Rightarrow> 'h closed_state option" where
  "main_step s e = (case e of
       E_Elapsed \<Rightarrow> (case main s of M_Wait \<Rightarrow> Some (s\<lparr>main := M_Stop False\<rparr>) | _ \<Rightarrow> None)
     | E_ParentDone \<Rightarrow> if \<not> parent_done s then None else (case main s of
           M_Wait \<Rightarrow> Some (s\<lparr>main := M_Stop True\<rparr>)
         | M_Select \<Rightarrow> Some (s\<lparr>main := M_Cancel True\<rparr>)
         | _ \<Rightarrow> None)
     | E_StopNew \<Rightarrow> (case main s of M_Stop hard \<Rightarrow> Some (stop_new hard s) | _ \<Rightarrow> None)
     | E_WorkersDone \<Rightarrow> if \<not> vus_exited s then None else (case main s of
           M_Select \<Rightarrow> Some (finish_closed False s)
         | M_Await canceled \<Rightarrow> Some (finish_closed canceled s)
         | _ \<Rightarrow> None)
     | E_Grace \<Rightarrow> (case main s of M_Select \<Rightarrow> Some (s\<lparr>main := M_Cancel False\<rparr>) | _ \<Rightarrow> None)
     | E_CancelWorkers \<Rightarrow> (case main s of
           M_Cancel canceled \<Rightarrow> Some (s\<lparr>workers_canceled := True, main := M_Await canceled\<rparr>) | _ \<Rightarrow> None))"

section \<open>The virtual users\<close>

text \<open>The context of the workers is done when it is canceled or its parent is.\<close>

definition must_stop :: "'h closed_state \<Rightarrow> bool" where
  "must_stop s \<longleftrightarrow> stopNewRequests s \<or> workers_canceled s \<or> parent_done s"

definition plan_request :: "'h worker \<Rightarrow> 'h worker" where
  "plan_request w = Worker ((wm w)\<lparr>Planned := Planned (wm w) + 1, Started := Started (wm w) + 1\<rparr>) (StepWorkers w)"

definition record_request :: "'h hdr_ops \<Rightarrow> exec_Result option \<times> bool \<Rightarrow> 'h worker \<Rightarrow> 'h worker" where
  "record_request H ret w = (case ret of
       (Some res, _) \<Rightarrow> Worker (RecordResult H ((wm w)\<lparr>Completed := Completed (wm w) + 1\<rparr>) (Some res)) (StepWorkers w)
     | (None, err) \<Rightarrow> if err then Worker ((wm w)\<lparr>Canceled := Canceled (wm w) + 1\<rparr>) (StepWorkers w) else w)"

definition start_iteration :: "'h worker \<Rightarrow> 'h worker" where
  "start_iteration w = Worker ((wm w)\<lparr>ScenarioIterations := (ScenarioIterations (wm w))\<lparr>
     si_Planned := si_Planned (ScenarioIterations (wm w)) + 1,
     si_Started := si_Started (ScenarioIterations (wm w)) + 1\<rparr>\<rparr>) (StepWorkers w)"

text \<open>
  What the callback of an iteration does to the accumulators of the virtual user and to those of the step:
  the same calls on each. A nil result of a step is \<open>None\<close>; a nil step worker in the map would be
  dereferenced, so the outcome of the callback is \<open>None\<close>.
\<close>

definition count_step :: "'h hdr_ops \<Rightarrow> exec_Result option \<Rightarrow> 'h WorkerMetrics \<Rightarrow> 'h WorkerMetrics" where
  "count_step H res m =
     (let m = m\<lparr>Planned := Planned m + 1, Started := Started m + 1\<rparr> in case res of
        Some r \<Rightarrow> RecordResult H (m\<lparr>Completed := Completed m + 1\<rparr>) (Some r)
      | None \<Rightarrow> m\<lparr>Canceled := Canceled m + 1\<rparr>)"

definition on_step_done :: "'h hdr_ops \<Rightarrow> 'h worker \<Rightarrow> StepResult option \<Rightarrow> 'h worker option" where
  "on_step_done H w stepRes = (case stepRes of
       None \<Rightarrow> Some w
     | Some sr \<Rightarrow> (case GetOrCreateStepWorker H w (sr_StepName sr) of
           (None, _) \<Rightarrow> None
         | (Some stepWM, w') \<Rightarrow> Some (Worker (count_step H (sr_Result sr) (wm w'))
             (gm_put (sr_StepName sr) (Some (Worker (count_step H (sr_Result sr) (wm stepWM)) (StepWorkers stepWM))) (StepWorkers w')))))"

primrec steps_done :: "'h hdr_ops \<Rightarrow> 'h worker \<Rightarrow> StepResult option list \<Rightarrow> 'h worker option" where
  "steps_done H w [] = Some w"
| "steps_done H w (r # rs) = Option.bind (on_step_done H w r) (\<lambda>w'. steps_done H w' rs)"

definition finish_iteration :: "bool \<Rightarrow> 'h worker \<Rightarrow> 'h worker" where
  "finish_iteration success w = (let it = ScenarioIterations (wm w) in
     Worker ((wm w)\<lparr>ScenarioIterations :=
       (if success then it\<lparr>si_Completed := si_Completed it + 1\<rparr> else it\<lparr>si_Failed := si_Failed it + 1\<rparr>)\<rparr>) (StepWorkers w))"

datatype vu_event =
    E_Begin
  | E_AddFlight
  | E_Executed "exec_Result option \<times> bool"
  | E_EndFlight
  | E_Recorded
  | E_Iterated "StepResult option list" bool bool
  | E_CheckStop
  | E_ThinkTimer
  | E_ThinkStopped

definition set_vu :: "nat \<Rightarrow> 'h vu \<Rightarrow> 'h closed_state \<Rightarrow> 'h closed_state" where
  "set_vu k v s = s\<lparr>vus := (vus s)[k := v]\<rparr>"

definition vu_begin :: "closed_plan \<Rightarrow> bool \<Rightarrow> 'h vu \<Rightarrow> 'h vu" where
  "vu_begin p stop v =
     (if stop then v\<lparr>vu_pc := V_Exited\<rparr>
      else if hasScenario p then v\<lparr>vu_pc := V_Iterate, vu_metrics := start_iteration (vu_metrics v)\<rparr>
      else v\<lparr>vu_pc := V_Add, vu_metrics := plan_request (vu_metrics v)\<rparr>)"

definition vu_check :: "closed_plan \<Rightarrow> bool \<Rightarrow> 'h vu \<Rightarrow> 'h vu" where
  "vu_check p stop v =
     v\<lparr>vu_pc := (if stop then V_Exited else if ThinkTime p > 0 then V_Think else V_Top)\<rparr>"

definition vu_iterated ::
  "'h hdr_ops \<Rightarrow> StepResult option list \<Rightarrow> bool \<Rightarrow> bool \<Rightarrow> 'h vu \<Rightarrow> 'h vu option" where
  "vu_iterated H results success aborted v =
     map_option (\<lambda>w. v\<lparr>vu_pc := (if aborted then V_Exited else V_Check), vu_metrics := finish_iteration success w\<rparr>)
       (steps_done H (vu_metrics v) results)"

definition vu_step ::
  "'h hdr_ops \<Rightarrow> closed_plan \<Rightarrow> 'h closed_state \<Rightarrow> nat \<Rightarrow> 'h vu \<Rightarrow> vu_event \<Rightarrow> 'h closed_state option" where
  "vu_step H p s k v e = (case e of
       E_Begin \<Rightarrow> (case vu_pc v of V_Top \<Rightarrow> Some (set_vu k (vu_begin p (must_stop s) v) s) | _ \<Rightarrow> None)
     | E_AddFlight \<Rightarrow> (case vu_pc v of
           V_Add \<Rightarrow> Some (set_vu k (v\<lparr>vu_pc := V_Exec\<rparr>) (s\<lparr>c_inFlight := c_inFlight s + 1\<rparr>)) | _ \<Rightarrow> None)
     | E_Executed ret \<Rightarrow> (case vu_pc v of
           V_Exec \<Rightarrow> if fst ret \<noteq> None \<or> snd ret then Some (set_vu k (v\<lparr>vu_pc := V_Release ret\<rparr>) s) else None
         | _ \<Rightarrow> None)
     | E_EndFlight \<Rightarrow> (case vu_pc v of
           V_Release ret \<Rightarrow> Some (set_vu k (v\<lparr>vu_pc := V_Record ret\<rparr>) (s\<lparr>c_inFlight := c_inFlight s - 1\<rparr>)) | _ \<Rightarrow> None)
     | E_Recorded \<Rightarrow> (case vu_pc v of
           V_Record ret \<Rightarrow> Some (set_vu k (v\<lparr>vu_pc := V_Check, vu_metrics := record_request H ret (vu_metrics v)\<rparr>) s)
         | _ \<Rightarrow> None)
     | E_Iterated results success aborted \<Rightarrow> (case vu_pc v of
           V_Iterate \<Rightarrow> map_option (\<lambda>v'. set_vu k v' s) (vu_iterated H results success aborted v) | _ \<Rightarrow> None)
     | E_CheckStop \<Rightarrow> (case vu_pc v of V_Check \<Rightarrow> Some (set_vu k (vu_check p (must_stop s) v) s) | _ \<Rightarrow> None)
     | E_ThinkTimer \<Rightarrow> (case vu_pc v of V_Think \<Rightarrow> Some (set_vu k (v\<lparr>vu_pc := V_Top\<rparr>) s) | _ \<Rightarrow> None)
     | E_ThinkStopped \<Rightarrow> (case vu_pc v of
           V_Think \<Rightarrow> if must_stop s then Some (set_vu k (v\<lparr>vu_pc := V_Exited\<rparr>) s) else None | _ \<Rightarrow> None))"

section \<open>Runs\<close>

datatype closed_event = Main main_event | VU nat vu_event | Parent_Canceled

fun closed_step :: "'h hdr_ops \<Rightarrow> closed_plan \<Rightarrow> 'h closed_state \<Rightarrow> closed_event \<Rightarrow> 'h closed_state option" where
  "closed_step H p s (Main e) = main_step s e"
| "closed_step H p s (VU k e) = (if k < length (vus s) then vu_step H p s k (vus s ! k) e else None)"
| "closed_step H p s Parent_Canceled = Some (s\<lparr>parent_done := True\<rparr>)"

fun closed_run :: "'h hdr_ops \<Rightarrow> closed_plan \<Rightarrow> 'h closed_state \<Rightarrow> closed_event list \<Rightarrow> 'h closed_state option" where
  "closed_run H p s [] = Some s"
| "closed_run H p s (e # es) = Option.bind (closed_step H p s e) (\<lambda>t. closed_run H p t es)"

text \<open>\<^verbatim>\<open>Run\<close> after the drain.\<close>

definition closed_report :: "'h hdr_ops \<Rightarrow> 'h closed_state \<Rightarrow> Duration \<Rightarrow> metrics_error + 'h agg \<times> GeneratorHealth" where
  "closed_report H s elapsed =
     result_bind (MergeWorkers H (map (\<lambda>v. Some (vu_metrics v)) (vus s)) elapsed)
       (\<lambda>agg. Inr (agg, Collect_health (c_health s)))"

section \<open>Moves of a virtual user\<close>

text \<open>
  Every step of a virtual user replaces it by its successor and adds \<open>d\<close> to the requests in flight.
\<close>

inductive vu_move :: "'h hdr_ops \<Rightarrow> closed_plan \<Rightarrow> bool \<Rightarrow> 'h vu \<Rightarrow> 'h vu \<Rightarrow> int \<Rightarrow> bool" for H p stop where
  m_begin: "vu_pc v = V_Top \<Longrightarrow> vu_move H p stop v (vu_begin p stop v) 0"
| m_add: "vu_pc v = V_Add \<Longrightarrow> vu_move H p stop v (v\<lparr>vu_pc := V_Exec\<rparr>) 1"
| m_executed: "vu_pc v = V_Exec \<Longrightarrow> fst ret \<noteq> None \<or> snd ret \<Longrightarrow> vu_move H p stop v (v\<lparr>vu_pc := V_Release ret\<rparr>) 0"
| m_end: "vu_pc v = V_Release ret \<Longrightarrow> vu_move H p stop v (v\<lparr>vu_pc := V_Record ret\<rparr>) (- 1)"
| m_recorded: "vu_pc v = V_Record ret \<Longrightarrow>
    vu_move H p stop v (v\<lparr>vu_pc := V_Check, vu_metrics := record_request H ret (vu_metrics v)\<rparr>) 0"
| m_iterated: "vu_pc v = V_Iterate \<Longrightarrow> vu_iterated H results success aborted v = Some v' \<Longrightarrow> vu_move H p stop v v' 0"
| m_check: "vu_pc v = V_Check \<Longrightarrow> vu_move H p stop v (vu_check p stop v) 0"
| m_timer: "vu_pc v = V_Think \<Longrightarrow> vu_move H p stop v (v\<lparr>vu_pc := V_Top\<rparr>) 0"
| m_stopped: "vu_pc v = V_Think \<Longrightarrow> stop \<Longrightarrow> vu_move H p stop v (v\<lparr>vu_pc := V_Exited\<rparr>) 0"

lemma move_same: "vu_move H p stop v v' 0 \<Longrightarrow> t = set_vu k v' s \<Longrightarrow>
    \<exists>v' d. t = set_vu k v' (s\<lparr>c_inFlight := c_inFlight s + d\<rparr>) \<and> vu_move H p stop v v' d"
  by (rule exI [of _ v'], rule exI [of _ 0]) simp

lemma vu_step_move:
  assumes "vu_step H p s k v e = Some t"
  shows "\<exists>v' d. t = set_vu k v' (s\<lparr>c_inFlight := c_inFlight s + d\<rparr>) \<and> vu_move H p (must_stop s) v v' d"
proof (cases e)
  case E_AddFlight
  with assms show ?thesis
    by (intro exI [of _ "v\<lparr>vu_pc := V_Exec\<rparr>"] exI [of _ 1]) (auto simp: vu_step_def intro: m_add split: vu_pc.splits)
next
  case E_EndFlight
  with assms obtain ret where ret: "vu_pc v = V_Release ret" by (auto simp: vu_step_def split: vu_pc.splits)
  with assms E_EndFlight show ?thesis
    by (intro exI [of _ "v\<lparr>vu_pc := V_Record ret\<rparr>"] exI [of _ "- 1"]) (auto simp: vu_step_def intro: m_end)
qed (use assms in \<open>auto simp: vu_step_def split: vu_pc.splits if_splits intro: move_same [OF _ refl] vu_move.intros\<close>)

text \<open>Conversely, every move is a step.\<close>

lemma vu_move_step:
  assumes "vu_move H p (must_stop s) v v' d"
  shows "\<exists>e. vu_step H p s k v e = Some (set_vu k v' (s\<lparr>c_inFlight := c_inFlight s + d\<rparr>))"
  using assms
proof cases
  case m_begin then show ?thesis by (intro exI [of _ E_Begin]) (simp add: vu_step_def)
next
  case m_add then show ?thesis by (intro exI [of _ E_AddFlight]) (simp add: vu_step_def)
next
  case (m_executed ret) then show ?thesis by (intro exI [of _ "E_Executed ret"]) (simp add: vu_step_def)
next
  case (m_end ret) then show ?thesis by (intro exI [of _ E_EndFlight]) (simp add: vu_step_def)
next
  case (m_recorded ret) then show ?thesis by (intro exI [of _ E_Recorded]) (simp add: vu_step_def)
next
  case (m_iterated results success aborted)
  then show ?thesis by (intro exI [of _ "E_Iterated results success aborted"]) (simp add: vu_step_def)
next
  case m_check then show ?thesis by (intro exI [of _ E_CheckStop]) (simp add: vu_step_def)
next
  case m_timer then show ?thesis by (intro exI [of _ E_ThinkTimer]) (simp add: vu_step_def)
next
  case m_stopped then show ?thesis by (intro exI [of _ E_ThinkStopped]) (simp add: vu_step_def)
qed

lemma vu_can_move: "vu_pc v \<noteq> V_Exited \<Longrightarrow> \<exists>v' d. vu_move H p stop v v' d"
proof (cases "vu_pc v")
  case V_Iterate
  then have "vu_move H p stop v (v\<lparr>vu_pc := V_Exited, vu_metrics := finish_iteration True (vu_metrics v)\<rparr>) 0"
    by (rule m_iterated [of _ _ "[]" True True]) (simp add: vu_iterated_def)
  then show ?thesis by blast
next
  case V_Exec
  then have "vu_move H p stop v (v\<lparr>vu_pc := V_Release (None, True)\<rparr>) 0" by (rule m_executed) simp
  then show ?thesis by blast
qed (blast intro: m_begin m_add m_end m_recorded m_check m_timer)+

section \<open>Invariants of a virtual user\<close>

fun pending :: "vu_pc \<Rightarrow> int" where
  "pending V_Add = 1"
| "pending V_Exec = 1"
| "pending (V_Release _) = 1"
| "pending (V_Record _) = 1"
| "pending _ = 0"

fun vu_flying :: "vu_pc \<Rightarrow> int" where
  "vu_flying V_Exec = 1"
| "vu_flying (V_Release _) = 1"
| "vu_flying _ = 0"

definition step_total :: "('h WorkerMetrics \<Rightarrow> int) \<Rightarrow> 'h worker \<Rightarrow> int" where
  "step_total get w = (\<Sum>(n, sw)\<leftarrow>StepWorkers w. case sw of None \<Rightarrow> 0 | Some sw \<Rightarrow> get (wm sw))"

definition steps_ok :: "'h worker \<Rightarrow> bool" where
  "steps_ok w \<longleftrightarrow> distinct (map fst (StepWorkers w)) \<and> None \<notin> snd ` set (StepWorkers w)"

text \<open>The accumulators a scenario iteration keeps per step agree with those of the virtual user.\<close>

definition step_sums :: "'h worker \<Rightarrow> bool" where
  "step_sums w \<longleftrightarrow> step_total Planned w = Planned (wm w) \<and> step_total Started w = Started (wm w)
     \<and> step_total Completed w = Completed (wm w) \<and> step_total Canceled w = Canceled (wm w)"

definition vu_inv :: "closed_plan \<Rightarrow> 'h vu \<Rightarrow> bool" where
  "vu_inv p v \<longleftrightarrow> (let m = wm (vu_metrics v); it = ScenarioIterations m in
     Planned m = Started m \<and> Started m = Completed m + Canceled m + pending (vu_pc v)
     \<and> si_Planned it = si_Started it
     \<and> si_Started it = si_Completed it + si_Failed it + (if vu_pc v = V_Iterate then 1 else 0)
     \<and> steps_ok (vu_metrics v) \<and> (hasScenario p \<longrightarrow> step_sums (vu_metrics v) \<and> pending (vu_pc v) = 0)
     \<and> (\<not> hasScenario p \<longrightarrow> vu_pc v \<noteq> V_Iterate)
     \<and> (\<forall>ret. vu_pc v = V_Release ret \<or> vu_pc v = V_Record ret \<longrightarrow> fst ret \<noteq> None \<or> snd ret))"

subsection \<open>One step of an iteration\<close>

lemma count_step_counts [simp]:
  "Planned (count_step H r m) = Planned m + 1" "Started (count_step H r m) = Started m + 1"
  "ScenarioIterations (count_step H r m) = ScenarioIterations m"
  by (cases r; simp add: count_step_def Let_def frame_simps)+

lemma count_step_delta:
  "Completed (count_step H r m) - Completed m = (if r = None then 0 else 1)"
  "Canceled (count_step H r m) - Canceled m = (if r = None then 1 else 0)"
  by (cases r; simp add: count_step_def Let_def frame_simps)+

lemma sum_gm_put:
  fixes f :: "'v \<Rightarrow> int"
  shows "distinct (map fst m) \<Longrightarrow> (\<Sum>(n, x)\<leftarrow>gm_put k v m. f x) =
    (\<Sum>(n, x)\<leftarrow>m. f x) - (case map_of m k of None \<Rightarrow> 0 | Some u \<Rightarrow> f u) + f v"
proof (induction m)
  case (Cons q m)
  have "map_of m k = None" if "fst q = k" using Cons.prems that by (auto simp: map_of_eq_None_iff)
  then show ?case using Cons by (cases q) (auto split: option.splits)
qed simp

lemma in_gm_put: "q \<in> set (gm_put k v m) \<Longrightarrow> q = (k, v) \<or> q \<in> set m"
  by (induction m) (auto split: if_splits)

lemma gm_put_twice [simp]: "gm_put k v (gm_put k u m) = gm_put k v m"
  by (induction m) auto

lemma on_step_done_Some:
  assumes "on_step_done H w (Some sr) = Some w'" "steps_ok w"
  obtains sw where "map_of (StepWorkers w) (sr_StepName sr) = Some (Some sw)
      \<or> map_of (StepWorkers w) (sr_StepName sr) = None \<and> sw = NewWorker H (WorkerID (wm w))"
    "w' = Worker (count_step H (sr_Result sr) (wm w))
      (gm_put (sr_StepName sr) (Some (Worker (count_step H (sr_Result sr) (wm sw)) (StepWorkers sw))) (StepWorkers w))"
proof (cases "map_of (StepWorkers w) (sr_StepName sr)")
  case None
  then show ?thesis using assms(1) that by (auto simp: on_step_done_def GetOrCreateStepWorker_def Let_def)
next
  case (Some x)
  then show ?thesis using assms(1) that by (cases x) (auto simp: on_step_done_def GetOrCreateStepWorker_def)
qed

text \<open>The callback never meets a nil step worker.\<close>

lemma on_step_done_total: "steps_ok w \<Longrightarrow> \<exists>w'. on_step_done H w r = Some w'"
proof (cases r)
  case (Some sr)
  assume ok: "steps_ok w"
  show ?thesis
  proof (cases "map_of (StepWorkers w) (sr_StepName sr)")
    case None
    then show ?thesis using Some by (simp add: on_step_done_def GetOrCreateStepWorker_def Let_def)
  next
    case found: (Some x)
    then have "x \<noteq> None" using ok map_of_SomeD [OF found] by (force simp: steps_ok_def)
    then show ?thesis using Some found by (auto simp: on_step_done_def GetOrCreateStepWorker_def)
  qed
qed (simp add: on_step_done_def)

lemma on_step_done_inv:
  assumes "on_step_done H w r = Some w'" "steps_ok w"
  shows "steps_ok w'" "step_sums w \<Longrightarrow> step_sums w'"
    "Planned (wm w') - Started (wm w') = Planned (wm w) - Started (wm w)"
    "Started (wm w') - Completed (wm w') - Canceled (wm w') = Started (wm w) - Completed (wm w) - Canceled (wm w)"
    "ScenarioIterations (wm w') = ScenarioIterations (wm w)"
proof -
  have "steps_ok w' \<and> (step_sums w \<longrightarrow> step_sums w')
    \<and> Planned (wm w') - Started (wm w') = Planned (wm w) - Started (wm w)
    \<and> Started (wm w') - Completed (wm w') - Canceled (wm w') = Started (wm w) - Completed (wm w) - Canceled (wm w)
    \<and> ScenarioIterations (wm w') = ScenarioIterations (wm w)"
  proof (cases r)
    case None
    then show ?thesis using assms by (simp add: on_step_done_def)
  next
    case (Some sr)
    with assms obtain sw where sw: "map_of (StepWorkers w) (sr_StepName sr) = Some (Some sw)
        \<or> map_of (StepWorkers w) (sr_StepName sr) = None \<and> sw = NewWorker H (WorkerID (wm w))"
      and w': "w' = Worker (count_step H (sr_Result sr) (wm w))
        (gm_put (sr_StepName sr) (Some (Worker (count_step H (sr_Result sr) (wm sw)) (StepWorkers sw))) (StepWorkers w))"
      by (blast elim: on_step_done_Some)
    have d: "distinct (map fst (StepWorkers w))" using assms(2) by (simp add: steps_ok_def)
    have new: "map_of (StepWorkers w) (sr_StepName sr) = None \<Longrightarrow> get (wm sw) = 0"
      if "get (NewWorkerMetrics H (WorkerID (wm w))) = 0" for get :: "'a WorkerMetrics \<Rightarrow> int"
      using sw that by (auto simp: NewWorker_def)
    have total: "step_total get w' = step_total get w - get (wm sw) + get (count_step H (sr_Result sr) (wm sw))"
      if "get (NewWorkerMetrics H (WorkerID (wm w))) = 0" for get :: "'a WorkerMetrics \<Rightarrow> int"
      using sw new [of get] that unfolding step_total_def w' worker.sel sum_gm_put [OF d] by auto
    have "None \<notin> snd ` set (StepWorkers w)" using assms(2) by (simp add: steps_ok_def)
    then have "None \<notin> snd ` set (StepWorkers w')" unfolding w' worker.sel by (auto dest: in_gm_put)
    then have "steps_ok w'" using distinct_gm_put [OF d] by (simp add: steps_ok_def w')
    moreover have "step_sums w'" if "step_sums w"
    proof -
      have z: "Planned (NewWorkerMetrics H i) = 0" "Started (NewWorkerMetrics H i) = 0"
        "Completed (NewWorkerMetrics H i) = 0" "Canceled (NewWorkerMetrics H i) = 0" for i by (simp_all add: NewWorkerMetrics_def)
      have t: "step_total Planned w' = step_total Planned w + 1" "step_total Started w' = step_total Started w + 1"
        using total [of Planned] total [of Started] z by simp_all
      have c: "step_total Completed w' = step_total Completed w + (Completed (wm w') - Completed (wm w))"
        using total [of Completed] z count_step_delta(1) [of H "sr_Result sr" "wm sw"]
          count_step_delta(1) [of H "sr_Result sr" "wm w"] by (simp add: w')
      have x: "step_total Canceled w' = step_total Canceled w + (Canceled (wm w') - Canceled (wm w))"
        using total [of Canceled] z count_step_delta(2) [of H "sr_Result sr" "wm sw"]
          count_step_delta(2) [of H "sr_Result sr" "wm w"] by (simp add: w')
      have "Planned (wm w') = Planned (wm w) + 1" "Started (wm w') = Started (wm w) + 1" by (simp_all add: w')
      then show ?thesis using that t c x by (simp add: step_sums_def)
    qed
    ultimately show ?thesis using count_step_delta [of H "sr_Result sr" "wm w"] by (cases "sr_Result sr") (simp_all add: w')
  qed
  then show "steps_ok w'" "step_sums w \<Longrightarrow> step_sums w'"
    "Planned (wm w') - Started (wm w') = Planned (wm w) - Started (wm w)"
    "Started (wm w') - Completed (wm w') - Canceled (wm w') = Started (wm w) - Completed (wm w) - Canceled (wm w)"
    "ScenarioIterations (wm w') = ScenarioIterations (wm w)" by blast+
qed

lemma steps_done_inv:
  assumes "steps_done H w rs = Some w'" "steps_ok w"
  shows "steps_ok w' \<and> (step_sums w \<longrightarrow> step_sums w')
    \<and> Planned (wm w') - Started (wm w') = Planned (wm w) - Started (wm w)
    \<and> Started (wm w') - Completed (wm w') - Canceled (wm w') = Started (wm w) - Completed (wm w) - Canceled (wm w)
    \<and> ScenarioIterations (wm w') = ScenarioIterations (wm w)"
  using assms
proof (induction rs arbitrary: w)
  case (Cons r rs)
  then obtain u where u: "on_step_done H w r = Some u" "steps_done H u rs = Some w'" by (auto simp: bind_eq_Some_conv)
  note on_step_done_inv [OF u(1) Cons.prems(2)]
  with Cons.IH [OF u(2)] show ?case by simp
qed simp

lemma steps_done_total: "steps_ok w \<Longrightarrow> \<exists>w'. steps_done H w rs = Some w'"
proof (induction rs arbitrary: w)
  case (Cons r rs)
  obtain u where u: "on_step_done H w r = Some u" using on_step_done_total [OF Cons.prems] by blast
  then show ?case using Cons.IH [OF on_step_done_inv(1) [OF u Cons.prems]] by simp
qed simp

subsection \<open>Preservation\<close>

lemma plan_request_simps [simp]:
  "wm (plan_request w) = (wm w)\<lparr>Planned := Planned (wm w) + 1, Started := Started (wm w) + 1\<rparr>"
  "StepWorkers (plan_request w) = StepWorkers w"
  by (simp_all add: plan_request_def)

lemma record_request_frame [simp]:
  "StepWorkers (record_request H ret w) = StepWorkers w" "Planned (wm (record_request H ret w)) = Planned (wm w)"
  "Started (wm (record_request H ret w)) = Started (wm w)"
  "ScenarioIterations (wm (record_request H ret w)) = ScenarioIterations (wm w)"
  by (auto simp: record_request_def frame_simps split: prod.splits option.splits)

lemma record_request_counts:
  "fst ret \<noteq> None \<or> snd ret \<Longrightarrow> Completed (wm (record_request H ret w)) + Canceled (wm (record_request H ret w))
     = Completed (wm w) + Canceled (wm w) + 1"
  by (auto simp: record_request_def frame_simps split: prod.splits option.splits)

lemma iteration_simps [simp]:
  "StepWorkers (start_iteration w) = StepWorkers w" "StepWorkers (finish_iteration ok w) = StepWorkers w"
  "Planned (wm (start_iteration w)) = Planned (wm w)" "Started (wm (start_iteration w)) = Started (wm w)"
  "Completed (wm (start_iteration w)) = Completed (wm w)" "Canceled (wm (start_iteration w)) = Canceled (wm w)"
  "Planned (wm (finish_iteration ok w)) = Planned (wm w)" "Started (wm (finish_iteration ok w)) = Started (wm w)"
  "Completed (wm (finish_iteration ok w)) = Completed (wm w)" "Canceled (wm (finish_iteration ok w)) = Canceled (wm w)"
  by (simp_all add: start_iteration_def finish_iteration_def Let_def)

lemma finish_iteration_counts:
  "si_Planned (ScenarioIterations (wm (finish_iteration ok w))) = si_Planned (ScenarioIterations (wm w))"
  "si_Started (ScenarioIterations (wm (finish_iteration ok w))) = si_Started (ScenarioIterations (wm w))"
  "si_Completed (ScenarioIterations (wm (finish_iteration ok w))) + si_Failed (ScenarioIterations (wm (finish_iteration ok w)))
     = si_Completed (ScenarioIterations (wm w)) + si_Failed (ScenarioIterations (wm w)) + 1"
  by (simp_all add: finish_iteration_def Let_def)

lemma steps_frame [simp]:
  "steps_ok (plan_request w) = steps_ok w" "step_total get (plan_request w) = step_total get w"
  "steps_ok (record_request H ret w) = steps_ok w" "step_total get (record_request H ret w) = step_total get w"
  "steps_ok (start_iteration w) = steps_ok w" "step_total get (start_iteration w) = step_total get w"
  "steps_ok (finish_iteration ok w) = steps_ok w" "step_total get (finish_iteration ok w) = step_total get w"
  by (simp_all add: steps_ok_def step_total_def)

lemma start_iteration_counts:
  "si_Planned (ScenarioIterations (wm (start_iteration w))) = si_Planned (ScenarioIterations (wm w)) + 1"
  "si_Started (ScenarioIterations (wm (start_iteration w))) = si_Started (ScenarioIterations (wm w)) + 1"
  "si_Completed (ScenarioIterations (wm (start_iteration w))) = si_Completed (ScenarioIterations (wm w))"
  "si_Failed (ScenarioIterations (wm (start_iteration w))) = si_Failed (ScenarioIterations (wm w))"
  by (simp_all add: start_iteration_def)

lemma vu_inv_iterated:
  assumes "vu_inv p v" "vu_pc v = V_Iterate" "vu_iterated H results success aborted v = Some v'"
  shows "vu_inv p v'"
proof -
  from assms(3) obtain w where w: "steps_done H (vu_metrics v) results = Some w"
    and v': "v' = v\<lparr>vu_pc := (if aborted then V_Exited else V_Check), vu_metrics := finish_iteration success w\<rparr>"
    by (auto simp: vu_iterated_def)
  have ok: "steps_ok (vu_metrics v)" and scen: "hasScenario p" using assms(1,2) by (auto simp: vu_inv_def Let_def)
  have sums: "step_sums (vu_metrics v)" using assms(1) scen by (simp add: vu_inv_def Let_def)
  note d = steps_done_inv [OF w ok]
  have s: "steps_ok w" "step_sums w" using d sums by auto
  then have "step_sums (finish_iteration success w)" "steps_ok (finish_iteration success w)"
    by (simp_all add: step_sums_def)
  moreover have "Planned (wm w) = Started (wm w)" "Started (wm w) = Completed (wm w) + Canceled (wm w)"
    using d assms(1,2) by (simp_all add: vu_inv_def Let_def)
  moreover have "si_Planned (ScenarioIterations (wm w)) = si_Started (ScenarioIterations (wm w))"
    "si_Started (ScenarioIterations (wm w)) = si_Completed (ScenarioIterations (wm w)) + si_Failed (ScenarioIterations (wm w)) + 1"
    using d assms(1,2) by (simp_all add: vu_inv_def Let_def)
  ultimately show ?thesis using finish_iteration_counts [of success w]
    by (cases aborted) (simp_all add: vu_inv_def v' Let_def scen)
qed

lemma vu_iterated_flying: "vu_iterated H results success aborted v = Some v' \<Longrightarrow> vu_flying (vu_pc v') = 0"
  by (auto simp: vu_iterated_def)

lemma vu_inv_begin:
  assumes "vu_inv p v" "vu_pc v = V_Top"
  shows "vu_inv p (vu_begin p stop v)"
proof (cases stop)
  case True
  then show ?thesis using assms by (simp add: vu_inv_def vu_begin_def Let_def)
next
  case False
  then show ?thesis using assms
    by (cases "hasScenario p") (simp_all add: vu_inv_def vu_begin_def Let_def step_sums_def start_iteration_counts)
qed

lemma vu_inv_recorded:
  assumes "vu_inv p v" "vu_pc v = V_Record ret"
  shows "vu_inv p (v\<lparr>vu_pc := V_Check, vu_metrics := record_request H ret (vu_metrics v)\<rparr>)"
proof -
  have "fst ret \<noteq> None \<or> snd ret" "\<not> hasScenario p" using assms by (auto simp: vu_inv_def Let_def)
  then show ?thesis using assms record_request_counts [of ret H "vu_metrics v"] by (simp add: vu_inv_def Let_def)
qed

lemma vu_inv_move:
  assumes "vu_move H p stop v v' d" "vu_inv p v"
  shows "vu_inv p v' \<and> vu_flying (vu_pc v') = vu_flying (vu_pc v) + d"
  using assms(1)
proof cases
  case m_begin
  moreover have "vu_flying (vu_pc (vu_begin p stop v)) = 0" by (simp add: vu_begin_def)
  ultimately show ?thesis using vu_inv_begin [OF assms(2)] by simp
next
  case (m_recorded ret)
  then show ?thesis using vu_inv_recorded [OF assms(2), of ret H] by simp
next
  case (m_iterated results success aborted)
  have "vu_inv p v'" by (rule vu_inv_iterated [OF assms(2) m_iterated(2,3)])
  then show ?thesis using vu_iterated_flying [OF m_iterated(3)] by (simp add: m_iterated(1,2))
next
  case m_check
  then show ?thesis using assms(2) by (simp add: vu_inv_def Let_def vu_check_def)
next
  case (m_executed ret)
  then show ?thesis using assms(2) by (simp add: vu_inv_def Let_def)
qed (use assms(2) in \<open>simp_all add: vu_inv_def Let_def\<close>)

section \<open>Invariants of the run\<close>

definition vu_sum :: "('h vu \<Rightarrow> int) \<Rightarrow> 'h closed_state \<Rightarrow> int" where
  "vu_sum f s = (\<Sum>v\<leftarrow>vus s. f v)"

lemma set_vu_frame [simp]:
  "main (set_vu k v s) = main s" "c_lifecycle (set_vu k v s) = c_lifecycle s" "parent_done (set_vu k v s) = parent_done s"
  "workers_canceled (set_vu k v s) = workers_canceled s" "stopNewRequests (set_vu k v s) = stopNewRequests s"
  "c_inFlight (set_vu k v s) = c_inFlight s" "length (vus (set_vu k v s)) = length (vus s)"
  by (simp_all add: set_vu_def)

lemma vu_sum_set: "k < length (vus s) \<Longrightarrow> vu_sum f (set_vu k v s) = vu_sum f s - f (vus s ! k) + f v"
  by (simp add: vu_sum_def set_vu_def sum_list_update_int)

fun closed_life :: "main_pc \<Rightarrow> LifecycleState \<Rightarrow> bool" where
  "closed_life M_Wait st = (st = StateRunning)"
| "closed_life (M_Stop _) st = (st = StateRunning)"
| "closed_life M_Select st = (st = StateGracefulStop)"
| "closed_life (M_Cancel _) st = (st = StateGracefulStop \<or> st = StateCanceled)"
| "closed_life (M_Await _) st = (st = StateGracefulStop \<or> st = StateCanceled)"
| "closed_life M_Finished st = (st = StateCompleted)"

definition closed_inv :: "closed_plan \<Rightarrow> nat \<Rightarrow> 'h closed_state \<Rightarrow> bool" where
  "closed_inv p n s \<longleftrightarrow> length (vus s) = n \<and> list_all (vu_inv p) (vus s)
     \<and> c_inFlight s = vu_sum (\<lambda>v. vu_flying (vu_pc v)) s
     \<and> closed_life (main s) (current (c_lifecycle s))
     \<and> (stopNewRequests s \<longleftrightarrow> main s \<noteq> M_Wait \<and> (\<forall>hard. main s \<noteq> M_Stop hard))
     \<and> (main s = M_Finished \<longrightarrow> vus_exited s)"

lemma closed_inv_main:
  assumes "closed_inv p n s" "main_step s e = Some t"
  shows "closed_inv p n t"
  using assms
  by (cases e) (auto simp: closed_inv_def main_step_def stop_new_def finish_closed_def attempt_def TransitionTo_def
      CanTransitionTo_def vus_exited_def vu_sum_def split: main_pc.splits if_splits)

lemma exited_stays: "vu_move H p stop v v' d \<Longrightarrow> vu_pc v \<noteq> V_Exited"
  by (auto elim: vu_move.cases)

lemma closed_inv_vu:
  assumes inv: "closed_inv p n s" and k: "k < length (vus s)" and step: "vu_step H p s k (vus s ! k) e = Some t"
  shows "closed_inv p n t"
proof -
  obtain v d where t: "t = set_vu k v (s\<lparr>c_inFlight := c_inFlight s + d\<rparr>)" and move: "vu_move H p (must_stop s) (vus s ! k) v d"
    using vu_step_move [OF step] by blast
  have "vu_inv p (vus s ! k)" using inv k by (auto simp: closed_inv_def list_all_length)
  from vu_inv_move [OF move this] have v: "vu_inv p v" "vu_flying (vu_pc v) = vu_flying (vu_pc (vus s ! k)) + d" by auto
  have "main s \<noteq> M_Finished" using inv exited_stays [OF move] k by (auto simp: closed_inv_def vus_exited_def list_all_length)
  moreover have "list_all (vu_inv p) (vus t)" using inv v(1) k
    by (auto simp: closed_inv_def t set_vu_def list_all_length nth_list_update)
  moreover have "vu_sum (\<lambda>v. vu_flying (vu_pc v)) t = vu_sum (\<lambda>v. vu_flying (vu_pc v)) s + d"
    using v(2) k unfolding t by (subst vu_sum_set) (simp_all add: vu_sum_def)
  ultimately show ?thesis using inv by (simp add: closed_inv_def t)
qed

lemma closed_inv_step:
  assumes "closed_inv p n s" "closed_step H p s e = Some t"
  shows "closed_inv p n t"
proof (cases e)
  case (Main m)
  then show ?thesis using assms closed_inv_main by simp
next
  case (VU k v)
  then show ?thesis using assms closed_inv_vu by (auto split: if_splits)
next
  case Parent_Canceled
  then show ?thesis using assms by (auto simp: closed_inv_def vu_sum_def vus_exited_def)
qed

lemma NewWorker_vu_inv: "vu_inv p \<lparr>vu_pc = V_Top, vu_metrics = NewWorker H i\<rparr>"
  by (simp add: vu_inv_def NewWorker_def NewWorkerMetrics_def zero_iterations_def steps_ok_def step_sums_def step_total_def)

lemma closed_inv_start:
  assumes "NewClosedScheduler H (Some p) True = Inr ws" "closed_start ws = Inr s"
  shows "closed_inv p (nat (Users p)) s"
proof -
  have ws: "ws = map (NewWorker H) [0..Users p - 1]" using assms(1) by (auto simp: NewClosedScheduler_def split: if_splits)
  have "length (vus s) = nat (Users p)" "list_all (vu_inv p) (vus s)"
    using assms(2) NewWorker_vu_inv
    by (auto simp: closed_start_def TransitionTo_def CanTransitionTo_def NewLifecycleStateMachine_def ws list_all_iff)
  moreover have "vu_sum (\<lambda>v. vu_flying (vu_pc v)) s = 0"
    using assms(2) by (auto simp: closed_start_def TransitionTo_def CanTransitionTo_def NewLifecycleStateMachine_def vu_sum_def comp_def)
  ultimately show ?thesis using assms(2)
    by (auto simp: closed_inv_def closed_start_def TransitionTo_def CanTransitionTo_def NewLifecycleStateMachine_def)
qed

interpretation closed_sys: inductive_invariant
  "\<lambda>s. \<exists>ws. NewClosedScheduler H (Some p) True = Inr ws \<and> closed_start ws = Inr s"
  "\<lambda>s t. \<exists>e. closed_step H p s e = Some t" "closed_inv p (nat (Users p))" for H p
  by unfold_locales (auto intro: closed_inv_start closed_inv_step)

lemma closed_run_steps: "closed_run H p s es = Some t \<Longrightarrow> (\<lambda>s t. \<exists>e. closed_step H p s e = Some t)\<^sup>*\<^sup>* s t"
proof (induction es arbitrary: s)
  case (Cons e es)
  then obtain u where u: "closed_step H p s e = Some u" "closed_run H p u es = Some t" by (auto simp: bind_eq_Some_conv)
  show ?case by (rule converse_rtranclp_into_rtranclp [OF _ Cons.IH [OF u(2)]]) (use u(1) in blast)
qed simp

lemma closed_run_inv:
  assumes "NewClosedScheduler H (Some p) True = Inr ws" "closed_start ws = Inr s0" "closed_run H p s0 es = Some s"
  shows "closed_inv p (nat (Users p)) s"
  using closed_sys.run_inv [OF closed_inv_start [OF assms(1,2)] closed_run_steps [OF assms(3)]] .

section \<open>Draining\<close>

fun vu_rank :: "vu_pc \<Rightarrow> nat" where
  "vu_rank V_Exited = 0"
| "vu_rank V_Top = 1"
| "vu_rank V_Check = 1"
| "vu_rank V_Think = 2"
| "vu_rank (V_Record _) = 2"
| "vu_rank V_Iterate = 2"
| "vu_rank (V_Release _) = 3"
| "vu_rank V_Exec = 4"
| "vu_rank V_Add = 5"

fun main_rank :: "main_pc \<Rightarrow> nat" where
  "main_rank M_Finished = 0"
| "main_rank (M_Await _) = 1"
| "main_rank (M_Cancel _) = 2"
| "main_rank M_Select = 3"
| "main_rank (M_Stop _) = 4"
| "main_rank M_Wait = 5"

definition drain_rank :: "'h closed_state \<Rightarrow> nat" where
  "drain_rank s = main_rank (main s) + (\<Sum>v\<leftarrow>vus s. vu_rank (vu_pc v))"

text \<open>A step of the scheduler's own goroutines after new requests have been stopped.\<close>

definition drain_step :: "'h hdr_ops \<Rightarrow> closed_plan \<Rightarrow> 'h closed_state \<Rightarrow> 'h closed_state \<Rightarrow> bool" where
  "drain_step H p s t \<longleftrightarrow> stopNewRequests s \<and> (\<exists>e. e \<noteq> Parent_Canceled \<and> closed_step H p s e = Some t)"

lemma vu_move_rank: "vu_move H p True v v' d \<Longrightarrow> vu_rank (vu_pc v') < vu_rank (vu_pc v)"
  by (erule vu_move.cases) (auto simp: vu_begin_def vu_check_def vu_iterated_def split: if_splits)

lemma sum_list_update_nat_less:
  fixes f :: "'a \<Rightarrow> nat"
  shows "k < length xs \<Longrightarrow> f y < f (xs ! k) \<Longrightarrow> (\<Sum>x\<leftarrow>xs[k := y]. f x) < (\<Sum>x\<leftarrow>xs. f x)"
proof (induction xs arbitrary: k)
  case (Cons x xs)
  then show ?case by (cases k) auto
qed simp

lemma main_step_rank: "main_step s e = Some t \<Longrightarrow> main_rank (main t) < main_rank (main s) \<and> vus t = vus s"
  by (cases e) (auto simp: main_step_def stop_new_def finish_closed_def split: main_pc.splits if_splits)

lemma drain_step_rank:
  assumes "drain_step H p s t"
  shows "drain_rank t < drain_rank s"
proof -
  from assms obtain e where stop: "stopNewRequests s" and e: "e \<noteq> Parent_Canceled" "closed_step H p s e = Some t"
    by (auto simp: drain_step_def)
  then have must: "must_stop s" by (simp add: must_stop_def)
  show ?thesis
  proof (cases e)
    case (Main m)
    then show ?thesis using e(2) main_step_rank by (fastforce simp: drain_rank_def)
  next
    case (VU k u)
    then have k: "k < length (vus s)" and u: "vu_step H p s k (vus s ! k) u = Some t" using e(2) by (auto split: if_splits)
    obtain v d where t: "t = set_vu k v (s\<lparr>c_inFlight := c_inFlight s + d\<rparr>)" and move: "vu_move H p (must_stop s) (vus s ! k) v d"
      using vu_step_move [OF u] by blast
    have "vu_rank (vu_pc v) < vu_rank (vu_pc (vus s ! k))" using move must vu_move_rank by (metis (full_types))
    then have "(\<Sum>v\<leftarrow>vus t. vu_rank (vu_pc v)) < (\<Sum>v\<leftarrow>vus s. vu_rank (vu_pc v))"
      using sum_list_update_nat_less [OF k, of "\<lambda>v. vu_rank (vu_pc v)" v] by (simp add: t set_vu_def)
    then show ?thesis by (simp add: drain_rank_def t)
  qed (use e(1) in simp)
qed

interpretation drain: ranked_steps "drain_step H p" drain_rank for H p
  by unfold_locales (rule drain_step_rank)

lemma drain_progress:
  assumes "closed_inv p n s" "stopNewRequests s" "main s \<noteq> M_Finished"
  shows "\<exists>t. drain_step H p s t"
proof (cases "vus_exited s")
  case True
  then have "\<exists>m t. main_step s m = Some t"
  proof (cases "main s")
    case (M_Cancel b)
    then show ?thesis by (intro exI [of _ E_CancelWorkers]) (simp add: main_step_def)
  qed (use True assms in \<open>auto simp: closed_inv_def main_step_def intro!: exI [of _ E_WorkersDone]\<close>)
  then obtain m t where "closed_step H p s (Main m) = Some t" by auto
  then show ?thesis using assms(2) unfolding drain_step_def by blast
next
  case False
  then obtain k where k: "k < length (vus s)" "vu_pc (vus s ! k) \<noteq> V_Exited" by (auto simp: vus_exited_def list_all_length)
  obtain v d where "vu_move H p (must_stop s) (vus s ! k) v d" using vu_can_move [OF k(2)] by blast
  then obtain e where "vu_step H p s k (vus s ! k) e = Some (set_vu k v (s\<lparr>c_inFlight := c_inFlight s + d\<rparr>))"
    using vu_move_step by blast
  then have "closed_step H p s (VU k e) = Some (set_vu k v (s\<lparr>c_inFlight := c_inFlight s + d\<rparr>))" using k(1) by simp
  then show ?thesis using assms(2) unfolding drain_step_def by blast
qed

section \<open>Properties\<close>

lemma sum_workers_vus: "sum_workers f (map (\<lambda>v. Some (vu_metrics v)) vs) = (\<Sum>v\<leftarrow>vs. f (wm (vu_metrics v)))"
  by (simp add: sum_workers_def worker_val_def comp_def)

lemma sum_list_cong: "(\<And>x. x \<in> set xs \<Longrightarrow> f x = g x) \<Longrightarrow> (\<Sum>x\<leftarrow>xs. f x) = (\<Sum>x\<leftarrow>xs. g x)"
  by (induction xs) auto

text \<open>One virtual user sends one request, then the duration elapses.\<close>

definition sample_closed_plan :: closed_plan where
  "sample_closed_plan = \<lparr>cp_Model = WorkloadModelClosed, Users = 1, cp_Duration = 100, cp_GracefulStop = 0, ThinkTime = 0,
     hasScenario = False\<rparr>"

definition sample_closed_events :: "closed_event list" where
  "sample_closed_events = map (VU 0) [E_Begin, E_AddFlight, E_Executed (Some (sample_result OutcomeSuccess 200), False),
     E_EndFlight, E_Recorded] @ map Main [E_Elapsed, E_StopNew]"

lemma sample_closed_run:
  "\<exists>ws s0 s t. NewClosedScheduler exact_hdr (Some sample_closed_plan) True = Inr ws \<and> closed_start ws = Inr s0
    \<and> closed_run exact_hdr sample_closed_plan s0 sample_closed_events = Some s
    \<and> stopNewRequests s
    \<and> closed_run exact_hdr sample_closed_plan s0 (sample_closed_events @ [VU 0 E_CheckStop, Main E_WorkersDone]) = Some t
    \<and> closed_run exact_hdr sample_closed_plan s [VU 0 E_CheckStop, Main E_WorkersDone] = Some t
    \<and> main t = M_Finished \<and> length (vus s) = 1"
  by (simp add: NewClosedScheduler_def sample_closed_plan_def sample_closed_events_def closed_start_def TransitionTo_def
      CanTransitionTo_def NewLifecycleStateMachine_def vu_step_def main_step_def vu_begin_def vu_check_def set_vu_def
      must_stop_def stop_new_def finish_closed_def vus_exited_def attempt_def)



lemma vu_move_stopped:
  assumes "vu_move H p True v v' d" "\<not> hasScenario p" "vu_inv p v"
  shows "Started (wm (vu_metrics v')) = Started (wm (vu_metrics v))"
  using assms(1)
proof cases
  case (m_iterated results success aborted)
  then show ?thesis using assms(2,3) by (simp add: vu_inv_def Let_def)
qed (simp_all add: vu_begin_def vu_check_def)

lemma stopped_step:
  assumes inv: "closed_inv p n s" and stop: "stopNewRequests s" "\<not> hasScenario p" and step: "closed_step H p s e = Some t"
  shows "stopNewRequests t \<and> map (\<lambda>v. Started (wm (vu_metrics v))) (vus t) = map (\<lambda>v. Started (wm (vu_metrics v))) (vus s)"
proof (cases e)
  case (Main m)
  then show ?thesis using step stop main_step_rank [of s m t]
    by (cases m) (auto simp: main_step_def stop_new_def finish_closed_def split: main_pc.splits if_splits)
next
  case (VU k u)
  then have k: "k < length (vus s)" and u: "vu_step H p s k (vus s ! k) u = Some t" using step by (auto split: if_splits)
  obtain v d where t: "t = set_vu k v (s\<lparr>c_inFlight := c_inFlight s + d\<rparr>)" and move: "vu_move H p (must_stop s) (vus s ! k) v d"
    using vu_step_move [OF u] by blast
  have "must_stop s" using stop by (simp add: must_stop_def)
  moreover have "vu_inv p (vus s ! k)" using inv k by (auto simp: closed_inv_def list_all_length)
  ultimately have "Started (wm (vu_metrics v)) = Started (wm (vu_metrics (vus s ! k)))"
    using move vu_move_stopped stop(2) by (metis (full_types))
  then show ?thesis using stop k by (simp add: t set_vu_def map_update list_update_same_conv)
next
  case Parent_Canceled
  then show ?thesis using step stop by auto
qed

lemma stopped_run:
  "closed_inv p n s \<Longrightarrow> stopNewRequests s \<Longrightarrow> \<not> hasScenario p \<Longrightarrow> closed_run H p s es = Some t \<Longrightarrow>
    stopNewRequests t \<and> map (\<lambda>v. Started (wm (vu_metrics v))) (vus t) = map (\<lambda>v. Started (wm (vu_metrics v))) (vus s)"
proof (induction es arbitrary: s)
  case (Cons e es)
  then obtain u where u: "closed_step H p s e = Some u" "closed_run H p u es = Some t" by (auto simp: bind_eq_Some_conv)
  note st = stopped_step [OF Cons.prems(1-3) u(1)]
  show ?case using Cons.IH [OF closed_inv_step [OF Cons.prems(1) u(1)] _ Cons.prems(3) u(2)] st by simp
qed simp

lemma flying_bounds: "0 \<le> vu_flying pc \<and> vu_flying pc \<le> 1"
  by (cases pc) auto

lemma vu_sum_flying: "0 \<le> vu_sum (\<lambda>v. vu_flying (vu_pc v)) s \<and> vu_sum (\<lambda>v. vu_flying (vu_pc v)) s \<le> int (length (vus s))"
proof -
  have "0 \<le> (\<Sum>v\<leftarrow>vs. vu_flying (vu_pc v)) \<and> (\<Sum>v\<leftarrow>vs. vu_flying (vu_pc v)) \<le> int (length vs)" for vs :: "'a vu list"
  proof (induction vs)
    case (Cons v vs)
    then show ?case using flying_bounds [of "vu_pc v"] by simp
  qed simp
  then show ?thesis by (simp add: vu_sum_def)
qed





end
