(* ===== verification/Plan_Model.thy ===== *)
theory Plan_Model
  imports Safety_Preflight Auth_Model Scheduler_Stages Scheduler_Closed Threshold_Eval
begin

text \<open>
  The execution plan: \<^verbatim>\<open>internal/plan/plan.go\<close>, \<open>BuildPlan\<close>, which compiles a validated configuration and the
  result of the preflight check into what the schedulers and executors run, and the composition of the components
  before a run: configuration, profile compiler, thresholds, authentication, schedulers.

  The cloned slices and maps of the source are values here, so that cloning is the identity. \<open>next_jar\<close> is the first
  unused identity of a cookie jar; a preflight result always carries its target URL, so that the source's fallback for a
  missing one is not modelled. \<^verbatim>\<open>FormatPlanSummary\<close> prints a plan and is not modelled.
\<close>

section \<open>Plans\<close>

record ExtractionRule =
  xr_From :: string
  xr_Expression :: string

record CompiledStep =
  cs_Name :: string
  cs_URL :: string
  cs_Method :: string
  cs_Headers :: http_Header
  cs_Body :: string
  cs_ExpectedStatuses :: "int list"
  cs_Timeout :: Duration
  cs_ResponseBodyLimit :: int
  cs_RedirectPolicy :: string
  cs_ThinkTime :: Duration
  cs_ExtractRules :: "(string \<times> ExtractionRule) list"
  cs_OnFailure :: string

record CompiledScenario =
  sn_Name :: string
  sn_Steps :: "CompiledStep list"

record Plan =
  pl_Name :: string
  pl_SchemaVersion :: int
  pl_Fingerprint :: string
  pl_TargetURL :: "parsed_url option"
  pl_Method :: string
  pl_Headers :: http_Header
  pl_Body :: string
  pl_ExpectedStatuses :: "int list"
  pl_RequestTimeout :: Duration
  pl_ResponseBodyLimit :: int
  pl_RedirectPolicy :: string
  pl_Scenario :: "CompiledScenario option"
  pl_Model :: string
  pl_Rate :: f64
  pl_TimeUnit :: Duration
  pl_MaxInFlight :: int
  pl_Duration :: Duration
  pl_GracefulStop :: Duration
  pl_Users :: int
  pl_ThinkTime :: Duration
  pl_Treat429AsExpected :: bool
  pl_Thresholds :: "Threshold list"
  pl_AllowedHosts :: "string list"
  pl_AllowNonIdempotent :: bool
  pl_ResolvedIPs :: "int list list"
  pl_AuthType :: string
  pl_AuthHeaderName :: string
  pl_TokenProvider :: TokenProvider
  pl_Authenticator :: RequestAuthenticator
  pl_JarManager :: VUJarManager
  pl_CookieJarEnabled :: bool
  pl_KnownSecrets :: "string list"
  pl_CompiledSegments :: "Segment list"
  pl_PeakTargetRPS :: f64

datatype plan_error =
    PlanNilConfig
  | PlanNilPreflight
  | PlanConfig config_error
  | PlanBodyLimit string
  | PlanThreshold threshold_error
  | PlanAuth auth_error

section \<open>Building a plan\<close>

definition clone_headers :: "(string \<times> string) list \<Rightarrow> http_Header" where
  "clone_headers headers = foldl (\<lambda>h (k, v). header_Set k v h) [] headers"

definition body_limit :: "(f64 \<Rightarrow> int) \<Rightarrow> string \<Rightarrow> plan_error + int" where
  "body_limit oob limit = (if limit = '''' then Inr (1024 * 1024) else case ParseByteSize oob limit of
       None \<Rightarrow> Inl (PlanBodyLimit limit) | Some n \<Rightarrow> Inr n)"

definition header_secrets :: "(string \<times> string) list \<Rightarrow> string list" where
  "header_secrets headers = map snd (filter (\<lambda>(k, v). IsSensitiveHeader k \<and> v \<noteq> '''') headers)"

definition known_secrets :: "Config \<Rightarrow> string list" where
  "known_secrets cfg =
     filter (\<lambda>s. s \<noteq> '''') (au_Token (cf_Auth cfg) # au_Password (cf_Auth cfg) # au_TokenPool (cf_Auth cfg))
     @ header_secrets (rq_Headers (cf_Request cfg))
     @ (case cf_Scenario cfg of None \<Rightarrow> [] | Some sc \<Rightarrow> concat (map (\<lambda>s. header_secrets (st_Headers s)) (sc_Steps sc)))"

definition compile_plan_step :: "(f64 \<Rightarrow> int) \<Rightarrow> StepConfig \<Rightarrow> plan_error + CompiledStep" where
  "compile_plan_step oob s = result_bind (body_limit oob (st_ResponseBodyLimit s)) (\<lambda>limit. Inr
     \<lparr>cs_Name = st_Name s, cs_URL = st_URL s, cs_Method = st_Method s, cs_Headers = clone_headers (st_Headers s), cs_Body = st_Body s,
      cs_ExpectedStatuses = st_ExpectedStatuses s, cs_Timeout = st_Timeout s, cs_ResponseBodyLimit = limit, cs_RedirectPolicy = st_Redirects s,
      cs_ThinkTime = st_ThinkTime s,
      cs_ExtractRules = map (\<lambda>(v, r). (v, \<lparr>xr_From = er_From r, xr_Expression = er_Expression r\<rparr>)) (st_Extract s),
      cs_OnFailure = st_OnFailure s\<rparr>)"

primrec compile_plan_steps :: "(f64 \<Rightarrow> int) \<Rightarrow> StepConfig list \<Rightarrow> plan_error + CompiledStep list" where
  "compile_plan_steps oob [] = Inr []"
| "compile_plan_steps oob (s # steps) =
     result_bind (compile_plan_step oob s) (\<lambda>c. result_bind (compile_plan_steps oob steps) (\<lambda>cs. Inr (c # cs)))"

definition compile_scenario :: "(f64 \<Rightarrow> int) \<Rightarrow> ScenarioConfig option \<Rightarrow> plan_error + CompiledScenario option" where
  "compile_scenario oob sc = (case sc of
       None \<Rightarrow> Inr None
     | Some sc \<Rightarrow> result_bind (compile_plan_steps oob (sc_Steps sc)) (\<lambda>steps. Inr (Some \<lparr>sn_Name = sc_Name sc, sn_Steps = steps\<rparr>)))"

definition plan_profile :: "(f64 \<Rightarrow> int) \<Rightarrow> LoadConfig \<Rightarrow> plan_error + Compilation option" where
  "plan_profile oob load = (if ld_Model load \<noteq> WorkloadModel_String WorkloadModelOpen then Inr None
     else case CompileLoadProfile oob (Some load) of Inl e \<Rightarrow> Inl (PlanConfig e) | Inr c \<Rightarrow> Inr (Some c))"

definition lift_error :: "('e \<Rightarrow> 'f) \<Rightarrow> 'e + 'a \<Rightarrow> 'f + 'a" where
  "lift_error f r = (case r of Inl e \<Rightarrow> Inl (f e) | Inr a \<Rightarrow> Inr a)"

definition BuildPlan ::
  "(f64 \<Rightarrow> int) \<Rightarrow> 'u url_api \<Rightarrow> (Config \<Rightarrow> string option) \<Rightarrow> (string \<Rightarrow> string) \<Rightarrow> nat \<Rightarrow> Config option \<Rightarrow> PreflightResult option
     \<Rightarrow> plan_error + Plan" where
  "BuildPlan oob U json_Marshal sha256_hex next_jar cfgo preflighto = (case (cfgo, preflighto) of
       (None, _) \<Rightarrow> Inl PlanNilConfig
     | (Some cfg, None) \<Rightarrow> Inl PlanNilPreflight
     | (Some cfg, Some preflight) \<Rightarrow>
         let load = cf_Load cfg; auth = cf_Auth cfg in
         result_bind (plan_profile oob load) (\<lambda>compiledProfile.
         result_bind (lift_error PlanConfig (ComputeFingerprint U json_Marshal sha256_hex (Some cfg))) (\<lambda>fp.
         result_bind (body_limit oob (rq_ResponseBodyLimit (cf_Request cfg))) (\<lambda>bodyLimitBytes.
         result_bind (lift_error PlanThreshold (ParseThresholds (cf_Thresholds cfg))) (\<lambda>thresholds.
         result_bind (lift_error PlanAuth (NewAuthenticator (Some auth))) (\<lambda>authenticator.
         result_bind (lift_error PlanAuth (NewTokenProvider (Some auth))) (\<lambda>provider.
         result_bind (compile_scenario oob (cf_Scenario cfg)) (\<lambda>compiledScenario.
         Inr \<lparr>pl_Name = cf_Name cfg, pl_SchemaVersion = cf_SchemaVersion cfg, pl_Fingerprint = fp,
           pl_TargetURL = Some (pf_TargetURL preflight),
           pl_Method = (if cf_Scenario cfg \<noteq> None then ''SCENARIO'' else rq_Method (cf_Request cfg)),
           pl_Headers = clone_headers (rq_Headers (cf_Request cfg)), pl_Body = '''',
           pl_ExpectedStatuses = rq_ExpectedStatuses (cf_Request cfg), pl_RequestTimeout = rq_Timeout (cf_Request cfg),
           pl_ResponseBodyLimit = bodyLimitBytes, pl_RedirectPolicy = rq_Redirects (cf_Request cfg), pl_Scenario = compiledScenario,
           pl_Model = ld_Model load, pl_Rate = ld_Rate load, pl_TimeUnit = ld_TimeUnit load, pl_MaxInFlight = ld_MaxInFlight load,
           pl_Duration = (case compiledProfile of Some c \<Rightarrow> cmp_TotalDuration c | None \<Rightarrow> ld_Duration load),
           pl_GracefulStop = ld_GracefulStop load, pl_Users = ld_Users load, pl_ThinkTime = ld_ThinkTime load,
           pl_Treat429AsExpected = cf_Treat429AsExpected cfg, pl_Thresholds = thresholds,
           pl_AllowedHosts = sf_AllowedHosts (cf_Safety cfg), pl_AllowNonIdempotent = sf_AllowNonIdempotent (cf_Safety cfg),
           pl_ResolvedIPs = pf_ResolvedIPs preflight, pl_AuthType = authType authenticator, pl_AuthHeaderName = au_HeaderName auth,
           pl_TokenProvider = provider, pl_Authenticator = authenticator,
           pl_JarManager = NewVUJarManager (au_CookieJar auth)
             (if ld_Model load = WorkloadModel_String WorkloadModelOpen then ld_MaxInFlight load else ld_Users load) next_jar,
           pl_CookieJarEnabled = (au_CookieJar auth \<or> cf_Scenario cfg \<noteq> None), pl_KnownSecrets = known_secrets cfg,
           pl_CompiledSegments = (case compiledProfile of Some c \<Rightarrow> Segments c | None \<Rightarrow> []),
           pl_PeakTargetRPS = (case compiledProfile of Some c \<Rightarrow> PeakTargetRPS c | None \<Rightarrow> F_Fin 0)\<rparr>))))))))"

definition plan_TargetRPS :: "Plan option \<Rightarrow> f64" where
  "plan_TargetRPS po = (case po of None \<Rightarrow> F_Fin 0 | Some p \<Rightarrow>
     if pl_PeakTargetRPS p > F_Fin 0 then pl_PeakTargetRPS p
     else if pl_TimeUnit p \<le> 0 then F_Fin 0 else fdiv (pl_Rate p) (Seconds (pl_TimeUnit p)))"

text \<open>The part of a plan each scheduler reads. The model of a plan is a string; the schedulers compare it with the two
  constants.\<close>

definition open_plan_of :: "Plan \<Rightarrow> open_plan" where
  "open_plan_of p = \<lparr>op_Model = (if pl_Model p = WorkloadModel_String WorkloadModelOpen then WorkloadModelOpen else WorkloadModelClosed),
     op_TimeUnit = pl_TimeUnit p, op_MaxInFlight = pl_MaxInFlight p, op_Duration = pl_Duration p, op_Rate = pl_Rate p,
     op_CompiledSegments = pl_CompiledSegments p\<rparr>"

definition closed_plan_of :: "Plan \<Rightarrow> closed_plan" where
  "closed_plan_of p = \<lparr>cp_Model = (if pl_Model p = WorkloadModel_String WorkloadModelClosed then WorkloadModelClosed else WorkloadModelOpen),
     Users = pl_Users p, cp_Duration = pl_Duration p, cp_GracefulStop = pl_GracefulStop p, ThinkTime = pl_ThinkTime p,
     hasScenario = (pl_Scenario p \<noteq> None)\<rparr>"

definition ToEvaluationContext :: "Plan option \<Rightarrow> EvaluationContext" where
  "ToEvaluationContext po = \<lparr>ctx_TargetRPS = plan_TargetRPS po, ctx_MaxInFlight = (case po of None \<Rightarrow> 0 | Some p \<Rightarrow> pl_MaxInFlight p)\<rparr>"

section \<open>The stages of a validated profile\<close>

lemma stageRank_cases:
  "stageRank s = Some r \<longleftrightarrow> s = StageWarmup \<and> r = 0 \<or> s = StageMeasured \<and> r = 1 \<or> s = StageCooldown \<and> r = 2"
  by (auto simp: stageRank_def stage_defs)

lemma stage_distinct:
  "StageWarmup \<noteq> StageMeasured" "StageMeasured \<noteq> StageWarmup" "StageWarmup \<noteq> StageCooldown" "StageCooldown \<noteq> StageWarmup"
  "StageMeasured \<noteq> StageCooldown" "StageCooldown \<noteq> StageMeasured"
  by (simp_all add: stage_defs)

text \<open>After a cool-down segment no measured segment can follow.\<close>

lemma segments_loop_cooldown: "segments_loop seen 2 False segs \<noteq> None"
proof (induction segs arbitrary: seen)
  case (Cons s segs)
  show ?case
  proof
    assume a: "segments_loop seen 2 False (s # segs) = None"
    then obtain r where r: "stageRank (ps_Stage s) = Some r" "2 \<le> r"
      by (auto simp: Let_def split: if_splits option.splits)
    then have "ps_Stage s \<noteq> StageMeasured" "r = 2" by (auto simp: stageRank_cases stage_defs)
    then show False using a r Cons.IH [of "TrimSpace (ps_Name s) # seen"] by (auto simp: Let_def split: if_splits)
  qed
qed simp

lemma segments_loop_stages:
  "segments_loop seen prev hasM segs = None \<Longrightarrow> stageRank p = Some prev \<Longrightarrow> hasM = (1 \<le> prev)
   \<Longrightarrow> successively stage_step (p # map ps_Stage segs)"
proof (induction segs arbitrary: seen prev hasM p)
  case (Cons s segs)
  obtain r where r: "stageRank (ps_Stage s) = Some r" "prev \<le> r"
    and rest: "segments_loop (TrimSpace (ps_Name s) # seen) r (hasM \<or> ps_Stage s = StageMeasured) segs = None"
    using Cons.prems(1) by (auto simp: Let_def split: if_splits option.splits)
  have "\<not> (r = 2 \<and> \<not> hasM)"
  proof
    assume "r = 2 \<and> \<not> hasM"
    then have "ps_Stage s = StageCooldown" using r(1) by (auto simp: stageRank_cases)
    then show False using rest segments_loop_cooldown \<open>r = 2 \<and> \<not> hasM\<close> by (simp add: stage_distinct)
  qed
  then have h: "(hasM \<or> ps_Stage s = StageMeasured) = (1 \<le> r)" and "stage_step p (ps_Stage s)"
    using r Cons.prems(2,3) unfolding stageRank_cases by (elim disjE conjE; simp add: stage_step_def stage_distinct)+
  then show ?case using Cons.IH [OF rest r(1) h] by simp
qed simp

lemma successively_repeat:
  "successively R (s # xs) \<Longrightarrow> R s s \<Longrightarrow> successively R (replicate k s @ s # xs)"
proof (induction k)
  case (Suc k)
  then show ?case by (cases k) simp_all
qed simp

lemma successively_replicate:
  assumes "successively R (p # s # xs)" "R s s" "0 < n"
  shows "successively R (p # replicate n s @ xs)"
proof -
  obtain k where n: "n = Suc k" using assms(3) gr0_implies_Suc by blast
  have "successively R (replicate k s @ s # xs)" using assms(1,2) by (simp add: successively_repeat)
  then show ?thesis using assms(1) by (cases k) (simp_all add: n replicate_app_Cons_same)
qed

lemma successively_expand:
  assumes "successively stage_step (p # map fst gs)" "\<forall>g\<in>set gs. 0 < snd g"
  shows "successively stage_step (p # concat (map (\<lambda>(s, n). replicate n s) gs))"
  using assms
proof (induction gs arbitrary: p)
  case (Cons g gs)
  obtain s n where g: "g = (s, n)" "0 < n" using Cons.prems(2) by (cases g) auto
  have "successively stage_step (s # concat (map (\<lambda>(s, n). replicate n s) gs))" using Cons g by simp
  moreover have "stage_step p s" using Cons.prems(1) g by simp
  ultimately show ?case using g successively_replicate [of stage_step p s _ n] by (simp add: stage_step_def)
qed simp

lemma expand_stages: "map (\<lambda>e. fst (snd e)) (expand seg) = replicate (nat (effective_steps seg)) (src_Stage seg)"
  by (simp add: expand_def comp_def map_replicate_const)

lemma Compile_stages:
  assumes "Compile oob source tu = Inr c"
  shows "map seg_Stage (Segments c) = concat (map (\<lambda>(s, n). replicate n s) (map (\<lambda>s. (src_Stage s, nat (effective_steps s))) source))"
proof -
  have "map seg_Stage (Segments c) = map (\<lambda>e. fst (snd e)) (map emission (Segments c))"
    by (simp add: emission_def comp_def)
  also have "\<dots> = concat (map (\<lambda>s. map (\<lambda>e. fst (snd e)) (expand s)) source)"
    using Compile_emit [OF assms] by (simp add: map_concat comp_def)
  finally show ?thesis by (simp add: expand_stages comp_def)
qed

lemma segments_loop_steps:
  "segments_loop seen prev hasM segs = None \<Longrightarrow> s \<in> set segs \<Longrightarrow> 0 \<le> ps_Steps s"
proof (induction segs arbitrary: seen prev hasM)
  case (Cons t segs)
  from Cons.prems(1) have "constant_segment t \<or> ramp_segment t"
    and "\<exists>seen prev hasM. segments_loop seen prev hasM segs = None"
    by (auto simp: Let_def split: if_splits option.splits)
  then show ?case using Cons.IH Cons.prems(2) by (auto simp: constant_segment_def ramp_segment_def)
qed simp

lemma validated_load:
  assumes "ValidateConfig oob U rx (Some cfg) = Inr c"
  shows "validateLoadConfig oob (cf_Load c) (cf_SchemaVersion c) = Inr (cf_Load c)"
proof -
  obtain c' load auth hosts where l: "validateLoadConfig oob (cf_Load cfg) (cf_SchemaVersion cfg) = Inr load"
    and c: "c = c'\<lparr>cf_Load := load, cf_Auth := auth, cf_Safety := (cf_Safety cfg)\<lparr>sf_AllowedHosts := hosts\<rparr>\<rparr>"
    and c': "c' = cfg\<lparr>cf_Request := cf_Request c', cf_Scenario := cf_Scenario c'\<rparr>"
    by (rule ValidateConfig_cases [OF assms])
  have "cf_SchemaVersion c' = cf_SchemaVersion cfg" by (subst c') simp
  then show ?thesis using validateLoadConfig_idem [OF l] by (simp add: c)
qed

lemma validateLoadConfig_open:
  assumes "validateLoadConfig oob load v = Inr l" "ld_Model l = WorkloadModel_String WorkloadModelOpen"
  shows "check_open oob v l = None"
proof -
  let ?load = "if ld_GracefulStop load = 0 then load\<lparr>ld_GracefulStop := DefaultGracefulStop\<rparr> else load"
  have "ld_Model ?load = WorkloadModel_String WorkloadModelOpen" using assms validateLoadConfig_values(1) [OF assms(1)] by simp
  then have "validate_open oob v ?load = Inr l" using assms(1) by (simp add: validateLoadConfig_def Let_def split: if_splits)
  then show ?thesis by (simp add: validate_open_def Let_def split: option.splits)
qed

lemma profile_source_ok:
  assumes "validateLoadConfig oob l v = Inr l" "ld_Model l = WorkloadModel_String WorkloadModelOpen"
  shows "successively stage_step (StageWarmup # map src_Stage (profile_source l))"
    and "\<forall>s\<in>set (profile_source l). 0 \<le> src_Steps s" "profile_source l \<noteq> []"
proof -
  have "check_open oob v l = None" by (rule validateLoadConfig_open [OF assms])
  then have s: "ld_Segments l \<noteq> [] \<Longrightarrow> segments_loop [] 0 False (ld_Segments l) = None"
    using check_open_None(5) [of oob v l] by (auto simp: validateProfileSegments_def split: if_splits)
  have w: "stageRank StageWarmup = Some 0" by (simp add: stageRank_def)
  show "successively stage_step (StageWarmup # map src_Stage (profile_source l))"
  proof (cases "ld_Segments l = []")
    case True
    then show ?thesis by (simp add: profile_source_def stage_step_def)
  next
    case False
    then show ?thesis using segments_loop_stages [OF s w] by (simp add: profile_source_def source_segment_def comp_def)
  qed
  show "\<forall>s\<in>set (profile_source l). 0 \<le> src_Steps s"
    using s segments_loop_steps by (auto simp: profile_source_def source_segment_def)
  show "profile_source l \<noteq> []" by (simp add: profile_source_def)
qed

section \<open>From a validated configuration to a run\<close>

lemma contiguous_nth:
  "contiguous a ss b \<Longrightarrow> i < length ss \<Longrightarrow> seg_EndOffset (ss ! i) = seg_StartOffset (ss ! i) + seg_Duration (ss ! i)
   \<and> seg_StartOffset (ss ! i) \<le> b"
proof (induction ss arbitrary: a i)
  case (Cons s ss)
  have "a \<le> b" using contiguous_length [OF Cons.prems(1)] by simp
  then show ?case using Cons by (cases i) auto
qed simp

lemma f_to_int64_le: "(\<And>x. int64 (oob x)) \<Longrightarrow> f_to_int64 oob x \<le> MaxInt64"
proof -
  assume o: "\<And>x. int64 (oob x)"
  have "oob x \<le> MaxInt64" for x using o [of x] by (simp add: int64_def)
  then show ?thesis by (cases x) (auto simp: Let_def)
qed

text \<open>What the open scheduler is given for a compiled profile.\<close>

definition open_cfg_of :: "'h hdr_ops \<Rightarrow> (f64 \<Rightarrow> int) \<Rightarrow> Time \<Rightarrow> LoadConfig \<Rightarrow> Compilation \<Rightarrow> 'h open_cfg" where
  "open_cfg_of H oob now l prof = \<lparr>ops = H, MaxInFlight = ld_MaxInFlight l, TimeUnit = ld_TimeUnit l, segments = Segments prof,
     startTime = now, float_oob = oob\<rparr>"

lemma compiled_profile_ok:
  assumes l: "validateLoadConfig oob l v = Inr l" "ld_Model l = WorkloadModel_String WorkloadModelOpen"
    and prof: "CompileLoadProfile oob (Some l) = Inr prof" and oob: "\<And>x. int64 (oob x)" and tu: "int64 (ld_TimeUnit l)"
    and mif: "0 < ld_MaxInFlight l"
  shows "Segments prof \<noteq> []" "0 < cmp_TotalDuration prof" "cfg_ok (open_cfg_of H oob now l prof)" "stages_ok (open_cfg_of H oob now l prof)"
proof -
  have c: "Compile oob (profile_source l) (ld_TimeUnit l) = Inr prof"
    using prof by (auto simp: CompileLoadProfile_def split: sum.splits)
  have inv: "compile_inv oob (ld_TimeUnit l) \<lparr>compiled = Segments prof, offset = cmp_TotalDuration prof, peakTargetRPS = PeakTargetRPS prof\<rparr>"
    by (rule Compile_inv [OF c tu])
  have "\<forall>g\<in>set (map (\<lambda>s. (src_Stage s, nat (effective_steps s))) (profile_source l)). 0 < snd g"
    using profile_source_ok(2) [OF l] by (force simp: effective_steps_def)
  then have st: "successively stage_step (StageWarmup # map seg_Stage (Segments prof))"
    using successively_expand [of StageWarmup "map (\<lambda>s. (src_Stage s, nat (effective_steps s))) (profile_source l)"]
      profile_source_ok(1) [OF l] Compile_stages [OF c] by (simp add: comp_def)
  have "0 < effective_steps (hd (profile_source l))"
    using profile_source_ok(2,3) [OF l] hd_in_set by (fastforce simp: effective_steps_def)
  then show ne: "Segments prof \<noteq> []"
    using Compile_stages [OF c] profile_source_ok(3) [OF l] by (cases "profile_source l") auto
  have con: "contiguous 0 (Segments prof) (cmp_TotalDuration prof)" "cmp_TotalDuration prof \<le> MaxInt64"
    using inv by (auto simp: compile_inv_def)
  show "0 < cmp_TotalDuration prof" using contiguous_length [OF con(1)] ne by (cases "Segments prof") auto
  have idx: "seg_Index (Segments prof ! i) = int i" if "i < length (Segments prof)" for i
    using inv that by (auto simp: compile_inv_def dest: arg_cong [of _ _ "\<lambda>xs. xs ! i"])
  have ok: "seg_ok oob (ld_TimeUnit l) (Segments prof ! i)" if "i < length (Segments prof)" for i
    using inv that by (auto simp: compile_inv_def)
  show "cfg_ok (open_cfg_of H oob now l prof)"
    using mif ne idx ok contiguous_nth [OF con(1)] con(2) f_to_int64_le [OF oob]
    by (auto simp: cfg_ok_def open_cfg_of_def seg_interval_def seg_ok_def) (meson order_trans)
  show "stages_ok (open_cfg_of H oob now l prof)"
    using st ne by (cases "Segments prof")
      (auto simp: stages_ok_def open_cfg_of_def successively_conv_nth nth_Cons stage_step_def stage_distinct split: nat.splits)
qed

lemma lift_error_Inr [simp]: "lift_error f (Inr a) = Inr a"
  by (simp add: lift_error_def)

lemma parse_fold_total:
  "\<forall>k\<in>set keys. \<exists>t. ParseThreshold k (gm_get '''' m k) = Inr t \<Longrightarrow>
   \<exists>ts'. result_fold (\<lambda>ts key. result_bind (ParseThreshold key (gm_get '''' m key)) (\<lambda>t. Inr (ts @ [t]))) ts keys = Inr ts'"
  by (induction keys arbitrary: ts) auto

lemma ParseThresholds_total:
  assumes "list_all (\<lambda>(name, expr). \<exists>t. ParseThreshold name expr = Inr t) m"
  shows "\<exists>ts. ParseThresholds m = Inr ts"
proof -
  have "\<exists>t. ParseThreshold k (gm_get '''' m k) = Inr t" if k: "k \<in> set (map fst m)" for k
  proof -
    obtain v where v: "map_of m k = Some v" using k by (cases "map_of m k") (auto simp: map_of_eq_None_iff)
    then have "(k, v) \<in> set m" by (rule map_of_SomeD)
    then show ?thesis using assms v by (auto simp: list_all_iff gm_get_def)
  qed
  then show ?thesis unfolding ParseThresholds_def by (intro parse_fold_total) simp
qed

lemma body_limit_total: "limits_ok oob ss t limit r \<Longrightarrow> \<exists>n. body_limit oob limit = Inr n \<and> 0 < n \<and> n \<le> MaxResponseBodyLimitBytes"
  by (auto simp: limits_ok_def body_limit_def MaxResponseBodyLimitBytes_def split: option.splits)

lemma compile_plan_steps_total:
  "list_all (step_ok oob) steps \<Longrightarrow> \<exists>cs. compile_plan_steps oob steps = Inr cs
    \<and> map cs_Name cs = map st_Name steps \<and> list_all (\<lambda>c. 0 < cs_ResponseBodyLimit c \<and> cs_ResponseBodyLimit c \<le> MaxResponseBodyLimitBytes) cs"
proof (induction steps)
  case (Cons s steps)
  then obtain n where "body_limit oob (st_ResponseBodyLimit s) = Inr n \<and> 0 < n \<and> n \<le> MaxResponseBodyLimitBytes"
    using body_limit_total by (force simp: step_ok_def)
  then show ?case using Cons by (auto simp: compile_plan_step_def)
qed simp

lemma compile_scenario_total:
  assumes "\<And>s. sc = Some s \<Longrightarrow> scenario_ok oob s"
  shows "\<exists>s'. compile_scenario oob sc = Inr s' \<and> (s' = None \<longleftrightarrow> sc = None)"
proof (cases sc)
  case None
  then show ?thesis by (simp add: compile_scenario_def)
next
  case (Some s)
  then have "list_all (step_ok oob) (sc_Steps s)" using assms by (simp add: scenario_ok_def)
  then show ?thesis using compile_plan_steps_total [of oob "sc_Steps s"] Some by (auto simp: compile_scenario_def)
qed

lemma BuildPlan_total:
  assumes v: "ValidateConfig oob url rx (Some cfg) = Inr c" and json: "json_Marshal (cloneConfigSanitized U c) = Some js"
    and rq: "cf_Scenario c = None \<or> rq_ResponseBodyLimit (cf_Request c) = ''''"
  shows "\<exists>p prof. BuildPlan oob U json_Marshal sha256_hex next_jar (Some c) (Some preflight) = Inr p \<and> plan_profile oob (cf_Load c) = Inr prof
    \<and> pl_Model p = ld_Model (cf_Load c) \<and> pl_TimeUnit p = ld_TimeUnit (cf_Load c) \<and> pl_MaxInFlight p = ld_MaxInFlight (cf_Load c)
    \<and> pl_Users p = ld_Users (cf_Load c) \<and> pl_Rate p = ld_Rate (cf_Load c) \<and> pl_AllowedHosts p = sf_AllowedHosts (cf_Safety c)
    \<and> pl_Duration p = (case prof of Some r \<Rightarrow> cmp_TotalDuration r | None \<Rightarrow> ld_Duration (cf_Load c))
    \<and> pl_CompiledSegments p = (case prof of Some r \<Rightarrow> Segments r | None \<Rightarrow> []) \<and> (pl_Scenario p = None \<longleftrightarrow> cf_Scenario c = None)"
proof -
  have ok: "config_ok oob url c" by (rule ValidateConfig_promise [OF v])
  obtain auth where "validateAuth auth = Inr (cf_Auth c)" by (rule ValidateConfig_cases [OF v]) auto
  note au = NewAuthenticator_total [OF this]
  have "\<exists>prof. plan_profile oob (cf_Load c) = Inr prof"
    using ok by (auto simp: plan_profile_def config_ok_def load_ok_def split: if_splits)
  then obtain prof where p1: "plan_profile oob (cf_Load c) = Inr prof" by blast
  have "\<exists>n. body_limit oob (rq_ResponseBodyLimit (cf_Request c)) = Inr n"
  proof (cases "cf_Scenario c")
    case None
    then have "request_ok oob url (cf_Request c)" using ok by (simp add: config_ok_def)
    then show ?thesis using body_limit_total by (fastforce simp: request_ok_def)
  qed (use rq in \<open>simp add: body_limit_def\<close>)
  moreover have "\<exists>ts. ParseThresholds (cf_Thresholds c) = Inr ts" using ok ParseThresholds_total by (simp add: config_ok_def)
  moreover have "\<exists>P. NewTokenProvider (Some (cf_Auth c)) = Inr P" using ok NewTokenProvider_total by (fastforce simp: config_ok_def)
  moreover have "\<exists>s'. compile_scenario oob (cf_Scenario c) = Inr s' \<and> (s' = None \<longleftrightarrow> cf_Scenario c = None)"
    using ok by (intro compile_scenario_total) (auto simp: config_ok_def)
  ultimately show ?thesis using au json p1 by (auto simp: BuildPlan_def Let_def ComputeFingerprint_def)
qed


subsection \<open>A sample\<close>

definition sample_open :: Config where
  "sample_open = sample_validated\<lparr>cf_SchemaVersion := 2, cf_Load := \<lparr>ld_Model = ''open'', ld_Rate = F_Fin 0, ld_TimeUnit = Second, ld_MaxInFlight = 20,
     ld_Duration = 0, ld_GracefulStop = 10 * Second, ld_Users = 0, ld_ThinkTime = 0,
     ld_Segments =
       [\<lparr>ps_Name = ''warm'', ps_Stage = ''warmup'', ps_Duration = 5 * Second, ps_Rate = F_Fin 10, ps_StartRate = F_Fin 0, ps_EndRate = F_Fin 0, ps_Steps = 0\<rparr>,
        \<lparr>ps_Name = ''ramp'', ps_Stage = ''measured'', ps_Duration = 10 * Second, ps_Rate = F_Fin 0, ps_StartRate = F_Fin 10, ps_EndRate = F_Fin 40, ps_Steps = 3\<rparr>]\<rparr>\<rparr>"

lemma sample_open_compiles: "\<exists>c. CompileLoadProfile (\<lambda>_. 0) (Some (cf_Load sample_open)) = Inr c"
  by (simp add: CompileLoadProfile_def profile_source_def source_segment_def sample_open_def Compile_def compile_segment_def
      compile_step_def step_duration_def step_rate_def effective_steps_def Let_def go_div_def go_mod_def profile_limits
      fsub_def f_of_int_exact rnd_numeral rat_trunc_def Seconds_Second wrap64_def Second_def upto_rec1)

lemma sample_open_validates: "ValidateConfig (\<lambda>_. 0) sample_url (\<lambda>_. True) (Some sample_open) = Inr sample_open"
proof -
  have t: "validate_target (\<lambda>_. 0) sample_url (\<lambda>_. True) sample_open = Inr sample_open" by code_simp
  have rest: "validateThresholds (cf_Thresholds sample_open) = None" "validateAuth (cf_Auth sample_open) = Inr (cf_Auth sample_open)"
    "NormalizeAllowedHosts (sf_AllowedHosts (cf_Safety sample_open)) True = Inr (sf_AllowedHosts (cf_Safety sample_open))"
    "TrimSpace (cf_Name sample_open) \<noteq> ''''" "cf_SchemaVersion sample_open = 2" "ld_Segments (cf_Load sample_open) \<noteq> []"
    by code_simp+
  have "validateProfileSegments (ld_Segments (cf_Load sample_open)) = None" by code_simp
  then have "validateLoadConfig (\<lambda>_. 0) (cf_Load sample_open) 2 = Inr (cf_Load sample_open)"
    using sample_open_compiles rest(6)
    by (auto simp: validateLoadConfig_def validate_open_def default_time_unit_def check_open_def WorkloadModel_IsValid_def WorkloadModel_String_def
        ExpectedSchemaVersion_def Let_def sample_open_def Second_def)
  then show ?thesis using t rest by (simp add: ValidateConfig_def schema_defs)
qed


end
