(* ===== verification/Redaction.thy ===== *)
theory Redaction
  imports Config_Load
begin

text \<open>
  Redaction of text and errors: \<open>RedactString\<close> and \<open>RedactError\<close> of \<^verbatim>\<open>internal/config/redact.go\<close>.

  Parameters: \<open>patterns\<close> is what the regular expressions do to a text, the steps 1 to 4 of \<^verbatim>\<open>RedactString\<close>; \<open>shuffle\<close>
  is the order in which the map of the secrets is iterated and in which the sort leaves secrets of one length.
\<close>

text \<open>\<^verbatim>\<open>strings.ReplaceAll\<close> for a nonempty \<open>old\<close>.\<close>

function ReplaceAll :: "string \<Rightarrow> string \<Rightarrow> string \<Rightarrow> string" where
  "ReplaceAll [] old new = []"
| "ReplaceAll (c # s) old new =
     (if old \<noteq> [] \<and> HasPrefix (c # s) old then new @ ReplaceAll (drop (length old) (c # s)) old new
      else c # ReplaceAll s old new)"
  by pat_completeness auto
termination by (relation "measure (\<lambda>(s, old, new). length s)") auto

definition known_values :: "string list \<Rightarrow> string list" where
  "known_values knownSecrets = remdups (filter (\<lambda>t. t \<noteq> '''' \<and> t \<noteq> RedactedPlaceholder) (map TrimSpace knownSecrets))"

definition longest_first :: "string list \<Rightarrow> string list" where
  "longest_first secrets = sort_key (\<lambda>s. - int (length s)) secrets"

definition scrub :: "string list \<Rightarrow> string \<Rightarrow> string" where
  "scrub secrets text = foldl (\<lambda>result sec. ReplaceAll result sec RedactedPlaceholder) text secrets"

definition RedactString :: "(string \<Rightarrow> string) \<Rightarrow> (string list \<Rightarrow> string list) \<Rightarrow> string \<Rightarrow> string list \<Rightarrow> string" where
  "RedactString patterns shuffle s knownSecrets =
     (if s = '''' then '''' else scrub (longest_first (shuffle (known_values knownSecrets))) (patterns s))"

definition RedactError :: "(string \<Rightarrow> string) \<Rightarrow> (string list \<Rightarrow> string list) \<Rightarrow> goerr option \<Rightarrow> string list \<Rightarrow> goerr option" where
  "RedactError patterns shuffle err knownSecrets = (case err of
       None \<Rightarrow> None
     | Some e \<Rightarrow>
         let redactedMsg = RedactString patterns shuffle (Error e) knownSecrets in
         if redactedMsg = Error e then Some e else Some (RedactedError redactedMsg e))"

section \<open>Properties\<close>

lemma Contains_iff: "Contains s p \<longleftrightarrow> (\<exists>a b. s = a @ p @ b)"
proof (induction s)
  case (Cons c s)
  have "(\<exists>a b. c # s = a @ p @ b) \<longleftrightarrow> HasPrefix (c # s) p \<or> (\<exists>a b. s = a @ p @ b)"
    unfolding HasPrefix_iff by (metis Cons_eq_append_conv append_Cons)
  then show ?case using Cons by simp
qed simp

lemma Contains_part: "Contains s p \<Longrightarrow> Contains (a @ s @ b) p"
  unfolding Contains_iff by (metis append.assoc)

lemma Contains_trans: "Contains s p \<Longrightarrow> Contains p q \<Longrightarrow> Contains s q"
  unfolding Contains_iff by (metis append.assoc)

text \<open>A text without a certain character lies on one side of it.\<close>

lemma prefix_separated: "c \<notin> set x \<Longrightarrow> HasPrefix (a @ c # b) x \<Longrightarrow> HasPrefix a x"
  by (auto simp: HasPrefix_iff append_eq_append_conv2 Cons_eq_append_conv)

lemma Contains_separated:
  assumes "c \<notin> set x" "x \<noteq> []"
  shows "Contains (a @ c # b) x \<longleftrightarrow> Contains a x \<or> Contains b x"
proof
  show "Contains (a @ c # b) x \<Longrightarrow> Contains a x \<or> Contains b x"
  proof (induction a)
    case Nil
    then show ?case using assms by (cases x) (auto simp: HasPrefix_iff)
  next
    case (Cons d a)
    then show ?case using prefix_separated [OF assms(1), of "d # a" b] by auto
  qed
  show "Contains a x \<or> Contains b x \<Longrightarrow> Contains (a @ c # b) x"
    using Contains_part [of a x "[]"] Contains_part [of b x "a @ [c]" "[]"] by auto
qed

text \<open>A secret that the placeholder cannot bring back.\<close>

definition plain_secret :: "string \<Rightarrow> bool" where
  "plain_secret x \<longleftrightarrow> x \<noteq> [] \<and> CHR ''['' \<notin> set x \<and> CHR '']'' \<notin> set x \<and> \<not> Contains ''REDACTED'' x"

lemma Contains_placeholder:
  assumes "plain_secret x"
  shows "Contains (a @ RedactedPlaceholder @ b) x \<longleftrightarrow> Contains a x \<or> Contains b x"
proof -
  have "a @ RedactedPlaceholder @ b = a @ CHR ''['' # (''REDACTED'' @ CHR '']'' # b)" by (simp add: RedactedPlaceholder_def)
  then show ?thesis using assms unfolding plain_secret_def by (metis Contains_separated)
qed

text \<open>The two facts about one replacement: \<open>a\<close> is the text passed over since the last one.\<close>

lemma ReplaceAll_keeps_out:
  "plain_secret x \<Longrightarrow> \<not> Contains (a @ s) x \<Longrightarrow> \<not> Contains (a @ ReplaceAll s old RedactedPlaceholder) x"
proof (induction s old RedactedPlaceholder arbitrary: a rule: ReplaceAll.induct)
  case (2 c s old)
  show ?case
  proof (cases "old \<noteq> [] \<and> HasPrefix (c # s) old")
    case True
    have "\<not> Contains a x" using 2(4) Contains_part [of a x "[]" "c # s"] by auto
    moreover have "\<not> Contains (drop (length old) (c # s)) x"
      using 2(4) Contains_part [of "drop (length old) (c # s)" x "a @ take (length old) (c # s)" "[]"] by (auto simp del: drop_append)
    ultimately show ?thesis using True 2(1) [OF True 2(3), of "[]"] by (simp add: Contains_placeholder [OF 2(3)])
  next
    case False
    then show ?thesis using 2(2) [OF False 2(3), of "a @ [c]"] 2(4) by auto
  qed
qed simp

lemma not_seen:
  assumes "old \<noteq> []" "\<forall>i < length a. \<not> HasPrefix (drop i (a @ s)) old"
  shows "\<not> Contains a old"
proof
  assume "Contains a old"
  then obtain b d where b: "a = b @ old @ d" by (auto simp: Contains_iff)
  then have "length b < length a" using assms(1) by simp
  moreover have "HasPrefix (drop (length b) (a @ s)) old" using b by (simp add: HasPrefix_iff)
  ultimately show False using assms(2) by blast
qed

lemma ReplaceAll_removes:
  "plain_secret old \<Longrightarrow> (\<forall>i < length a. \<not> HasPrefix (drop i (a @ s)) old) \<Longrightarrow>
   \<not> Contains (a @ ReplaceAll s old RedactedPlaceholder) old"
proof (induction s old RedactedPlaceholder arbitrary: a rule: ReplaceAll.induct)
  case (1 old)
  then show ?case using not_seen [of old a "[]"] by (simp add: plain_secret_def)
next
  case (2 c s old)
  have a: "\<not> Contains a old" using not_seen [OF _ 2(4)] 2(3) by (simp add: plain_secret_def)
  show ?case
  proof (cases "old \<noteq> [] \<and> HasPrefix (c # s) old")
    case True
    then show ?thesis using 2(1) [OF True 2(3), of "[]"] a by (simp add: Contains_placeholder [OF 2(3)])
  next
    case False
    then have "\<not> HasPrefix (c # s) old" using 2(3) by (simp add: plain_secret_def)
    then have "\<forall>i < length (a @ [c]). \<not> HasPrefix (drop i ((a @ [c]) @ s)) old"
      using 2(4) by (auto simp: less_Suc_eq)
    then show ?thesis using 2(2) [OF False 2(3), of "a @ [c]"] False by auto
  qed
qed

lemma scrub_removes: "x \<in> set secrets \<Longrightarrow> plain_secret x \<Longrightarrow> \<not> Contains (scrub secrets text) x"
proof (induction secrets rule: rev_induct)
  case (snoc sec secrets)
  have step: "scrub (secrets @ [sec]) text = ReplaceAll (scrub secrets text) sec RedactedPlaceholder" by (simp add: scrub_def)
  show ?case
  proof (cases "x = sec")
    case True
    then show ?thesis using ReplaceAll_removes [of sec "[]"] snoc.prems(2) step by simp
  next
    case False
    then show ?thesis using ReplaceAll_keeps_out [of x "[]"] snoc step by simp
  qed
qed simp

lemma ReplaceAll_absent: "\<not> Contains s old \<Longrightarrow> ReplaceAll s old new = s"
  by (induction s old new rule: ReplaceAll.induct) auto

lemma TrimSpace_part: "Contains s (TrimSpace s)"
proof -
  let ?a = "strip go_spaces s"
  obtain p where p: "s = p @ ?a" using strip_suffix by blast
  obtain q where "rev ?a = q @ strip (map rev go_spaces) (rev ?a)" using strip_suffix by blast
  then have "?a = TrimSpace s @ rev q" unfolding TrimSpace_def by (metis rev_append rev_rev_ident)
  with p show ?thesis by (metis Contains_iff)
qed

text \<open>Whatever the patterns do to the text before and in whatever order the secrets are taken, a known secret without
  brackets that is no part of the word REDACTED does not occur in the redacted text, neither as configured nor
  with the white space around it removed.\<close>

lemma RedactString_hides:
  assumes "\<And>xs. set (shuffle xs) = set xs" "sec \<in> set knownSecrets" "plain_secret (TrimSpace sec)"
  shows "\<not> Contains (RedactString patterns shuffle s knownSecrets) (TrimSpace sec)
    \<and> \<not> Contains (RedactString patterns shuffle s knownSecrets) sec"
proof -
  have "TrimSpace sec \<noteq> RedactedPlaceholder" using assms(3) by (auto simp: plain_secret_def RedactedPlaceholder_def)
  then have "TrimSpace sec \<in> set (longest_first (shuffle (known_values knownSecrets)))"
    using assms by (auto simp: longest_first_def known_values_def plain_secret_def)
  then have "\<not> Contains (RedactString patterns shuffle s knownSecrets) (TrimSpace sec)"
    using scrub_removes assms(3) by (auto simp: RedactString_def plain_secret_def)
  then show ?thesis using Contains_trans TrimSpace_part by blast
qed

text \<open>What the caller can rely on: an error after redaction has a redacted message and is the same sentinels as before.\<close>

lemma RedactError_cases:
  "RedactError patterns shuffle err secrets = None \<longleftrightarrow> err = None"
  "RedactError patterns shuffle (Some e) secrets = Some e' \<Longrightarrow>
     Error e' = RedactString patterns shuffle (Error e) secrets \<and> (\<forall>t. errors_Is e' t = errors_Is e t)"
  by (auto simp: RedactError_def Let_def split: option.splits if_splits)

end
