(* ===== verification/Http_Executor.thy ===== *)
theory Http_Executor
  imports Plan_Model Redaction
begin

text \<open>
  The HTTP executor: \<^verbatim>\<open>internal/executor\<close>. Redirect policy, request construction, reading and draining of
  response bodies, rate-limit headers, and \<open>ExecuteRequest\<close>, which turns one request into a classified result.

  Parameters: \<open>Do\<close> is \<^verbatim>\<open>http.Client.Do\<close> (a response or an error), \<open>NewRequest\<close> tells whether
  \<^verbatim>\<open>http.NewRequestWithContext\<close> refuses the method and URL, \<open>RequestURI\<close> is the path and query of the target,
  \<open>ParseTime\<close> is \<^verbatim>\<open>http.ParseTime\<close>; \<open>net_patterns\<close> and \<open>net_shuffle\<close> are those of the redaction.
  Clock readings are arguments. A response body is the bytes it delivers and the error it ends with, if it
  does not end at its end; the error is reported by a read of its own, after the last byte. Header values are valid UTF-8.
  \<^verbatim>\<open>transport.go\<close> only fills in the options of \<^verbatim>\<open>http.Transport\<close> and is not modelled.
\<close>

section \<open>Redirects (executor.go)\<close>

definition MaxRedirectHops :: nat where "MaxRedirectHops = 10"

datatype redirect_error =
    TooManyRedirects
  | ErrUseLastResponse
  | ErrCrossOriginRedirectBlocked
  | RedirectHostNotAllowed string
  | RedirectWithoutOrigin
  | RedirectNotAbsolute

text \<open>\<open>via\<close> holds the requests made so far, the oldest first; the client never calls it with none.\<close>

definition checkRedirect :: "string \<Rightarrow> string list \<Rightarrow> parsed_url \<Rightarrow> parsed_url list \<Rightarrow> redirect_error option" where
  "checkRedirect policy allowedHosts url via =
     (if length via \<ge> MaxRedirectHops then Some TooManyRedirects
      else if policy = RedirectPolicyNone then Some ErrUseLastResponse
      else if policy = RedirectPolicySameOrigin then
        if pu_Scheme url \<noteq> pu_Scheme (via ! 0) \<or> pu_Host url \<noteq> pu_Host (via ! 0) then Some ErrCrossOriginRedirectBlocked else None
      else if policy = RedirectPolicyAll then
        if \<not> IsHostAllowed (url_host url) allowedHosts then Some (RedirectHostNotAllowed (url_host url)) else None
      else None)"

text \<open>The URLs the client requests while it follows redirects: the first one, and every next one the check lets through.\<close>

inductive redirect_chain :: "(parsed_url \<Rightarrow> parsed_url list \<Rightarrow> redirect_error option) \<Rightarrow> parsed_url list \<Rightarrow> bool" for check where
  first_request: "redirect_chain check [u]"
| follow: "redirect_chain check us \<Longrightarrow> check next us = None \<Longrightarrow> redirect_chain check (us @ [next])"

text \<open>What a redirect check promises: it lets through only a target that is as good as the requests before it, and only a
  bounded number of them.\<close>

locale redirect_guard =
  fixes check :: "parsed_url \<Rightarrow> parsed_url list \<Rightarrow> redirect_error option" and ok :: "parsed_url \<Rightarrow> bool" and hops :: nat
  assumes guard_ok: "check u (v # vs) = None \<Longrightarrow> ok v \<Longrightarrow> ok u"
    and guard_hops: "check u us = None \<Longrightarrow> length us < hops"
begin

lemma chain_nonempty: "redirect_chain check us \<Longrightarrow> us \<noteq> []"
  by (induction rule: redirect_chain.induct) auto

lemma chain_ok: "redirect_chain check us \<Longrightarrow> ok (hd us) \<Longrightarrow> list_all ok us"
proof (induction rule: redirect_chain.induct)
  case (follow us u)
  obtain v vs where us: "us = v # vs" using chain_nonempty [OF follow.hyps(1)] by (cases us) auto
  then show ?case using follow guard_ok by simp
qed simp

lemma chain_hops: "redirect_chain check us \<Longrightarrow> 0 < hops \<Longrightarrow> length us \<le> hops"
  by (induction rule: redirect_chain.induct) (auto dest: guard_hops)

end

section \<open>Response bodies (response.go)\<close>

definition safeDrainLimitBytes :: nat where "safeDrainLimitBytes = 32 * 1024"

record http_body =
  hb_data :: string
  hb_err :: "goerr option"

text \<open>The bytes kept, the number received, whether the body was cut off, and the error. A limited reader does not touch the
  stream beyond its limit, so that an error behind it is seen only by the probe.\<close>

definition ReadAndDrainResponseBody :: "http_body option \<Rightarrow> int \<Rightarrow> string \<times> int \<times> bool \<times> goerr option" where
  "ReadAndDrainResponseBody body limitBytes = (case body of
       None \<Rightarrow> ([], 0, False, None)
     | Some b \<Rightarrow>
         let limit = nat (if limitBytes \<le> 0 then 1024 * 1024 else limitBytes);
             buf = take limit (hb_data b); n = length buf
         in if n < limit \<and> hb_err b \<noteq> None then (buf, int n, False, hb_err b)
            else if n = limit \<and> length (hb_data b) = limit \<and> hb_err b \<noteq> None then (buf, int n, False, hb_err b)
            else if length (hb_data b) > limit then
              (buf, int n + 1 + int (min safeDrainLimitBytes (length (hb_data b) - limit - 1)), True, None)
            else (buf, int n, False, None))"

section \<open>Requests (request.go)\<close>

record http_Request =
  hr_Method :: string
  hr_URL :: parsed_url
  hr_URI :: string
  hr_Host :: string
  hr_Header :: http_Header

definition header_Add :: "string \<Rightarrow> string \<Rightarrow> http_Header \<Rightarrow> http_Header" where
  "header_Add key val h = (let k = CanonicalHeaderKey key in gm_put k ((case map_of h k of Some vs \<Rightarrow> vs | None \<Rightarrow> []) @ [val]) h)"

definition estimateRequestBytes :: "http_Request \<Rightarrow> int \<Rightarrow> int" where
  "estimateRequestBytes req bodyLen =
     (let uri = (if hr_URI req = '''' then ''/'' else hr_URI req);
          lineLen = length (hr_Method req) + 1 + length uri + 11;
          host = (if hr_Host req = '''' then pu_Host (hr_URL req) else hr_Host req);
          headerBytes = 6 + length host + 2
            + sum_list (map (\<lambda>(k, vals). sum_list (map (\<lambda>v. length k + 2 + length v + 2) vals)) (hr_Header req)) + 2
      in int (lineLen + headerBytes) + bodyLen)"

text \<open>\<^verbatim>\<open>http.NewRequest\<close>: the empty method is GET, and an empty port is removed from the host.\<close>

definition removeEmptyPort :: "parsed_url \<Rightarrow> parsed_url" where
  "removeEmptyPort u = u\<lparr>pu_Host := TrimSuffix (pu_Host u) '':''\<rparr>"

definition new_request :: "(parsed_url \<Rightarrow> string) \<Rightarrow> string \<Rightarrow> parsed_url \<Rightarrow> http_Request" where
  "new_request RequestURI method url =
     \<lparr>hr_Method = (if method = '''' then ''GET'' else method), hr_URL = removeEmptyPort url, hr_URI = RequestURI url,
      hr_Host = pu_Host (removeEmptyPort url), hr_Header = []\<rparr>"

definition add_headers :: "http_Header \<Rightarrow> http_Header \<Rightarrow> http_Header" where
  "add_headers headers h = foldl (\<lambda>h (k, vals). foldl (\<lambda>h v. header_Add k v h) h vals) h headers"

definition override_host :: "string \<Rightarrow> http_Request \<Rightarrow> http_Request" where
  "override_host host req = (if host \<noteq> '''' then req\<lparr>hr_Host := host\<rparr> else req)"

definition build_failed :: "goerr \<Rightarrow> goerr" where
  "build_failed e = WrapError (''failed to create http request: '' @ Error e) [e]"

definition BuildHTTPRequest ::
  "(string \<Rightarrow> parsed_url \<Rightarrow> goerr option) \<Rightarrow> (parsed_url \<Rightarrow> string) \<Rightarrow> Plan option \<Rightarrow> goerr + http_Request \<times> int" where
  "BuildHTTPRequest NewRequest RequestURI p = (case p of
       None \<Rightarrow> Inl (WrapError ''plan cannot be nil'' [])
     | Some p \<Rightarrow> (let url = the (pl_TargetURL p) in case NewRequest (pl_Method p) url of
         Some e \<Rightarrow> Inl (build_failed e)
       | None \<Rightarrow>
           let req = new_request RequestURI (pl_Method p) url;
               req = req\<lparr>hr_Header := add_headers (pl_Headers p) (hr_Header req)\<rparr>;
               req = override_host (header_Get (pl_Headers p) ''Host'') req
           in Inr (req, estimateRequestBytes req (int (length (pl_Body p))))))"

section \<open>Rate-limit headers (ratelimit.go)\<close>

definition maxRateLimitHeaderValueLength :: nat where "maxRateLimitHeaderValueLength = 128"
definition rateLimitEpochThreshold :: int where "rateLimitEpochThreshold = 1000000000"

definition preferredHeader :: "http_Header \<Rightarrow> string \<Rightarrow> string \<Rightarrow> string option" where
  "preferredHeader headers standardName legacyName = (case map_of headers (CanonicalHeaderKey standardName) of
       Some (v # _) \<Rightarrow> Some (TrimSpace v)
     | _ \<Rightarrow> (case map_of headers (CanonicalHeaderKey legacyName) of Some (v # _) \<Rightarrow> Some (TrimSpace v) | _ \<Rightarrow> None))"

definition parseRateLimitNumeric :: "(f64 \<Rightarrow> int) \<Rightarrow> string \<Rightarrow> int option" where
  "parseRateLimitNumeric oob value =
     (let value = (if list_ex (\<lambda>c. c \<in> set '',;'') value then TrimSpace (takeWhile (\<lambda>c. c \<notin> set '',;'') value) else value) in
      case ParseFloat value of Some parsed \<Rightarrow> Some (f_to_int64 oob parsed) | None \<Rightarrow> ParseInt value)"

definition observation :: "string \<Rightarrow> string option \<Rightarrow> HeaderParseObservation" where
  "observation name val = \<lparr>obs_Name = name, obs_Present = True, obs_Valid = (val \<noteq> None), obs_Value = (case val of Some v \<Rightarrow> v | None \<Rightarrow> '''')\<rparr>"

definition nonneg :: "int option \<Rightarrow> int option" where
  "nonneg r = (case r of Some n \<Rightarrow> if n \<ge> 0 then Some n else None | None \<Rightarrow> None)"

definition parseObservedNumeric :: "(f64 \<Rightarrow> int) \<Rightarrow> string \<Rightarrow> string \<Rightarrow> int option \<times> HeaderParseObservation" where
  "parseObservedNumeric oob name raw =
     (let value = nonneg (parseRateLimitNumeric oob raw) in (value, observation name (map_option Itoa value)))"

text \<open>Control characters become blanks: those of ASCII, and those U+0080 to U+009F, which take two bytes.\<close>

fun map_control :: "string \<Rightarrow> string" where
  "map_control [] = []"
| "map_control (c # s) =
     (if (of_char c :: nat) < 32 \<or> (of_char c :: nat) = 127 then CHR '' '' # map_control s
      else if c = CHR 0xC2 \<and> s \<noteq> [] \<and> 128 \<le> (of_char (hd s) :: nat) \<and> (of_char (hd s) :: nat) < 160 then CHR '' '' # map_control (drop 1 s)
      else c # map_control s)"

text \<open>\<^verbatim>\<open>strings.Fields\<close>.\<close>

function fields_from :: "string \<Rightarrow> string \<Rightarrow> string list" where
  "fields_from cur s = (case s of
       [] \<Rightarrow> if cur = [] then [] else [cur]
     | c # t \<Rightarrow> (case find (\<lambda>w. w \<noteq> [] \<and> HasPrefix s w) go_spaces of
           Some w \<Rightarrow> (if cur = [] then [] else [cur]) @ fields_from [] (drop (length w) s)
         | None \<Rightarrow> fields_from (cur @ [c]) t))"
  by pat_completeness auto
termination
  by (relation "measure (\<lambda>(cur, s). length s)") (auto simp: find_Some_iff)

declare fields_from.simps [simp del]

definition Fields :: "string \<Rightarrow> string list" where
  "Fields s = fields_from [] s"

definition sanitizeHeaderValue :: "string \<Rightarrow> string" where
  "sanitizeHeaderValue value = take maxRateLimitHeaderValueLength (join_with (CHR '' '') (Fields (map_control value)))"

text \<open>\<^verbatim>\<open>time.Unix (value, 0)\<close>: seconds since 1970, counted from the zero time, at 64 bits.\<close>

definition time_Unix :: "int \<Rightarrow> Time" where
  "time_Unix sec = wrap64 (sec + 62135596800) * 1000000000"

text \<open>\<open>ParseTime\<close> and \<open>FormatTime\<close> read and write HTTP dates.\<close>

definition retry_after :: "(string \<Rightarrow> Time option) \<Rightarrow> (Time \<Rightarrow> string) \<Rightarrow> http_Header \<Rightarrow> int option \<times> Time option \<times> HeaderParseObservation list" where
  "retry_after ParseTime FormatTime headers = (let retryAfter = TrimSpace (header_Get headers ''Retry-After'') in
     if retryAfter = '''' then (None, None, [])
     else case nonneg (ParseInt retryAfter) of
       Some seconds \<Rightarrow> (Some seconds, None, [observation ''retry_after'' (Some (Itoa seconds))])
     | None \<Rightarrow> (case ParseTime retryAfter of
           Some t \<Rightarrow> (None, Some t, [observation ''retry_after'' (Some (FormatTime t))])
         | None \<Rightarrow> (None, None, [observation ''retry_after'' None])))"

definition rate_numeric :: "(f64 \<Rightarrow> int) \<Rightarrow> string \<Rightarrow> string option \<Rightarrow> int option \<times> HeaderParseObservation list" where
  "rate_numeric oob name header = (case header of
       None \<Rightarrow> (None, [])
     | Some raw \<Rightarrow> (case parseObservedNumeric oob name raw of (value, obs) \<Rightarrow> (value, [obs])))"

definition rate_reset :: "(f64 \<Rightarrow> int) \<Rightarrow> (string \<Rightarrow> Time option) \<Rightarrow> (Time \<Rightarrow> string) \<Rightarrow> string option
    \<Rightarrow> int option \<times> Time option \<times> HeaderParseObservation list" where
  "rate_reset oob ParseTime FormatTime header = (case header of
       None \<Rightarrow> (None, None, [])
     | Some raw \<Rightarrow> (case nonneg (parseRateLimitNumeric oob raw) of
           Some value \<Rightarrow>
             if value > rateLimitEpochThreshold then
               (None, Some (time_Unix value), [observation ''reset'' (Some (FormatTime (time_Unix value)))])
             else (Some value, None, [observation ''reset'' (Some (Itoa value))])
         | None \<Rightarrow> (case ParseTime raw of
               Some t \<Rightarrow> (None, Some t, [observation ''reset'' (Some (FormatTime t))])
             | None \<Rightarrow> (None, None, [observation ''reset'' None]))))"

definition rate_policy :: "http_Header \<Rightarrow> string \<times> HeaderParseObservation list" where
  "rate_policy headers = (let policy = TrimSpace (header_Get headers ''RateLimit-Policy'') in
     if policy \<noteq> '''' then (let p = sanitizeHeaderValue policy in (p, [observation ''policy'' (Some p)])) else ('''', []))"

definition ExtractRateLimitInfo ::
  "(f64 \<Rightarrow> int) \<Rightarrow> (string \<Rightarrow> Time option) \<Rightarrow> (Time \<Rightarrow> string) \<Rightarrow> http_Header option \<Rightarrow> RateLimitInfo option" where
  "ExtractRateLimitInfo oob ParseTime FormatTime h = (case h of
       None \<Rightarrow> None
     | Some headers \<Rightarrow>
         (case retry_after ParseTime FormatTime headers of (seconds, date, o1) \<Rightarrow>
          case rate_numeric oob ''limit'' (preferredHeader headers ''RateLimit-Limit'' ''X-RateLimit-Limit'') of (limit, o2) \<Rightarrow>
          case rate_numeric oob ''remaining'' (preferredHeader headers ''RateLimit-Remaining'' ''X-RateLimit-Remaining'') of (remaining, o3) \<Rightarrow>
          case rate_reset oob ParseTime FormatTime (preferredHeader headers ''RateLimit-Reset'' ''X-RateLimit-Reset'') of (rsecs, rdate, o4) \<Rightarrow>
          case rate_policy headers of (policy, o5) \<Rightarrow>
            let obs = o1 @ o2 @ o3 @ o4 @ o5 in
            if obs = [] then None
            else Some \<lparr>RetryAfterSeconds = seconds, RetryAfterDate = date, Limit = limit, Remaining = remaining,
                       ResetSeconds = rsecs, ResetDate = rdate, Policy = policy, HeaderObservations = obs\<rparr>))"

section \<open>One request (executor.go)\<close>

record http_Response =
  rs_StatusCode :: int
  rs_Proto :: string
  rs_Header :: http_Header
  rs_Body :: http_body

text \<open>What is not code of the repository: the HTTP client, given the cookie jar it uses, if any, the redirect check and
  the request; URLs; dates; the patterns of the redaction.\<close>

record net_api =
  net_NewRequest :: "string \<Rightarrow> parsed_url \<Rightarrow> goerr option"
  net_RequestURI :: "parsed_url \<Rightarrow> string"
  net_Do :: "nat option \<Rightarrow> (parsed_url \<Rightarrow> parsed_url list \<Rightarrow> redirect_error option) \<Rightarrow> http_Request \<Rightarrow> string \<Rightarrow> goerr + http_Response"
  net_ParseTime :: "string \<Rightarrow> Time option"
  net_FormatTime :: "Time \<Rightarrow> string"
  net_oob :: "f64 \<Rightarrow> int"
  net_patterns :: "string \<Rightarrow> string"
  net_shuffle :: "string list \<Rightarrow> string list"

definition net_redact :: "net_api \<Rightarrow> string list \<Rightarrow> goerr option \<Rightarrow> goerr option" where
  "net_redact N secrets err = RedactError (net_patterns N) (net_shuffle N) err secrets"

text \<open>The clients of \<open>NewHTTPExecutor\<close>: the shared one has no cookie jar, and there is one per worker when jars are on. A
  client is the jar it uses. \<open>make\<close> panics for a negative count.\<close>

record HTTPExecutor =
  ex_plan :: Plan
  ex_workerClients :: "nat option list"

definition NewHTTPExecutor :: "Plan option \<Rightarrow> goerr + HTTPExecutor" where
  "NewHTTPExecutor p = (case p of
       None \<Rightarrow> Inl (WrapError ''plan cannot be nil'' [])
     | Some p \<Rightarrow>
         let workerCount = (if pl_Model p = WorkloadModel_String WorkloadModelOpen then pl_MaxInFlight p else pl_Users p)
         in Inr \<lparr>ex_plan = p, ex_workerClients =
              (if pl_CookieJarEnabled p then map (\<lambda>workerID. GetJar (pl_JarManager p) (int workerID)) [0 ..< nat workerCount] else [])\<rparr>)"

definition select_client :: "HTTPExecutor \<Rightarrow> int \<Rightarrow> nat option" where
  "select_client e workerID =
     (if 0 \<le> workerID \<and> workerID < int (length (ex_workerClients e)) then ex_workerClients e ! nat workerID else None)"

definition stamps :: "Time \<Rightarrow> Time \<Rightarrow> Time \<Rightarrow> Time \<Rightarrow> RequestTimestamps" where
  "stamps scheduledAt dispatchedAt headersReceivedAt bodyCompletedAt =
     \<lparr>PlannedAt = 0, ScheduledAt = scheduledAt, DispatchedAt = dispatchedAt,
      HeadersReceivedAt = headersReceivedAt, BodyCompletedAt = bodyCompletedAt\<rparr>"

text \<open>A failure before a response, with the given readings of the clock: \<open>t1\<close> scheduled, \<open>t2\<close> dispatched, \<open>t3\<close> when the
  headers came, \<open>t4\<close> completed.\<close>

definition build_failure :: "goerr option \<Rightarrow> Time \<Rightarrow> Time \<Rightarrow> Time \<Rightarrow> exec_Result" where
  "build_failure err t1 t2 t3 =
     \<lparr>r_Outcome = Classify \<lparr>ci_StatusCode = 0, ci_ExpectedStatuses = [], ci_Err = err, ci_Canceled = False, ci_Dropped = False,
                            ci_ResponseBodyErr = False, ci_RequestBuildErr = True\<rparr>,
      r_StatusCode = 0, r_Protocol = '''', r_Timestamps = stamps t1 t2 t3 t3, r_Latency = time_sub t3 t2, r_TTFB = 0,
      r_TotalDuration = time_sub t3 t1, r_BytesSent = 0, r_BytesReceived = 0, r_Truncated = False, r_RateLimitInfo = None, r_Err = err\<rparr>"

definition transport_failure :: "goerr option \<Rightarrow> bool \<Rightarrow> int \<Rightarrow> Time \<Rightarrow> Time \<Rightarrow> Time \<Rightarrow> Time \<Rightarrow> exec_Result" where
  "transport_failure err isCanceled bytesSent t1 t2 t3 t4 =
     \<lparr>r_Outcome = Classify \<lparr>ci_StatusCode = 0, ci_ExpectedStatuses = [], ci_Err = err, ci_Canceled = isCanceled, ci_Dropped = False,
                            ci_ResponseBodyErr = False, ci_RequestBuildErr = False\<rparr>,
      r_StatusCode = 0, r_Protocol = '''', r_Timestamps = stamps t1 t2 t3 t4, r_Latency = time_sub t4 t2, r_TTFB = time_sub t3 t2,
      r_TotalDuration = time_sub t4 t1, r_BytesSent = bytesSent, r_BytesReceived = 0, r_Truncated = False, r_RateLimitInfo = None, r_Err = err\<rparr>"

definition response_result ::
  "http_Response \<Rightarrow> int list \<Rightarrow> goerr option \<Rightarrow> int \<Rightarrow> int \<Rightarrow> bool \<Rightarrow> RateLimitInfo option \<Rightarrow> Time \<Rightarrow> Time \<Rightarrow> Time \<Rightarrow> Time \<Rightarrow> exec_Result" where
  "response_result resp expected bodyErr bytesSent bytesRecv truncated info t1 t2 t3 t4 =
     \<lparr>r_Outcome = Classify \<lparr>ci_StatusCode = rs_StatusCode resp, ci_ExpectedStatuses = expected, ci_Err = bodyErr, ci_Canceled = False,
                            ci_Dropped = False, ci_ResponseBodyErr = (bodyErr \<noteq> None), ci_RequestBuildErr = False\<rparr>,
      r_StatusCode = rs_StatusCode resp, r_Protocol = rs_Proto resp, r_Timestamps = stamps t1 t2 t3 t4,
      r_Latency = max 0 (time_sub t4 t2), r_TTFB = max 0 (time_sub t3 t2), r_TotalDuration = max 0 (time_sub t4 t1),
      r_BytesSent = bytesSent, r_BytesReceived = bytesRecv, r_Truncated = truncated, r_RateLimitInfo = info, r_Err = bodyErr\<rparr>"

text \<open>\<open>ctx_canceled\<close>: whether the context of the run is canceled when the client has failed.\<close>

definition ExecuteRequest :: "net_api \<Rightarrow> HTTPExecutor \<Rightarrow> int \<Rightarrow> bool \<Rightarrow> Time \<Rightarrow> Time \<Rightarrow> Time \<Rightarrow> Time \<Rightarrow> exec_Result" where
  "ExecuteRequest N e workerID ctx_canceled t1 t2 t3 t4 =
     (let p = ex_plan e; redact = net_redact N (pl_KnownSecrets p) in
      case BuildHTTPRequest (net_NewRequest N) (net_RequestURI N) (Some p) of
        Inl reqErr \<Rightarrow> build_failure (redact (Some reqErr)) t1 t2 t3
      | Inr (req, _) \<Rightarrow>
          let req = req\<lparr>hr_Header := AuthenticateRequest (pl_Authenticator p) (hr_Header req) workerID\<rparr>;
              bytesSent = estimateRequestBytes req (int (length (pl_Body p)))
          in case net_Do N (select_client e workerID) (checkRedirect (pl_RedirectPolicy p) (pl_AllowedHosts p)) req (pl_Body p) of
               Inl doErr \<Rightarrow> transport_failure (redact (Some doErr)) ctx_canceled bytesSent t1 t2 t3 t4
             | Inr resp \<Rightarrow>
                 (case ReadAndDrainResponseBody (Some (rs_Body resp)) (pl_ResponseBodyLimit p) of (_, bytesRecv, truncated, bodyErr) \<Rightarrow>
                    response_result resp (pl_ExpectedStatuses p) (redact bodyErr) bytesSent bytesRecv truncated
                      (ExtractRateLimitInfo (net_oob N) (net_ParseTime N) (net_FormatTime N) (Some (rs_Header resp))) t1 t2 t3 t4))"

section \<open>Properties\<close>

subsection \<open>Redirects\<close>

definition redirect_policies :: "string list" where
  "redirect_policies = [RedirectPolicyNone, RedirectPolicySameOrigin, RedirectPolicyAll]"

definition same_origin :: "parsed_url \<Rightarrow> parsed_url \<Rightarrow> bool" where
  "same_origin u v \<longleftrightarrow> pu_Scheme u = pu_Scheme v \<and> pu_Host u = pu_Host v"


lemmas redirect_policy_defs = RedirectPolicyNone_def RedirectPolicySameOrigin_def RedirectPolicyAll_def

interpretation http_redirects: redirect_guard "checkRedirect policy allowedHosts"
  "\<lambda>u. policy \<in> set redirect_policies \<longrightarrow> IsHostAllowed (url_host u) allowedHosts" MaxRedirectHops for policy allowedHosts
  by unfold_locales
    (auto simp: checkRedirect_def redirect_policies_def url_host_def pu_Hostname_def split: if_splits)

interpretation http_origins: redirect_guard "checkRedirect policy allowedHosts"
  "\<lambda>u. policy = RedirectPolicySameOrigin \<longrightarrow> same_origin u origin" MaxRedirectHops for policy allowedHosts origin
  by unfold_locales
    (auto simp: checkRedirect_def same_origin_def redirect_policy_defs split: if_splits)

lemma redirect_none: "redirect_chain (checkRedirect RedirectPolicyNone allowedHosts) us \<Longrightarrow> length us = 1"
  by (induction rule: redirect_chain.induct) (auto simp: checkRedirect_def split: if_splits)

text \<open>C7. Under each of the three configured policies a request whose own host is authorised never reaches an unauthorised
  host over redirects and makes at most ten requests; without redirects it makes one, and with same-origin redirects every
  request goes to the scheme and host of the first one.\<close>

theorem redirects_stay_authorised:
  assumes "redirect_chain (checkRedirect policy allowedHosts) us" "policy \<in> set redirect_policies"
    "IsHostAllowed (url_host (hd us)) allowedHosts"
  shows "list_all (\<lambda>u. IsHostAllowed (url_host u) allowedHosts) us \<and> length us \<le> MaxRedirectHops
    \<and> (policy = RedirectPolicyNone \<longrightarrow> length us = 1)
    \<and> (policy = RedirectPolicySameOrigin \<longrightarrow> list_all (\<lambda>u. same_origin u (hd us)) us)"
proof (intro conjI impI)
  show "list_all (\<lambda>u. IsHostAllowed (url_host u) allowedHosts) us"
    using http_redirects.chain_ok [OF assms(1)] assms(2,3) by simp
  show "length us \<le> MaxRedirectHops"
    using http_redirects.chain_hops [OF assms(1)] by (simp add: MaxRedirectHops_def)
  show "policy = RedirectPolicyNone \<Longrightarrow> length us = 1" using redirect_none assms(1) by simp
  show "list_all (\<lambda>u. same_origin u (hd us)) us" if "policy = RedirectPolicySameOrigin"
    using http_origins.chain_ok [OF assms(1), of "hd us"] that by (simp add: same_origin_def)
qed

definition origin_url :: parsed_url where
  "origin_url = \<lparr>pu_Scheme = ''http'', pu_Host = ''localhost:8080''\<rparr>"

lemma origin_url_allowed: "IsHostAllowed (url_host origin_url) [''localhost'']"
  by code_simp

lemma sample_redirect: "redirect_chain (checkRedirect RedirectPolicySameOrigin [''localhost'']) [origin_url, origin_url]"
proof -
  have "checkRedirect RedirectPolicySameOrigin [''localhost''] origin_url [origin_url] = None"
    by (simp add: checkRedirect_def redirect_policy_defs MaxRedirectHops_def)
  then show ?thesis using redirect_chain.follow [of _ "[origin_url]" origin_url] redirect_chain.first_request by simp
qed

theorem redirects_stay_authorised_witness:
  "list_all (\<lambda>u. IsHostAllowed (url_host u) [''localhost'']) [origin_url, origin_url]
   \<and> list_all (\<lambda>u. same_origin u origin_url) [origin_url, origin_url]"
  using redirects_stay_authorised [OF sample_redirect _ ] origin_url_allowed by (simp add: redirect_policies_def)

subsection \<open>Response bodies\<close>



subsection \<open>One request\<close>

lemma Classify_not_dropped: "\<not> ci_Dropped i \<Longrightarrow> Classify i \<noteq> OutcomeDropped"
  by (auto simp: Classify_def classifyError_def classifyCause_def Let_def split: option.splits)

lemma transport_outcome: "classifyError (Some e) \<notin> {OutcomeSuccess, OutcomeRateLimited, OutcomeUnexpectedStatus, OutcomeRequestBuildError, OutcomeResponseBodyError}"
  by (simp add: classifyError_def classifyCause_def Let_def)

lemma net_redact_None [simp]: "net_redact N secrets err = None \<longleftrightarrow> err = None"
  by (simp add: net_redact_def RedactError_cases)

lemma net_redact_total [simp]: "\<exists>e'. net_redact N secrets (Some e) = Some e'"
  by (metis net_redact_None not_Some_eq)

lemma net_redact_Some:
  obtains e' where "net_redact N secrets (Some e) = Some e'"
  by (metis net_redact_None not_Some_eq)

definition request_sent :: "net_api \<Rightarrow> HTTPExecutor \<Rightarrow> int \<Rightarrow> http_Request" where
  "request_sent N e workerID = (let p = ex_plan e; url = the (pl_TargetURL p);
     h = add_headers (pl_Headers p) []; host = header_Get (pl_Headers p) ''Host'' in
     \<lparr>hr_Method = (if pl_Method p = '''' then ''GET'' else pl_Method p), hr_URL = removeEmptyPort url, hr_URI = net_RequestURI N url,
      hr_Host = (if host \<noteq> '''' then host else pu_Host (removeEmptyPort url)),
      hr_Header = AuthenticateRequest (pl_Authenticator p) h workerID\<rparr>)"

text \<open>The three ways a request can end.\<close>

lemma ExecuteRequest_cases:
  obtains (build) err where "net_NewRequest N (pl_Method (ex_plan e)) (the (pl_TargetURL (ex_plan e))) \<noteq> None"
    "ExecuteRequest N e w c t1 t2 t3 t4 = build_failure (net_redact N (pl_KnownSecrets (ex_plan e)) (Some err)) t1 t2 t3"
  | (transport) err sent where "net_NewRequest N (pl_Method (ex_plan e)) (the (pl_TargetURL (ex_plan e))) = None"
    "net_Do N (select_client e w) (checkRedirect (pl_RedirectPolicy (ex_plan e)) (pl_AllowedHosts (ex_plan e))) (request_sent N e w) (pl_Body (ex_plan e)) = Inl err"
    "ExecuteRequest N e w c t1 t2 t3 t4 = transport_failure (net_redact N (pl_KnownSecrets (ex_plan e)) (Some err)) c sent t1 t2 t3 t4"
  | (response) resp sent kept received truncated err info where "net_NewRequest N (pl_Method (ex_plan e)) (the (pl_TargetURL (ex_plan e))) = None"
    "net_Do N (select_client e w) (checkRedirect (pl_RedirectPolicy (ex_plan e)) (pl_AllowedHosts (ex_plan e))) (request_sent N e w) (pl_Body (ex_plan e)) = Inr resp"
    "ReadAndDrainResponseBody (Some (rs_Body resp)) (pl_ResponseBodyLimit (ex_plan e)) = (kept, received, truncated, err)"
    "ExecuteRequest N e w c t1 t2 t3 t4 = response_result resp (pl_ExpectedStatuses (ex_plan e)) (net_redact N (pl_KnownSecrets (ex_plan e)) err)
       sent received truncated info t1 t2 t3 t4"
proof (cases "net_NewRequest N (pl_Method (ex_plan e)) (the (pl_TargetURL (ex_plan e)))")
  case (Some err)
  then show thesis by (intro build) (simp_all add: ExecuteRequest_def BuildHTTPRequest_def Let_def)
next
  case None
  let ?do = "net_Do N (select_client e w) (checkRedirect (pl_RedirectPolicy (ex_plan e)) (pl_AllowedHosts (ex_plan e))) (request_sent N e w) (pl_Body (ex_plan e))"
  obtain sent where sent: "BuildHTTPRequest (net_NewRequest N) (net_RequestURI N) (Some (ex_plan e)) =
      Inr ((request_sent N e w)\<lparr>hr_Header := add_headers (pl_Headers (ex_plan e)) []\<rparr>, sent)"
    using None by (simp add: BuildHTTPRequest_def new_request_def override_host_def request_sent_def Let_def)
  have req: "(request_sent N e w)\<lparr>hr_Header := AuthenticateRequest (pl_Authenticator (ex_plan e)) (add_headers (pl_Headers (ex_plan e)) []) w\<rparr>
      = request_sent N e w" by (simp add: request_sent_def Let_def)
  show thesis
  proof (cases ?do)
    case (Inl err)
    then show thesis using None sent req by (intro transport) (auto simp: ExecuteRequest_def Let_def)
  next
    case (Inr resp)
    obtain kept received truncated err where
      "ReadAndDrainResponseBody (Some (rs_Body resp)) (pl_ResponseBodyLimit (ex_plan e)) = (kept, received, truncated, err)"
      by (cases "ReadAndDrainResponseBody (Some (rs_Body resp)) (pl_ResponseBodyLimit (ex_plan e))") auto
    with None Inr sent req show thesis by (intro response) (auto simp: ExecuteRequest_def Let_def)
  qed
qed

text \<open>A response that came and whose body could be read.\<close>

definition answered :: "net_api \<Rightarrow> HTTPExecutor \<Rightarrow> int \<Rightarrow> http_Response \<Rightarrow> bool" where
  "answered N e w resp \<longleftrightarrow> (let p = ex_plan e in
     net_NewRequest N (pl_Method p) (the (pl_TargetURL p)) = None
     \<and> net_Do N (select_client e w) (checkRedirect (pl_RedirectPolicy p) (pl_AllowedHosts p)) (request_sent N e w) (pl_Body p) = Inr resp
     \<and> snd (snd (snd (ReadAndDrainResponseBody (Some (rs_Body resp)) (pl_ResponseBodyLimit p)))) = None)"

lemma response_outcome:
  "r_Outcome (response_result resp expected err sent received truncated info t1 t2 t3 t4) =
     (if err \<noteq> None then OutcomeResponseBodyError
      else if rs_StatusCode resp = 429 then OutcomeRateLimited
      else if isStatusExpected (rs_StatusCode resp) expected then OutcomeSuccess else OutcomeUnexpectedStatus)"
  by (simp add: response_result_def Classify_def)

lemma failure_outcome:
  "r_Outcome (build_failure err t1 t2 t3) = OutcomeRequestBuildError"
  "r_Outcome (transport_failure (Some e) c sent t1 t2 t3 t4) = (if c then OutcomeCanceled else classifyError (Some e))"
  by (simp_all add: build_failure_def transport_failure_def Classify_def)

lemma failed_outcome:
  "\<not> IsHTTPResponse (r_Outcome (build_failure err t1 t2 t3))"
  "\<not> IsHTTPResponse (r_Outcome (transport_failure (Some e) c sent t1 t2 t3 t4))"
  using transport_outcome [of e] by (auto simp: failure_outcome IsHTTPResponse_def)

text \<open>C28. A request counts as an HTTP response exactly if the request could be built, the client got a response and its body
  could be read. Then the status decides: 429 is rate limited, an expected status a success, and every other one
  unexpected. In every other case the result carries an error, and no request is ever counted as dropped.\<close>

theorem ExecuteRequest_outcome:
  "(IsHTTPResponse (r_Outcome (ExecuteRequest N e w c t1 t2 t3 t4)) \<longleftrightarrow> (\<exists>resp. answered N e w resp))
   \<and> (answered N e w resp \<longrightarrow> r_StatusCode (ExecuteRequest N e w c t1 t2 t3 t4) = rs_StatusCode resp
        \<and> r_Err (ExecuteRequest N e w c t1 t2 t3 t4) = None
        \<and> r_Outcome (ExecuteRequest N e w c t1 t2 t3 t4) =
            (if rs_StatusCode resp = 429 then OutcomeRateLimited
             else if isStatusExpected (rs_StatusCode resp) (pl_ExpectedStatuses (ex_plan e)) then OutcomeSuccess
             else OutcomeUnexpectedStatus))
   \<and> ((\<exists>resp. answered N e w resp) \<or> r_Err (ExecuteRequest N e w c t1 t2 t3 t4) \<noteq> None)
   \<and> r_Outcome (ExecuteRequest N e w c t1 t2 t3 t4) \<noteq> OutcomeDropped"
proof -
  show ?thesis
  proof (rule ExecuteRequest_cases [of N e w c t1 t2 t3 t4], goal_cases build transport response)
    case (build err)
    then have "\<And>resp. \<not> answered N e w resp" by (simp add: answered_def Let_def)
    then show ?thesis using build(2) failed_outcome(1)
      by (simp add: failure_outcome) (simp add: build_failure_def)
  next
    case (transport err sent)
    obtain e' where e': "net_redact N (pl_KnownSecrets (ex_plan e)) (Some err) = Some e'" by (rule net_redact_Some)
    have "\<And>resp. \<not> answered N e w resp" using transport(2) by (simp add: answered_def Let_def)
    moreover have "classifyError (Some e') \<noteq> OutcomeDropped"
      by (simp add: classifyError_def classifyCause_def Let_def)
    ultimately show ?thesis using transport(3) failed_outcome(2) e'
      by (simp add: failure_outcome) (simp add: transport_failure_def)
  next
    case (response rsp sent kept received truncated err info)
    have "\<And>resp. answered N e w resp \<longleftrightarrow> resp = rsp \<and> err = None"
      using response(1,2,3) by (auto simp: answered_def Let_def)
    then show ?thesis unfolding response(4) response_outcome IsHTTPResponse_def by (auto simp: response_result_def)
  qed
qed

definition sample_plan :: Plan where
  "sample_plan = \<lparr>pl_Name = ''demo'', pl_SchemaVersion = 1, pl_Fingerprint = ''f'', pl_TargetURL = Some origin_url, pl_Method = ''GET'',
     pl_Headers = [(''Accept'', [''*/*''])], pl_Body = '''', pl_ExpectedStatuses = [200], pl_RequestTimeout = 1000000000,
     pl_ResponseBodyLimit = 1024, pl_RedirectPolicy = RedirectPolicyNone, pl_Scenario = None,
     pl_Model = WorkloadModel_String WorkloadModelClosed, pl_Rate = F_Fin 0, pl_TimeUnit = 1000000000, pl_MaxInFlight = 0,
     pl_Duration = 1000000000, pl_GracefulStop = 0, pl_Users = 2, pl_ThinkTime = 0, pl_Treat429AsExpected = False, pl_Thresholds = [],
     pl_AllowedHosts = [''localhost''], pl_AllowNonIdempotent = False, pl_ResolvedIPs = [], pl_AuthType = AuthTypeBearer,
     pl_AuthHeaderName = '''', pl_TokenProvider = StaticTokenProvider ''s3cr3t'',
     pl_Authenticator = \<lparr>authType = AuthTypeBearer, headerName = ''Authorization'', tokenProvider = StaticTokenProvider ''s3cr3t'',
                         basicUsername = '''', basicPassword = ''''\<rparr>,
     pl_JarManager = \<lparr>jm_enabled = True, jm_jars = [7, 8]\<rparr>, pl_CookieJarEnabled = True, pl_KnownSecrets = [''s3cr3t''],
     pl_CompiledSegments = [], pl_PeakTargetRPS = F_Fin 0\<rparr>"

definition sample_executor :: HTTPExecutor where
  "sample_executor = \<lparr>ex_plan = sample_plan, ex_workerClients = [Some 7, Some 8]\<rparr>"

text \<open>A target that answers worker 0, and refuses the connections of the others with an error that names the token.\<close>

definition sample_net :: net_api where
  "sample_net = \<lparr>net_NewRequest = (\<lambda>_ _. None), net_RequestURI = (\<lambda>_. ''/''),
     net_Do = (\<lambda>jar _ req _. if jar = Some 7 then Inr \<lparr>rs_StatusCode = 200, rs_Proto = ''HTTP/1.1'', rs_Header = [],
                 rs_Body = \<lparr>hb_data = ''ok'', hb_err = None\<rparr>\<rparr> else Inl (OtherError ''refused for s3cr3t'' None [])),
     net_ParseTime = (\<lambda>_. None), net_FormatTime = (\<lambda>_. ''''), net_oob = (\<lambda>_. 0), net_patterns = (\<lambda>t. t), net_shuffle = (\<lambda>xs. xs)\<rparr>"

lemma sample_answered:
  "answered sample_net sample_executor 0 \<lparr>rs_StatusCode = 200, rs_Proto = ''HTTP/1.1'', rs_Header = [], rs_Body = \<lparr>hb_data = ''ok'', hb_err = None\<rparr>\<rparr>"
  by (simp add: answered_def Let_def sample_net_def sample_executor_def sample_plan_def select_client_def ReadAndDrainResponseBody_def)

theorem ExecuteRequest_outcome_witness:
  "r_Outcome (ExecuteRequest sample_net sample_executor 0 False 10 11 12 13) = OutcomeSuccess"
  using ExecuteRequest_outcome [of sample_net sample_executor 0 False 10 11 12 13] sample_answered
  by (fastforce simp: sample_executor_def sample_plan_def isStatusExpected_def)


lemma sample_secret [simp]: "TrimSpace ''s3cr3t'' = ''s3cr3t''" by code_simp

lemma sample_failure:
  "r_Err (ExecuteRequest sample_net sample_executor 1 False 10 11 12 13) =
     Some (RedactedError ''refused for [REDACTED]'' (OtherError ''refused for s3cr3t'' None []))"
  by (simp add: ExecuteRequest_def BuildHTTPRequest_def transport_failure_def net_redact_def RedactError_def RedactString_def
      known_values_def longest_first_def scrub_def sample_net_def sample_executor_def sample_plan_def select_client_def Let_def
      RedactedPlaceholder_def HasPrefix_def)


text \<open>When the clock does not run backwards, the durations of a result are those of its timestamps, and the time to the first
  byte is at most the latency, which is at most the total duration.\<close>

lemma ExecuteRequest_timing:
  assumes "0 < t1" "t1 \<le> t2" "t2 \<le> t3" "t3 \<le> t4"
  shows "let res = ExecuteRequest N e w c t1 t2 t3 t4; ts = r_Timestamps res in
    ScheduledAt ts \<le> DispatchedAt ts \<and> DispatchedAt ts \<le> HeadersReceivedAt ts \<and> HeadersReceivedAt ts \<le> BodyCompletedAt ts
    \<and> r_Latency res = Latency ts \<and> r_TTFB res \<le> TTFB ts
    \<and> 0 \<le> r_TTFB res \<and> r_TTFB res \<le> r_Latency res \<and> r_Latency res \<le> r_TotalDuration res"
proof -
  have mono: "time_sub t3 t2 \<le> time_sub t4 t2" "time_sub t4 t2 \<le> time_sub t4 t1" "time_sub t3 t2 \<le> time_sub t3 t1"
    "0 \<le> time_sub t3 t2" "0 \<le> time_sub t4 t2" "0 \<le> time_sub t4 t1"
    using assms by (auto simp: time_sub_def)
  show ?thesis
  proof (rule ExecuteRequest_cases [of N e w c t1 t2 t3 t4], goal_cases)
    case 1
    then show ?thesis using assms mono by (simp add: build_failure_def stamps_def Latency_def TTFB_def IsZero_def)
  next
    case 2
    then show ?thesis using assms mono by (simp add: transport_failure_def stamps_def Latency_def TTFB_def IsZero_def)
  next
    case 3
    then show ?thesis using assms mono by (simp add: response_result_def stamps_def Latency_def TTFB_def IsZero_def)
  qed
qed

theorem ExecuteRequest_timing_witness:
  "r_TTFB (ExecuteRequest sample_net sample_executor 0 False 10 11 12 13) \<le> r_Latency (ExecuteRequest sample_net sample_executor 0 False 10 11 12 13)"
  using ExecuteRequest_timing [of 10 11 12 13 sample_net sample_executor 0 False] by (simp add: Let_def)

subsection \<open>Rate-limit headers\<close>

lemma nonneg_Some [simp]: "nonneg r = Some n \<longleftrightarrow> r = Some n \<and> 0 \<le> n"
  by (auto simp: nonneg_def split: option.splits)

lemma map_control_visible: "c \<in> set (map_control s) \<Longrightarrow> 32 \<le> (of_char c :: nat) \<and> (of_char c :: nat) \<noteq> 127"
proof (induction s rule: map_control.induct)
  case (2 d s)
  have blank: "32 \<le> (of_char (CHR '' '') :: nat)" "(of_char (CHR '' '') :: nat) \<noteq> 127" by simp_all
  from 2 blank show ?case by (auto split: if_splits)
qed simp

lemma fields_from_set: "w \<in> set (fields_from cur s) \<Longrightarrow> set w \<subseteq> set cur \<union> set s"
proof (induction cur s arbitrary: w rule: fields_from.induct)
  case (1 cur s)
  show ?case
  proof (cases s)
    case (Cons c t)
    show ?thesis
    proof (cases "find (\<lambda>w. w \<noteq> [] \<and> HasPrefix s w) go_spaces")
      case None
      have "fields_from cur s = fields_from (cur @ [c]) t" using Cons None by (subst fields_from.simps) simp
      then show ?thesis using 1(1) [OF Cons None, of w] 1(3) Cons by auto
    next
      case (Some v)
      have "set (drop (length v) s) \<subseteq> set s" by (rule set_drop_subset)
      moreover have "fields_from cur s = (if cur = [] then [] else [cur]) @ fields_from [] (drop (length v) s)"
        using Cons Some by (subst fields_from.simps) simp
      ultimately show ?thesis using 1(2) [OF Cons Some, of w] 1(3) by (auto split: if_splits)
    qed
  qed (use 1(3) in \<open>auto simp: fields_from.simps split: if_splits\<close>)
qed

lemma join_with_set: "set (join_with c xs) \<subseteq> {c} \<union> (\<Union>x\<in>set xs. set x)"
  by (induction c xs rule: join_with.induct) auto

lemma sanitizeHeaderValue_visible: "c \<in> set (sanitizeHeaderValue s) \<Longrightarrow> 32 \<le> (of_char c :: nat) \<and> (of_char c :: nat) \<noteq> 127"
proof -
  assume "c \<in> set (sanitizeHeaderValue s)"
  then have "c \<in> set (join_with (CHR '' '') (Fields (map_control s)))"
    unfolding sanitizeHeaderValue_def by (rule in_set_takeD)
  then have "c = CHR '' '' \<or> c \<in> set (map_control s)"
    using join_with_set [of "CHR '' ''" "Fields (map_control s)"] fields_from_set [of _ "[]" "map_control s"]
    unfolding Fields_def by fastforce
  then show ?thesis using map_control_visible by auto
qed

definition rate_numbers :: "RateLimitInfo \<Rightarrow> int list" where
  "rate_numbers info = concat (map (\<lambda>r. case r of None \<Rightarrow> [] | Some n \<Rightarrow> [n]) [RetryAfterSeconds info, Limit info, Remaining info, ResetSeconds info])"

definition observed :: "RateLimitInfo \<Rightarrow> string \<Rightarrow> bool" where
  "observed info name = list_ex (\<lambda>ob. obs_Name ob = name \<and> obs_Valid ob) (HeaderObservations info)"

lemma obs_simps [simp]: "obs_Name (observation n v) = n" "obs_Present (observation n v)" "obs_Valid (observation n v) \<longleftrightarrow> v \<noteq> None"
  by (simp_all add: observation_def)

text \<open>What one header contributes: at most one observation, of its name, valid exactly if a value was read.\<close>

definition reads :: "string \<Rightarrow> HeaderParseObservation list \<Rightarrow> bool \<Rightarrow> bool" where
  "reads name obs valid \<longleftrightarrow> (case obs of [] \<Rightarrow> \<not> valid | [ob] \<Rightarrow> obs_Name ob = name \<and> (obs_Valid ob \<longleftrightarrow> valid) | _ \<Rightarrow> False)"

lemma reads_names: "reads name obs valid \<Longrightarrow> obs_Name ` set obs \<subseteq> {name} \<and> distinct (map obs_Name obs)"
  by (auto simp: reads_def split: list.splits)

lemma reads_valid: "reads name obs valid \<Longrightarrow> list_ex (\<lambda>ob. obs_Name ob = m \<and> obs_Valid ob) obs \<longleftrightarrow> name = m \<and> valid"
  by (auto simp: reads_def split: list.splits)

lemma distinct_disjoint:
  "distinct xs \<Longrightarrow> distinct ys \<Longrightarrow> set xs \<subseteq> {x} \<Longrightarrow> x \<notin> set ys \<Longrightarrow> distinct (xs @ ys)"
  by auto

lemma retry_after_reads:
  "retry_after P F h = (secs, date, obs) \<Longrightarrow> reads ''retry_after'' obs (secs \<noteq> None \<or> date \<noteq> None)
     \<and> (secs = None \<or> date = None) \<and> (\<forall>n. secs = Some n \<longrightarrow> 0 \<le> n)"
  by (auto simp: retry_after_def reads_def Let_def dest!: sym [of "Some _"] split: if_splits option.splits)

lemma rate_numeric_reads:
  "rate_numeric oob name header = (val, obs) \<Longrightarrow> reads name obs (val \<noteq> None) \<and> (\<forall>n. val = Some n \<longrightarrow> 0 \<le> n)"
  by (auto simp: rate_numeric_def parseObservedNumeric_def reads_def Let_def split: option.splits)

lemma rate_reset_reads:
  "rate_reset oob P F header = (secs, date, obs) \<Longrightarrow> reads ''reset'' obs (secs \<noteq> None \<or> date \<noteq> None)
     \<and> (secs = None \<or> date = None) \<and> (\<forall>n. secs = Some n \<longrightarrow> 0 \<le> n \<and> n \<le> rateLimitEpochThreshold)"
  by (auto simp: rate_reset_def reads_def dest!: sym [of "Some _"] split: if_splits option.splits)

lemma rate_policy_reads:
  "rate_policy h = (p, obs) \<Longrightarrow> (\<exists>valid. reads ''policy'' obs valid) \<and> length p \<le> maxRateLimitHeaderValueLength
     \<and> (\<forall>c\<in>set p. 32 \<le> (of_char c :: nat) \<and> (of_char c :: nat) \<noteq> 127)"
  using sanitizeHeaderValue_visible
  by (auto simp: rate_policy_def reads_def sanitizeHeaderValue_def Let_def split: if_splits)



end
