(* ===== verification/Scenario_Extract.thy ===== *)
theory Scenario_Extract
  imports Http_Executor
begin

text \<open>
  Scenario variables: \<^verbatim>\<open>internal/scenario/substitute.go\<close>, \<^verbatim>\<open>extract.go\<close> and the state of a virtual user in
  \<^verbatim>\<open>types.go\<close>. Variables are substituted into templates and extracted from responses.

  Parameters, in the record \<open>ext_api\<close>: \<^verbatim>\<open>json.Unmarshal\<close> and \<^verbatim>\<open>json.Marshal\<close>, \<^verbatim>\<open>strconv.FormatFloat\<close> and
  \<^verbatim>\<open>strconv.Quote\<close>, the cookies a response sets and those a jar holds for the URL of its request, regular
  expressions (compiling one gives an error or a function that finds the submatches), and \<^verbatim>\<open>url.Parse\<close>.
\<close>

section \<open>Substitution (substitute.go)\<close>

text \<open>The error is the name of the variable that has no value.\<close>

function subst_loop :: "(string \<Rightarrow> string option) \<Rightarrow> string \<Rightarrow> string + string" where
  "subst_loop vars [] = Inr []"
| "subst_loop vars (c # r) =
     (if c = CHR ''$'' \<and> HasPrefix r ''${'' \<and> CHR ''}'' \<in> set (drop 2 r) then
        let end_ix = the (IndexByte (drop 2 r) (CHR ''}'')) in
        result_bind (subst_loop vars (drop (end_ix + 3) r)) (\<lambda>t. Inr (CHR ''$'' # take (end_ix + 2) (drop 1 r) @ t))
      else if c = CHR ''$'' \<and> HasPrefix r ''{'' \<and> CHR ''}'' \<in> set (drop 1 r) then
        let end_ix = the (IndexByte (drop 1 r) (CHR ''}'')); varName = take end_ix (drop 1 r) in
        (case vars varName of
           None \<Rightarrow> Inl varName
         | Some val \<Rightarrow> result_bind (subst_loop vars (drop (end_ix + 2) r)) (\<lambda>t. Inr (val @ t)))
      else result_bind (subst_loop vars r) (\<lambda>t. Inr (c # t)))"
  by pat_completeness auto
termination by (relation "measure (\<lambda>(_, s). length s)") auto

definition SubstituteVariables :: "string \<Rightarrow> (string \<Rightarrow> string option) \<Rightarrow> string + string" where
  "SubstituteVariables tmpl vars = (if \<not> Contains tmpl ''$'' then Inr tmpl else subst_loop vars tmpl)"

section \<open>The state of a virtual user (types.go)\<close>

record VUState =
  vs_VUID :: int
  vs_Iteration :: int
  vs_Variables :: "(string \<times> string) list"
  vs_CookieJar :: "nat option"
  vs_InitialVariables :: "(string \<times> string) list"
  vs_DeterministicTokens :: "string list"

definition NewVUState :: "int \<Rightarrow> nat option \<Rightarrow> (string \<times> string) list \<Rightarrow> VUState" where
  "NewVUState vuID jar initialVars =
     \<lparr>vs_VUID = vuID, vs_Iteration = 0, vs_Variables = foldl (\<lambda>m (k, v). gm_put k v m) [] initialVars, vs_CookieJar = jar,
      vs_InitialVariables = foldl (\<lambda>m (k, v). gm_put k v m) [] initialVars, vs_DeterministicTokens = []\<rparr>"

definition ResetIteration :: "VUState \<Rightarrow> VUState" where
  "ResetIteration s = s\<lparr>vs_Iteration := wrap64 (vs_Iteration s + 1)\<rparr>"

section \<open>Paths into JSON documents (extract.go)\<close>

datatype json = JNull | JBool bool | JNumber f64 | JString string | JArray "json list" | JObject "(string \<times> json) list"

record pathStep =
  ps_key :: string
  ps_hasKey :: bool
  ps_index :: int
  ps_hasIndex :: bool

definition key_step :: "string \<Rightarrow> pathStep" where
  "key_step k = \<lparr>ps_key = k, ps_hasKey = True, ps_index = 0, ps_hasIndex = False\<rparr>"

definition index_step :: "int \<Rightarrow> pathStep" where
  "index_step i = \<lparr>ps_key = '''', ps_hasKey = False, ps_index = i, ps_hasIndex = True\<rparr>"

datatype path_error = UnclosedBracket | InvalidArrayIndex string

function path_part :: "string \<Rightarrow> path_error + pathStep list" where
  "path_part part = (case part of [] \<Rightarrow> Inr [] | c # _ \<Rightarrow>
     (if CHR ''['' \<notin> set part then Inr [key_step part]
      else if c \<noteq> CHR ''['' then
        let bracketStart = the (IndexByte part (CHR ''['')) in
        result_bind (path_part (drop bracketStart part)) (\<lambda>steps. Inr (key_step (take bracketStart part) # steps))
      else if CHR '']'' \<notin> set part then Inl UnclosedBracket
      else
        let bracketEnd = the (IndexByte part (CHR '']'')); idxStr = take (bracketEnd - 1) (drop 1 part) in
        case ParseInt idxStr of
          None \<Rightarrow> Inl (InvalidArrayIndex idxStr)
        | Some idx \<Rightarrow>
            if idx < 0 then Inl (InvalidArrayIndex idxStr)
            else result_bind (path_part (drop (bracketEnd + 1) part)) (\<lambda>steps. Inr (index_step idx # steps))))"
  by pat_completeness auto
termination
proof (relation "measure length", goal_cases)
  case (2 part c r b)
  then obtain i where i: "IndexByte part (CHR ''['') = Some i" by (metis IndexByte_None not_Some_eq)
  with 2 have "0 < i" by auto
  with 2 i show ?case by (simp del: IndexByte.simps)
qed auto

declare path_part.simps [simp del]

primrec path_parts :: "string list \<Rightarrow> path_error + pathStep list" where
  "path_parts [] = Inr []"
| "path_parts (part # parts) =
     result_bind (path_part (TrimSpace part)) (\<lambda>steps. result_bind (path_parts parts) (\<lambda>more. Inr (steps @ more)))"

definition parseJSONPath :: "string \<Rightarrow> path_error + pathStep list" where
  "parseJSONPath expr =
     (let trimmed = TrimSpace expr;
          trimmed = (if HasPrefix trimmed ''$.'' then drop 2 trimmed else if HasPrefix trimmed ''$'' then drop 1 trimmed else trimmed)
      in if trimmed = '''' then Inr [] else path_parts (SplitByte (CHR ''.'') trimmed))"

section \<open>Extraction (extract.go)\<close>

record ext_api =
  ext_Unmarshal :: "string \<Rightarrow> goerr + json"
  ext_Marshal :: "json \<Rightarrow> goerr + string"
  ext_FormatFloat :: "f64 \<Rightarrow> string"
  ext_Quote :: "string \<Rightarrow> string"
  ext_Cookies :: "http_Response \<Rightarrow> (string \<times> string) list"
  ext_JarCookies :: "nat \<Rightarrow> http_Response \<Rightarrow> (string \<times> string) list"
  ext_Regexp :: "string \<Rightarrow> goerr + (string \<Rightarrow> string list)"
  ext_Parse :: "string \<Rightarrow> goerr + parsed_url"
  ext_oob :: "f64 \<Rightarrow> int"

definition errorf :: "string \<Rightarrow> goerr" where "errorf msg = WrapError msg []"

definition wrapf :: "string \<Rightarrow> goerr \<Rightarrow> goerr" where "wrapf msg e = WrapError (msg @ Error e) [e]"

definition path_goerr :: "ext_api \<Rightarrow> string \<Rightarrow> path_error \<Rightarrow> goerr" where
  "path_goerr X expr e = (case e of
       UnclosedBracket \<Rightarrow> errorf (''unclosed bracket in jsonpath '' @ ext_Quote X expr)
     | InvalidArrayIndex idxStr \<Rightarrow> errorf (''invalid array index '' @ ext_Quote X idxStr @ '' in jsonpath '' @ ext_Quote X expr))"

text \<open>A JSON number has no fraction part: \<^verbatim>\<open>val == math.Trunc(val)\<close>, and it is neither NaN nor infinite.\<close>

definition jsonValueToString :: "ext_api \<Rightarrow> json \<Rightarrow> goerr + string" where
  "jsonValueToString X v = (case v of
       JNull \<Rightarrow> Inr ''''
     | JString val \<Rightarrow> Inr val
     | JNumber val \<Rightarrow> (case val of
           F_Fin x \<Rightarrow> if x = of_int (floor x) then Inr (Itoa (f_to_int64 (ext_oob X) val)) else Inr (ext_FormatFloat X val)
         | _ \<Rightarrow> Inr (ext_FormatFloat X val))
     | JBool val \<Rightarrow> Inr (if val then ''true'' else ''false'')
     | _ \<Rightarrow> ext_Marshal X v)"

definition step_key :: "ext_api \<Rightarrow> pathStep \<Rightarrow> json \<Rightarrow> goerr + json" where
  "step_key X st cur = (if \<not> ps_hasKey st then Inr cur else case cur of
       JObject objMap \<Rightarrow> (case map_of objMap (ps_key st) of
           Some val \<Rightarrow> Inr val | None \<Rightarrow> Inl (errorf (''key '' @ ext_Quote X (ps_key st) @ '' not found in JSON object'')))
     | _ \<Rightarrow> Inl (errorf (''key '' @ ext_Quote X (ps_key st) @ '' cannot be traversed on non-object value'')))"

definition step_index :: "pathStep \<Rightarrow> json \<Rightarrow> goerr + json" where
  "step_index st cur = (if \<not> ps_hasIndex st then Inr cur else case cur of
       JArray arr \<Rightarrow>
         if ps_index st < 0 \<or> ps_index st \<ge> int (length arr)
         then Inl (errorf (''array index ['' @ Itoa (ps_index st) @ ''] out of bounds (length: '' @ Itoa (int (length arr)) @ '')''))
         else Inr (arr ! nat (ps_index st))
     | _ \<Rightarrow> Inl (errorf (''index ['' @ Itoa (ps_index st) @ ''] cannot be traversed on non-array value'')))"

definition traverse :: "ext_api \<Rightarrow> pathStep list \<Rightarrow> json \<Rightarrow> goerr + json" where
  "traverse X steps doc = result_fold (\<lambda>cur st. result_bind (step_key X st cur) (step_index st)) doc steps"

definition extractJSON :: "ext_api \<Rightarrow> string \<Rightarrow> string \<Rightarrow> goerr + string" where
  "extractJSON X body expr =
     (if body = '''' then Inl (errorf ''cannot extract JSON from empty response body'')
      else case ext_Unmarshal X body of
        Inl e \<Rightarrow> Inl (wrapf ''invalid JSON response: '' e)
      | Inr doc \<Rightarrow>
          result_bind (lift_error (path_goerr X expr) (parseJSONPath expr)) (\<lambda>steps.
          result_bind (traverse X steps doc) (jsonValueToString X)))"

definition extractHeader :: "ext_api \<Rightarrow> http_Response \<Rightarrow> string \<Rightarrow> goerr + string" where
  "extractHeader X resp name = (let val = header_Get (rs_Header resp) name in
     if val = '''' then Inl (errorf (''header '' @ ext_Quote X name @ '' not found in response'')) else Inr val)"

definition extractCookie :: "ext_api \<Rightarrow> http_Response \<Rightarrow> string \<Rightarrow> VUState \<Rightarrow> goerr + string" where
  "extractCookie X resp cookieName state =
     (let held = (case vs_CookieJar state of None \<Rightarrow> [] | Some jar \<Rightarrow> ext_JarCookies X jar resp) in
      case find (\<lambda>(name, _). name = cookieName) (ext_Cookies X resp @ held) of
        Some (_, val) \<Rightarrow> Inr val
      | None \<Rightarrow> Inl (errorf (''cookie '' @ ext_Quote X cookieName @ '' not found'')))"

definition extractRegex :: "ext_api \<Rightarrow> string \<Rightarrow> string \<Rightarrow> goerr + string" where
  "extractRegex X body pattern = (case ext_Regexp X pattern of
       Inl e \<Rightarrow> Inl (wrapf (''invalid regex '' @ ext_Quote X pattern @ '': '') e)
     | Inr find_submatch \<Rightarrow> (case find_submatch body of
           [] \<Rightarrow> Inl (errorf (''regex '' @ ext_Quote X pattern @ '' matched nothing in response''))
         | [whole] \<Rightarrow> Inr whole
         | _ # g # _ \<Rightarrow> Inr g))"

definition ExtractValue :: "ext_api \<Rightarrow> http_Response \<Rightarrow> string \<Rightarrow> ExtractionRule \<Rightarrow> VUState \<Rightarrow> goerr + string" where
  "ExtractValue X resp body rule state =
     (if xr_From rule = ''json'' \<or> xr_From rule = ''jsonpath'' then extractJSON X body (xr_Expression rule)
      else if xr_From rule = ''header'' then extractHeader X resp (xr_Expression rule)
      else if xr_From rule = ''cookie'' then extractCookie X resp (xr_Expression rule) state
      else if xr_From rule = ''regex'' then extractRegex X body (xr_Expression rule)
      else Inl (errorf (''unsupported extraction source '' @ ext_Quote X (xr_From rule))))"

definition extract_failed :: "ext_api \<Rightarrow> string \<Rightarrow> ExtractionRule \<Rightarrow> goerr \<Rightarrow> goerr" where
  "extract_failed X varName rule err =
     wrapf (''failed to extract '' @ ext_Quote X varName @ '' (from '' @ xr_From rule @ '': '' @ ext_Quote X (xr_Expression rule) @ ''): '') err"

text \<open>The loop over the sorted names changes the state it was given even when it ends with an error.\<close>

primrec extract_loop :: "ext_api \<Rightarrow> http_Response \<Rightarrow> string \<Rightarrow> (string \<times> ExtractionRule) list \<Rightarrow> string list \<Rightarrow> VUState \<Rightarrow> VUState \<times> goerr option" where
  "extract_loop X resp body rules [] state = (state, None)"
| "extract_loop X resp body rules (varName # keys) state =
     (let rule = the (map_of rules varName) in
      case ExtractValue X resp body rule state of
        Inl err \<Rightarrow> (state, Some (extract_failed X varName rule err))
      | Inr val \<Rightarrow> extract_loop X resp body rules keys (state\<lparr>vs_Variables := gm_put varName val (vs_Variables state)\<rparr>))"

definition ExtractAll :: "ext_api \<Rightarrow> http_Response \<Rightarrow> string \<Rightarrow> (string \<times> ExtractionRule) list \<Rightarrow> VUState \<Rightarrow> VUState \<times> goerr option" where
  "ExtractAll X resp body rules state = extract_loop X resp body rules (sort (map fst rules)) state"

section \<open>Properties of the substitution\<close>

lemma IndexByte_after: "c \<notin> set s \<Longrightarrow> the (IndexByte (s @ c # t) c) = length s"
  by (simp add: IndexByte_first)

definition closed_name :: "string \<Rightarrow> bool" where
  "closed_name n \<longleftrightarrow> CHR ''}'' \<notin> set n"

interpretation scenario_vars: template subst_loop "\<lambda>n. n" closed_name
proof (unfold_locales, goal_cases)
  case (3 n lookup r)
  then show ?case by (cases "lookup n") (simp_all add: closed_name_def HasPrefix_def IndexByte_after Let_def)
next
  case (4 n lookup r)
  then show ?case by (simp add: closed_name_def HasPrefix_def IndexByte_after Let_def numeral_3_eq_3)
qed simp_all

lemma Contains_char: "Contains s [c] \<longleftrightarrow> c \<in> set s"
  by (induction s) (auto simp: HasPrefix_def)

lemma SubstituteVariables_loop: "SubstituteVariables t vars = subst_loop vars t"
proof (cases "CHR ''$'' \<in> set t")
  case False
  then show ?thesis
    using scenario_vars.plain_text [of t vars "[]"] by (simp add: SubstituteVariables_def Contains_char)
qed (simp add: SubstituteVariables_def Contains_char)

text \<open>Substituting into a template written from plain text, references and escaped references gives exactly its meaning: a
  reference becomes the value of the variable, which is not substituted into again, an escaped one the literal reference,
  and the first reference to a variable without a value is the error. A name is anything without a closing brace.\<close>

lemma SubstituteVariables_pieces:
  assumes "list_all (piece_ok closed_name) ps"
  shows "SubstituteVariables (concat (map write_piece ps)) vars = mean_pieces (\<lambda>n. n) vars ps"
  unfolding SubstituteVariables_loop using assms by (rule scenario_vars.pieces)

lemma SubstituteVariables_pieces_witness:
  "SubstituteVariables ''/users/${id}/$${id}'' [''id'' \<mapsto> ''${x}''] = Inr ''/users/${x}/${id}''"
  using SubstituteVariables_pieces [of "[Plain ''/users/'', Reference ''id'', Plain ''/'', Escaped ''id'']" "[''id'' \<mapsto> ''${x}'']"]
  by (simp add: closed_name_def)

text \<open>On any template at all, the error names a variable without a value that the template refers to.\<close>

lemma subst_loop_error: "subst_loop vars t = Inl n \<Longrightarrow> vars n = None \<and> Contains t (''${'' @ n @ ''}'')"
proof (induction vars t rule: subst_loop.induct)
  case (2 vars c r)
  have skip: "Contains (drop k r) p \<Longrightarrow> Contains (c # r) p" for k p
    using Contains_part [of "drop k r" p "c # take k r" "[]"] by simp
  consider (escaped) "c = CHR ''$'' \<and> HasPrefix r ''${'' \<and> CHR ''}'' \<in> set (drop 2 r)"
    | (reference) "\<not> (c = CHR ''$'' \<and> HasPrefix r ''${'' \<and> CHR ''}'' \<in> set (drop 2 r))"
        "c = CHR ''$'' \<and> HasPrefix r ''{'' \<and> CHR ''}'' \<in> set (drop 1 r)"
    | (other) "\<not> (c = CHR ''$'' \<and> HasPrefix r ''${'' \<and> CHR ''}'' \<in> set (drop 2 r))"
        "\<not> (c = CHR ''$'' \<and> HasPrefix r ''{'' \<and> CHR ''}'' \<in> set (drop 1 r))" by blast
  then show ?case
  proof cases
    case escaped
    then have "subst_loop vars (drop (the (IndexByte (drop 2 r) (CHR ''}'')) + 3) r) = Inl n"
      using 2(4) by (auto simp: Let_def result_bind_def split: sum.splits)
    then show ?thesis using 2(1) [OF escaped refl] skip by blast
  next
    case reference
    obtain e where e: "IndexByte (drop 1 r) (CHR ''}'') = Some e" using reference(2) by (metis IndexByte_None not_Some_eq)
    let ?v = "take e (drop 1 r)"
    show ?thesis
    proof (cases "vars ?v")
      case None
      obtain q where q: "r = CHR ''{'' # q" using reference(2) by (auto simp: HasPrefix_iff)
      then have "q = ?v @ CHR ''}'' # drop (Suc e) q" using IndexByte_Some [OF e] by simp (metis id_take_nth_drop)
      then have "c # r = ''${'' @ ?v @ ''}'' @ drop (Suc e) q" using q reference(2) by simp
      moreover have "n = ?v" using 2(4) reference e None by (auto simp: Let_def)
      ultimately show ?thesis using None by (metis Contains_iff append_Nil append.assoc)
    next
      case (Some val)
      then have "subst_loop vars (drop (e + 2) r) = Inl n"
        using 2(4) reference e by (auto simp: Let_def result_bind_def split: sum.splits)
      then show ?thesis using 2(2) [OF reference refl refl, of val] e Some skip by auto
    qed
  next
    case other
    then have "subst_loop vars r = Inl n" using 2(4) by (auto simp: result_bind_def split: sum.splits if_splits)
    then show ?thesis using 2(3) [OF other] skip [of 0] by auto
  qed
qed simp

section \<open>Properties of paths\<close>

text \<open>A path as its author meant it: indices into the document, then keys with the indices behind each.\<close>

definition write_indices :: "int list \<Rightarrow> string" where
  "write_indices is = concat (map (\<lambda>i. ''['' @ Itoa i @ '']'') is)"

definition write_path :: "int list \<Rightarrow> (string \<times> int list) list \<Rightarrow> string" where
  "write_path is ks = ''$'' @ write_indices is @ concat (map (\<lambda>(k, js). ''.'' @ k @ write_indices js) ks)"

definition path_steps :: "int list \<Rightarrow> (string \<times> int list) list \<Rightarrow> pathStep list" where
  "path_steps is ks = map index_step is @ concat (map (\<lambda>(k, js). key_step k # map index_step js) ks)"

definition path_key :: "string \<Rightarrow> bool" where
  "path_key k \<longleftrightarrow> k \<noteq> '''' \<and> CHR ''.'' \<notin> set k \<and> CHR ''['' \<notin> set k \<and> hd k \<notin> set space_heads \<and> last k \<notin> set space_lasts"

definition path_indices :: "int list \<Rightarrow> bool" where
  "path_indices is \<longleftrightarrow> list_all (\<lambda>i. 0 \<le> i \<and> int64 i) is"

lemma bracket_not_digit: "0 \<le> i \<Longrightarrow> CHR '']'' \<notin> set (Itoa i)" "0 \<le> i \<Longrightarrow> CHR ''['' \<notin> set (Itoa i)" "0 \<le> i \<Longrightarrow> CHR ''.'' \<notin> set (Itoa i)"
  using Itoa_digits by fastforce+

lemma path_part_index:
  assumes "0 \<le> i" "int64 i"
  shows "path_part (''['' @ Itoa i @ '']'' @ rest) = result_bind (path_part rest) (\<lambda>steps. Inr (index_step i # steps))"
proof -
  let ?part = "''['' @ Itoa i @ '']'' @ rest"
  have e: "the (IndexByte ?part (CHR '']'')) = Suc (length (Itoa i))"
    using IndexByte_after [of "CHR '']''" "CHR ''['' # Itoa i" rest] bracket_not_digit(1) [OF assms(1)] by simp
  show ?thesis
    by (subst path_part.simps) (use assms e in \<open>simp add: Let_def ParseInt_Itoa del: IndexByte.simps\<close>)
qed

lemma path_part_indices: "path_indices is \<Longrightarrow> path_part (write_indices is) = Inr (map index_step is)"
proof (induction "is")
  case (Cons i js)
  then show ?case using path_part_index [of i "write_indices js"] by (simp add: path_indices_def write_indices_def)
qed (simp add: write_indices_def path_part.simps)

lemma path_part_key:
  assumes "path_key k" "path_indices js"
  shows "path_part (k @ write_indices js) = Inr (key_step k # map index_step js)"
proof (cases js)
  case Nil
  then show ?thesis using assms by (subst path_part.simps) (auto simp: write_indices_def path_key_def split: list.splits)
next
  case (Cons i ls)
  define t where "t = Itoa i @ '']'' @ write_indices ls"
  have w: "write_indices js = CHR ''['' # t" by (simp add: Cons write_indices_def t_def)
  have k: "k \<noteq> []" "CHR ''['' \<notin> set k" using assms(1) by (auto simp: path_key_def)
  have "path_part (k @ write_indices js) = result_bind (path_part (write_indices js)) (\<lambda>steps. Inr (key_step k # steps))"
    unfolding w by (subst path_part.simps) (use k IndexByte_after [OF k(2), of t] in \<open>auto simp: Let_def neq_Nil_conv split: list.splits\<close>)
  then show ?thesis using path_part_indices [OF assms(2)] by simp
qed

lemma path_parts_keys:
  assumes "\<forall>(k, js)\<in>set ks. path_key k \<and> path_indices js" "CHR ''.'' \<notin> set a" "path_part (TrimSpace a) = Inr steps"
  shows "path_parts (SplitByte (CHR ''.'') (a @ concat (map (\<lambda>(k, js). ''.'' @ k @ write_indices js) ks)))
    = Inr (steps @ concat (map (\<lambda>(k, js). key_step k # map index_step js) ks))"
  using assms
proof (induction ks arbitrary: a steps)
  case Nil
  then show ?case by (simp add: SplitByte_single)
next
  case (Cons p ks)
  obtain k js where p: "p = (k, js)" by (cases p)
  let ?b = "k @ write_indices js"
  have k: "path_key k" "path_indices js" using Cons.prems(1) p by auto
  have dot: "CHR ''.'' \<notin> set ?b"
    using k bracket_not_digit(3) by (auto simp: path_key_def write_indices_def path_indices_def list_all_iff)
  have "last ?b \<notin> set space_lasts"
  proof (cases "js = []")
    case False
    then have "last ?b = CHR '']''" by (cases js rule: rev_cases) (simp_all add: write_indices_def)
    moreover have "CHR '']'' \<notin> set space_lasts" by code_simp
    ultimately show ?thesis by simp
  qed (use k in \<open>simp add: path_key_def write_indices_def\<close>)
  then have "TrimSpace ?b = ?b" using k by (intro TrimSpace_id) (auto simp: path_key_def)
  then have b: "path_part (TrimSpace ?b) = Inr (key_step k # map index_step js)" using path_part_key k by simp
  show ?case
    using Cons.IH [OF _ dot b] Cons.prems SplitByte_append [OF Cons.prems(2)] p by simp
qed

lemma write_indices_ends:
  "is \<noteq> [] \<Longrightarrow> write_indices is \<noteq> [] \<and> hd (write_indices is) = CHR ''['' \<and> last (write_indices is) = CHR '']''"
proof -
  assume "is \<noteq> []"
  then have "write_indices is \<noteq> [] \<and> hd (write_indices is) = CHR ''[''" by (cases "is") (simp_all add: write_indices_def)
  moreover have "last (write_indices is) = CHR '']''" using \<open>is \<noteq> []\<close> by (cases "is" rule: rev_cases) (simp_all add: write_indices_def)
  ultimately show ?thesis by simp
qed

lemma write_indices_trim: "TrimSpace (write_indices is) = write_indices is"
proof (cases "is = []")
  case True
  have "TrimSpace [] = []" by code_simp
  then show ?thesis using True by (simp add: write_indices_def)
next
  case False
  have "CHR '']'' \<notin> set space_lasts" "CHR ''['' \<notin> set space_heads" by code_simp+
  then show ?thesis using write_indices_ends [OF False] by (simp add: TrimSpace_id)
qed

lemma write_path_trim:
  assumes "\<forall>(k, js)\<in>set ks. path_key k \<and> path_indices js"
  shows "TrimSpace (write_path is ks) = write_path is ks"
proof (rule TrimSpace_id)
  have digits: "CHR '']'' \<notin> set space_lasts" "CHR ''$'' \<notin> set space_lasts" "CHR ''$'' \<notin> set space_heads" by code_simp+
  show "write_path is ks \<noteq> []" "hd (write_path is ks) \<notin> set space_heads" using digits by (simp_all add: write_path_def)
  have tail: "last (a @ write_indices js) \<notin> set space_lasts" if "last a \<notin> set space_lasts" for a js
    using that digits(1) by (cases js rule: rev_cases) (simp_all add: write_indices_def)
  show "last (write_path is ks) \<notin> set space_lasts"
  proof (cases ks rule: rev_cases)
    case Nil
    then show ?thesis using tail [of "''$''" "is"] digits(2) by (simp add: write_path_def)
  next
    case (snoc ks' p)
    obtain k js where p: "p = (k, js)" by (cases p)
    then have "k \<noteq> []" "last k \<notin> set space_lasts" using assms snoc by (auto simp: path_key_def)
    then show ?thesis
      using tail [of "''$'' @ write_indices is @ concat (map (\<lambda>(k, js). ''.'' @ k @ write_indices js) ks') @ ''.'' @ k" js] snoc p
      by (simp add: write_path_def)
  qed
qed

lemma parseJSONPath_write_path:
  assumes "path_indices is" "\<forall>(k, js)\<in>set ks. path_key k \<and> path_indices js"
  shows "parseJSONPath (write_path is ks) = Inr (path_steps is ks)"
proof -
  define body where "body = concat (map (\<lambda>(k, js). ''.'' @ k @ write_indices js) ks)"
  have trim: "TrimSpace (write_path is ks) = CHR ''$'' # write_indices is @ body"
    using write_path_trim [OF assms(2)] by (simp add: write_path_def body_def)
  have dot: "CHR ''.'' \<notin> set (write_indices is)"
    using assms(1) bracket_not_digit(3) by (auto simp: write_indices_def path_indices_def list_all_iff)
  have idx: "path_part (TrimSpace (write_indices is)) = Inr (map index_step is)"
    using path_part_indices [OF assms(1)] write_indices_trim by simp
  have all: "path_parts (SplitByte (CHR ''.'') (write_indices is @ body)) = Inr (path_steps is ks)"
    using path_parts_keys [OF assms(2) dot idx] by (simp add: body_def path_steps_def)
  show ?thesis
  proof (cases "is = [] \<and> ks \<noteq> []")
    case True
    then obtain r where r: "body = CHR ''.'' # r" by (cases ks) (auto simp: body_def)
    have "TrimSpace [] = []" by code_simp
    then have "path_parts (SplitByte (CHR ''.'') r) = Inr (path_steps is ks)"
      using all True r by (cases "path_parts (SplitByte (CHR ''.'') r)") (simp_all add: write_indices_def path_part.simps)
    moreover have "r \<noteq> []" using r True assms(2) by (cases ks) (auto simp: body_def path_key_def)
    ultimately show ?thesis using True r unfolding parseJSONPath_def trim by (simp add: HasPrefix_def write_indices_def)
  next
    case False
    then show ?thesis
    proof (cases "is")
      case Nil
      then have "body = []" "ks = []" using False by (simp_all add: body_def)
      then show ?thesis using Nil unfolding parseJSONPath_def trim by (simp add: HasPrefix_def write_indices_def path_steps_def)
    next
      case (Cons i js)
      then show ?thesis using all unfolding parseJSONPath_def trim by (simp add: HasPrefix_def write_indices_def)
    qed
  qed
qed

text \<open>What a path means.\<close>

fun json_index :: "json \<Rightarrow> int \<Rightarrow> json option" where
  "json_index (JArray arr) i = (if 0 \<le> i \<and> i < int (length arr) then Some (arr ! nat i) else None)"
| "json_index _ i = None"

fun json_member :: "json \<Rightarrow> string \<Rightarrow> json option" where
  "json_member (JObject m) k = map_of m k"
| "json_member _ k = None"

primrec json_indices :: "int list \<Rightarrow> json \<Rightarrow> json option" where
  "json_indices [] v = Some v"
| "json_indices (i # is) v = Option.bind (json_index v i) (json_indices is)"

primrec json_keys :: "(string \<times> int list) list \<Rightarrow> json \<Rightarrow> json option" where
  "json_keys [] v = Some v"
| "json_keys (p # ks) v = Option.bind (json_member v (fst p)) (\<lambda>w. Option.bind (json_indices (snd p) w) (json_keys ks))"

definition ok_of :: "'e + 'a \<Rightarrow> 'a option" where
  "ok_of r = (case r of Inl _ \<Rightarrow> None | Inr a \<Rightarrow> Some a)"

lemma ok_of_simps [simp]: "ok_of (Inl e) = None" "ok_of (Inr a) = Some a" "ok_of (result_bind r f) = Option.bind (ok_of r) (\<lambda>a. ok_of (f a))"
  by (cases r; simp add: ok_of_def)+

lemma ok_of_Some: "ok_of r = Some a \<longleftrightarrow> r = Inr a"
  by (cases r) simp_all

lemma step_ok:
  "ok_of (result_bind (step_key X (key_step k) v) (step_index (key_step k))) = json_member v k"
  "ok_of (result_bind (step_key X (index_step i) v) (step_index (index_step i))) = json_index v i"
  by (cases v; simp add: step_key_def step_index_def key_step_def index_step_def split: option.splits)+

lemma traverse_Nil [simp]: "traverse X [] v = Inr v"
  by (simp add: traverse_def)

lemma traverse_key: "ok_of (traverse X (key_step k # steps) v) = Option.bind (json_member v k) (\<lambda>w. ok_of (traverse X steps w))"
  using step_ok(1) [of X k v] unfolding traverse_def by simp

lemma traverse_index: "ok_of (traverse X (index_step i # steps) v) = Option.bind (json_index v i) (\<lambda>w. ok_of (traverse X steps w))"
  using step_ok(2) [of X i v] unfolding traverse_def by simp

lemma traverse_indices: "ok_of (traverse X (map index_step is @ steps) v) = Option.bind (json_indices is v) (\<lambda>w. ok_of (traverse X steps w))"
  by (induction "is" arbitrary: v) (simp_all add: traverse_index)

lemma traverse_keys: "ok_of (traverse X (concat (map (\<lambda>(k, js). key_step k # map index_step js) ks)) v) = json_keys ks v"
proof (induction ks arbitrary: v)
  case (Cons p ks)
  show ?case by (cases p) (simp add: traverse_key traverse_indices Cons)
qed simp

text \<open>C33. Extracting by a path of indices and keys from a body that is a JSON document gives exactly the value the path leads to,
  as text, and fails exactly if there is no such value: a missing key, an index out of range, or a value of another kind.\<close>

theorem extractJSON_path:
  assumes "path_indices is" "list_all (\<lambda>(k, js). path_key k \<and> path_indices js) ks"
    and "body \<noteq> ''''" "ext_Unmarshal X body = Inr doc"
  shows "extractJSON X body (write_path is ks) = Inr s \<longleftrightarrow>
    (\<exists>v. Option.bind (json_indices is doc) (json_keys ks) = Some v \<and> jsonValueToString X v = Inr s)"
proof -
  have "parseJSONPath (write_path is ks) = Inr (path_steps is ks)"
    using assms(1,2) by (intro parseJSONPath_write_path) (auto simp: list_all_iff)
  then have "extractJSON X body (write_path is ks) = result_bind (traverse X (path_steps is ks) doc) (jsonValueToString X)"
    using assms(3,4) by (simp add: extractJSON_def lift_error_def)
  moreover have "Option.bind (json_indices is doc) (json_keys ks) = ok_of (traverse X (path_steps is ks) doc)"
    by (simp add: path_steps_def traverse_indices traverse_keys)
  ultimately show ?thesis by (simp add: ok_of_Some result_bind_Inr)
qed

definition sample_ext :: ext_api where
  "sample_ext = \<lparr>ext_Unmarshal = (\<lambda>_. Inr (JObject [(''items'', JArray [JNull, JObject [(''id'', JNumber (F_Fin 42))]])])),
     ext_Marshal = (\<lambda>_. Inr ''{}''), ext_FormatFloat = (\<lambda>_. ''''), ext_Quote = (\<lambda>s. s), ext_Cookies = (\<lambda>_. []),
     ext_JarCookies = (\<lambda>_ _. []), ext_Regexp = (\<lambda>_. Inr (\<lambda>_. [])),
     ext_Parse = (\<lambda>_. Inr origin_url), ext_oob = (\<lambda>_. 0)\<rparr>"

lemma sample_keys: "list_all (\<lambda>(k, js). path_key k \<and> path_indices js) [(''items'', [1]), (''id'', [])]"
  by code_simp

lemma sample_path: "write_path [] [(''items'', [1]), (''id'', [])] = ''$.items[1].id''"
  by code_simp

theorem extractJSON_path_witness:
  "extractJSON sample_ext ''{..}'' ''$.items[1].id'' = Inr ''42''"
proof -
  have "Itoa (f_to_int64 (\<lambda>_. 0) (F_Fin 42)) = ''42''" by code_simp
  moreover have "path_indices []" by (simp add: path_indices_def)
  ultimately show ?thesis
    using extractJSON_path [of "[]" "[(''items'', [1]), (''id'', [])]" "''{..}''" sample_ext _ "''42''"] sample_keys
    by (simp add: sample_path sample_ext_def jsonValueToString_def)
qed

section \<open>Properties of the extraction\<close>

lemma ExtractValue_variables [simp]:
  "ExtractValue X resp body rule (state\<lparr>vs_Variables := m\<rparr>) = ExtractValue X resp body rule state"
  by (simp add: ExtractValue_def extractCookie_def)

definition extracted :: "ext_api \<Rightarrow> http_Response \<Rightarrow> string \<Rightarrow> (string \<times> ExtractionRule) list \<Rightarrow> VUState \<Rightarrow> string \<Rightarrow> string option" where
  "extracted X resp body rules state v = Option.bind (map_of rules v) (\<lambda>rule. ok_of (ExtractValue X resp body rule state))"

text \<open>The loop sets the variables before the first one that fails, and no other.\<close>

lemma extract_loop_spec:
  assumes "distinct keys" "set keys \<subseteq> dom (map_of rules)"
  shows "\<exists>n \<le> length keys. fst (extract_loop X resp body rules keys state) =
        state\<lparr>vs_Variables := vs_Variables (fst (extract_loop X resp body rules keys state))\<rparr>
    \<and> list_all (\<lambda>v. extracted X resp body rules state v \<noteq> None) (take n keys)
    \<and> map_of (vs_Variables (fst (extract_loop X resp body rules keys state))) =
        (\<lambda>v. if v \<in> set (take n keys) then extracted X resp body rules state v else map_of (vs_Variables state) v)
    \<and> (snd (extract_loop X resp body rules keys state) = None \<longleftrightarrow> n = length keys)
    \<and> (n < length keys \<longrightarrow> extracted X resp body rules state (keys ! n) = None)"
  using assms
proof (induction keys arbitrary: state)
  case (Cons k keys)
  obtain rule where rule: "map_of rules k = Some rule" using Cons.prems(2) by auto
  show ?case
  proof (cases "ExtractValue X resp body rule state")
    case (Inl err)
    then show ?thesis using rule by (intro exI [of _ 0]) (simp add: extracted_def Let_def)
  next
    case (Inr val)
    let ?s = "state\<lparr>vs_Variables := gm_put k val (vs_Variables state)\<rparr>"
    have val: "extracted X resp body rules state k = Some val" using rule Inr by (simp add: extracted_def)
    have same: "extracted X resp body rules ?s = extracted X resp body rules state" by (rule ext) (simp add: extracted_def)
    have loop: "extract_loop X resp body rules (k # keys) state = extract_loop X resp body rules keys ?s"
      using rule Inr by (simp add: Let_def)
    obtain n where n: "n \<le> length keys" "fst (extract_loop X resp body rules keys ?s) =
        ?s\<lparr>vs_Variables := vs_Variables (fst (extract_loop X resp body rules keys ?s))\<rparr>"
      "list_all (\<lambda>v. extracted X resp body rules state v \<noteq> None) (take n keys)"
      "map_of (vs_Variables (fst (extract_loop X resp body rules keys ?s))) =
        (\<lambda>v. if v \<in> set (take n keys) then extracted X resp body rules state v else map_of (vs_Variables ?s) v)"
      "snd (extract_loop X resp body rules keys ?s) = None \<longleftrightarrow> n = length keys"
      "n < length keys \<longrightarrow> extracted X resp body rules state (keys ! n) = None"
      using Cons.IH [of ?s] Cons.prems unfolding same by auto
    have "k \<notin> set (take n keys)" using Cons.prems(1) by (auto dest: in_set_takeD)
    then have "map_of (vs_Variables (fst (extract_loop X resp body rules (k # keys) state))) =
        (\<lambda>v. if v \<in> set (take (Suc n) (k # keys)) then extracted X resp body rules state v else map_of (vs_Variables state) v)"
      unfolding loop n(4) using val by (auto simp: fun_eq_iff)
    moreover have "fst (extract_loop X resp body rules (k # keys) state) =
        state\<lparr>vs_Variables := vs_Variables (fst (extract_loop X resp body rules (k # keys) state))\<rparr>"
      unfolding loop by (subst n(2)) simp
    ultimately show ?thesis unfolding loop
      using n val by (intro exI [of _ "Suc n"]) auto
  qed
qed simp

lemma extract_all_lemma:
  assumes "distinct (map fst rules)" "ExtractAll X resp body rules state = (state', err)" "keys = sort (map fst rules)"
  shows "\<exists>n \<le> length rules. state' = state\<lparr>vs_Variables := vs_Variables state'\<rparr>
    \<and> map_of (vs_Variables state') =
        (\<lambda>v. if v \<in> set (take n keys) then extracted X resp body rules state v else map_of (vs_Variables state) v)
    \<and> list_all (\<lambda>v. extracted X resp body rules state v \<noteq> None) (take n keys)
    \<and> (err = None \<longleftrightarrow> n = length rules)
    \<and> (n < length rules \<longrightarrow> extracted X resp body rules state (keys ! n) = None)"
proof -
  have keys: "distinct keys" "set keys \<subseteq> dom (map_of rules)" "length keys = length rules"
    using assms(1) by (auto simp: assms(3) dom_map_of_conv_image_fst)
  have "extract_loop X resp body rules keys state = (state', err)" using assms(2,3) by (simp add: ExtractAll_def)
  with extract_loop_spec [OF keys(1,2), of X resp body state] show ?thesis unfolding keys(3) by auto
qed

text \<open>Extracting the variables of a step either succeeds for every rule, and then each of them has the extracted value, or
  stops at the first failing rule in the order of the names: the variables before it are set, the others are not. Nothing
  else in the state of the virtual user changes.\<close>

lemma ExtractAll_spec:
  assumes "distinct (map fst rules)" "ExtractAll X resp body rules state = (state', err)" "keys = sort (map fst rules)"
  shows "\<exists>n \<le> length rules. state' = state\<lparr>vs_Variables := vs_Variables state'\<rparr>
    \<and> map_of (vs_Variables state') =
        (\<lambda>v. if v \<in> set (take n keys) then extracted X resp body rules state v else map_of (vs_Variables state) v)
    \<and> list_all (\<lambda>v. extracted X resp body rules state v \<noteq> None) (take n keys)
    \<and> (err = None \<longleftrightarrow> n = length rules)
    \<and> (n < length rules \<longrightarrow> extracted X resp body rules state (keys ! n) = None)"
  using assms by (rule extract_all_lemma)

definition sample_rules :: "(string \<times> ExtractionRule) list" where
  "sample_rules = [(''token'', \<lparr>xr_From = ''header'', xr_Expression = ''X-Token''\<rparr>), (''etag'', \<lparr>xr_From = ''header'', xr_Expression = ''Etag''\<rparr>)]"

definition sample_response :: http_Response where
  "sample_response = \<lparr>rs_StatusCode = 200, rs_Proto = ''HTTP/1.1'', rs_Header = [(''Etag'', [''abc''])], rs_Body = \<lparr>hb_data = ''{..}'', hb_err = None\<rparr>\<rparr>"

lemma ExtractAll_spec_witness:
  "\<exists>state' err. ExtractAll sample_ext sample_response ''{..}'' sample_rules (NewVUState 0 None []) = (state', err)
     \<and> err \<noteq> None \<and> map_of (vs_Variables state') ''etag'' = Some ''abc'' \<and> map_of (vs_Variables state') ''token'' = None"
proof -
  let ?s = "NewVUState 0 None []"
  obtain state' err where r: "ExtractAll sample_ext sample_response ''{..}'' sample_rules ?s = (state', err)" by fastforce
  have d: "distinct (map fst sample_rules)" by code_simp
  have k: "sort (map fst sample_rules) = [''etag'', ''token'']" by code_simp
  have e: "extracted sample_ext sample_response ''{..}'' sample_rules ?s ''etag'' = Some ''abc''"
    "extracted sample_ext sample_response ''{..}'' sample_rules ?s ''token'' = None" by code_simp+
  have l: "length sample_rules = 2" "vs_Variables ?s = []" by (simp_all add: sample_rules_def NewVUState_def)
  obtain n where n: "n \<le> 2" "map_of (vs_Variables state') =
      (\<lambda>v. if v \<in> set (take n [''etag'', ''token'']) then extracted sample_ext sample_response ''{..}'' sample_rules ?s v else map_of [] v)"
    "list_all (\<lambda>v. extracted sample_ext sample_response ''{..}'' sample_rules ?s v \<noteq> None) (take n [''etag'', ''token''])"
    "err = None \<longleftrightarrow> n = 2" "n < 2 \<longrightarrow> extracted sample_ext sample_response ''{..}'' sample_rules ?s ([''etag'', ''token''] ! n) = None"
    using ExtractAll_spec [OF d r k [symmetric]] unfolding l by blast
  have "n = 0 \<or> n = 1 \<or> n = 2" using n(1) by linarith
  then have "n = 1" using n(3,5) e by (auto simp: numeral_2_eq_2)
  then show ?thesis using r n(2,4) e by simp
qed

text \<open>An extraction source that is written in capital letters or with blanks passes the validation of the configuration, but
  no response ever satisfies it: the plan keeps it as written, and the extraction compares it literally.\<close>

lemma unnormalised_source_never_extracts:
  assumes "xr_From rule \<notin> set extract_sources"
  shows "ExtractValue X resp body rule state = Inl (errorf (''unsupported extraction source '' @ ext_Quote X (xr_From rule)))
    \<and> check_extract regex_ok (''id'', \<lparr>er_From = '' JSON'', er_Expression = ''$.id''\<rparr>) = None \<and> '' JSON'' \<notin> set extract_sources"
proof -
  have "ToLower (TrimSpace '' JSON'') = ''json''" "TrimSpace ''$.id'' = ''$.id''" "TrimSpace ''id'' = ''id''" by code_simp+
  then show ?thesis using assms by (simp add: ExtractValue_def extract_sources_def check_extract_def Let_def)
qed

theorem unnormalised_source_never_extracts_witness:
  "\<not> isl (ExtractValue sample_ext sample_response ''{..}'' \<lparr>xr_From = ''header'', xr_Expression = ''Etag''\<rparr> (NewVUState 0 None []))
   \<and> isl (ExtractValue sample_ext sample_response ''{..}'' \<lparr>xr_From = ''Header'', xr_Expression = ''Etag''\<rparr> (NewVUState 0 None []))"
proof
  show "isl (ExtractValue sample_ext sample_response ''{..}'' \<lparr>xr_From = ''Header'', xr_Expression = ''Etag''\<rparr> (NewVUState 0 None []))"
    using unnormalised_source_never_extracts [of "\<lparr>xr_From = ''Header'', xr_Expression = ''Etag''\<rparr>"] by (simp add: extract_sources_def)
  have "ExtractValue sample_ext sample_response ''{..}'' \<lparr>xr_From = ''header'', xr_Expression = ''Etag''\<rparr> (NewVUState 0 None []) = Inr ''abc''"
    by code_simp
  then show "\<not> isl (ExtractValue sample_ext sample_response ''{..}'' \<lparr>xr_From = ''header'', xr_Expression = ''Etag''\<rparr> (NewVUState 0 None []))"
    by simp
qed

text \<open>A JSON number is read as a 64-bit float: an identifier beyond \<open>2 ^ 53\<close> is silently changed.\<close>

lemma large_identifier_changed:
  "jsonValueToString sample_ext (JNumber (f_of_int 9007199254740993)) = Inr ''9007199254740992''"
  by code_simp

end
