(* ===== verification/Scenario_Executor.thy ===== *)
theory Scenario_Executor
  imports Scenario_Extract
begin

text \<open>
  Scenarios: \<^verbatim>\<open>internal/scenario/executor.go\<close>. One step of a scenario is a request whose URL, headers and body are
  templates over the variables of the virtual user; its response can set variables for the steps behind it. An iteration
  runs the steps in order and decides after each failure whether to go on.

  The network and the context may behave differently at each step, so a step has a record \<open>step_env\<close> of its own: the
  client, the readings of the clock, whether the context is done before the step, when the client has failed, and during
  the think time behind the step.
\<close>

section \<open>Targets and redirects\<close>

definition absolute_http :: "parsed_url \<Rightarrow> bool" where
  "absolute_http u \<longleftrightarrow> (pu_Scheme u = ''http'' \<or> pu_Scheme u = ''https'') \<and> pu_Host u \<noteq> ''''"

definition validateScenarioTarget :: "parsed_url option \<Rightarrow> string list \<Rightarrow> goerr option" where
  "validateScenarioTarget target allowedHosts = (case target of
       None \<Rightarrow> Some (errorf ''scenario step target must be an absolute HTTP/HTTPS URL'')
     | Some u \<Rightarrow>
         if \<not> absolute_http u then Some (errorf ''scenario step target must be an absolute HTTP/HTTPS URL'')
         else if \<not> IsHostAllowed (pu_Hostname u) allowedHosts
         then Some (WrapError ''target host is not allowlisted: scenario step target host is not allowlisted'' [errorf ''target host is not allowlisted''])
         else None)"

definition scenarioRedirectChecker :: "string \<Rightarrow> string list \<Rightarrow> parsed_url \<Rightarrow> parsed_url list \<Rightarrow> redirect_error option" where
  "scenarioRedirectChecker redirectPolicy allowedHosts url via =
     (if via = [] then Some RedirectWithoutOrigin
      else if length via \<ge> MaxRedirectHops then Some TooManyRedirects
      else if redirectPolicy = RedirectPolicyNone then Some ErrUseLastResponse
      else if redirectPolicy = RedirectPolicySameOrigin
              \<and> (pu_Scheme url \<noteq> pu_Scheme (via ! 0) \<or> pu_Host url \<noteq> pu_Host (via ! 0)) then Some ErrCrossOriginRedirectBlocked
      else if redirectPolicy \<noteq> RedirectPolicySameOrigin \<and> redirectPolicy \<noteq> RedirectPolicyAll then Some ErrUseLastResponse
      else case validateScenarioTarget (Some url) allowedHosts of
        Some _ \<Rightarrow> Some (if absolute_http url then RedirectHostNotAllowed (pu_Hostname url) else RedirectNotAbsolute)
      | None \<Rightarrow> None)"

section \<open>One step\<close>

record ScenarioExecutor =
  se_scenario :: "CompiledScenario option"
  se_allowedHosts :: "string list"
  se_knownSecrets :: "string list"

definition NewScenarioExecutor :: "CompiledScenario option \<Rightarrow> string list \<Rightarrow> string list \<Rightarrow> ScenarioExecutor" where
  "NewScenarioExecutor scenario allowedHosts knownSecrets =
     \<lparr>se_scenario = scenario, se_allowedHosts = allowedHosts, se_knownSecrets = knownSecrets\<rparr>"

record step_env =
  env_net :: net_api
  env_ext :: ext_api
  env_t1 :: Time
  env_t2 :: Time
  env_t3 :: Time
  env_t4 :: Time
  env_ctx_before :: "goerr option"
  env_canceled :: bool
  env_ctx_thinking :: "goerr option"

definition unresolved :: "ext_api \<Rightarrow> string \<Rightarrow> goerr" where
  "unresolved X varName = errorf (''unresolved variable '' @ ext_Quote X varName)"

definition step_failed :: "CompiledStep \<Rightarrow> exec_Result \<Rightarrow> StepResult" where
  "step_failed step res = \<lparr>sr_StepName = cs_Name step, sr_StepIndex = 0, sr_Result = Some res, sr_ExtractErr = r_Err res,
     Succeeded = False, AbortedVU = False\<rparr>"

definition step_build_failure :: "step_env \<Rightarrow> CompiledStep \<Rightarrow> goerr option \<Rightarrow> StepResult" where
  "step_build_failure V step err = step_failed step (build_failure err (env_t1 V) (env_t2 V) (env_t3 V))"

text \<open>The parts of a request before it is built, in the order of the checks: the URL, the target, the body.\<close>

definition step_target :: "ext_api \<Rightarrow> ScenarioExecutor \<Rightarrow> (goerr option \<Rightarrow> goerr option) \<Rightarrow> VUState \<Rightarrow> CompiledStep \<Rightarrow> goerr option + parsed_url" where
  "step_target X e redact state step = (case SubstituteVariables (cs_URL step) (map_of (vs_Variables state)) of
       Inl varName \<Rightarrow> Inl (Some (unresolved X varName))
     | Inr subURL \<Rightarrow> (case ext_Parse X subURL of
           Inl parseErr \<Rightarrow> Inl (Some parseErr)
         | Inr parsedURL \<Rightarrow> (case validateScenarioTarget (Some parsedURL) (se_allowedHosts e) of
               Some targetErr \<Rightarrow> Inl (redact (Some targetErr))
             | None \<Rightarrow> Inr parsedURL)))"

definition step_body :: "ext_api \<Rightarrow> VUState \<Rightarrow> CompiledStep \<Rightarrow> goerr option + string" where
  "step_body X state step = (if cs_Body step = '''' then Inr '''' else
     case SubstituteVariables (cs_Body step) (map_of (vs_Variables state)) of
       Inl varName \<Rightarrow> Inl (Some (unresolved X varName)) | Inr subBody \<Rightarrow> Inr subBody)"

text \<open>A header template that cannot be substituted is sent as it is.\<close>

definition step_header_value :: "VUState \<Rightarrow> string \<Rightarrow> string" where
  "step_header_value state val = (case SubstituteVariables val (map_of (vs_Variables state)) of Inl _ \<Rightarrow> val | Inr sub \<Rightarrow> sub)"

definition step_headers :: "VUState \<Rightarrow> http_Header \<Rightarrow> http_Header" where
  "step_headers state headers = map (\<lambda>(k, vals). (k, map (step_header_value state) vals)) headers"

definition step_request :: "net_api \<Rightarrow> VUState \<Rightarrow> CompiledStep \<Rightarrow> parsed_url \<Rightarrow> http_Request" where
  "step_request N state step url =
     (let req = new_request (net_RequestURI N) (cs_Method step) url;
          req = req\<lparr>hr_Header := add_headers (step_headers state (cs_Headers step)) (hr_Header req)\<rparr>
      in override_host (header_Get (hr_Header req) ''Host'') req)"

definition step_prepare :: "net_api \<Rightarrow> ext_api \<Rightarrow> ScenarioExecutor \<Rightarrow> (goerr option \<Rightarrow> goerr option) \<Rightarrow> VUState \<Rightarrow> CompiledStep
    \<Rightarrow> goerr option + http_Request \<times> string" where
  "step_prepare N X e redact state step =
     result_bind (step_target X e redact state step) (\<lambda>url.
     result_bind (step_body X state step) (\<lambda>body.
     case net_NewRequest N (cs_Method step) url of
       Some err \<Rightarrow> Inl (Some err)
     | None \<Rightarrow> Inr (step_request N state step url, body)))"

text \<open>The response of a step, and what its rules extract from it.\<close>

definition step_response :: "step_env \<Rightarrow> CompiledStep \<Rightarrow> (goerr option \<Rightarrow> goerr option) \<Rightarrow> int \<Rightarrow> http_Response \<Rightarrow> VUState \<Rightarrow> VUState \<times> StepResult" where
  "step_response V step redact bytesSent resp state =
     (let N = env_net V; X = env_ext V in
      case ReadAndDrainResponseBody (Some (rs_Body resp)) (cs_ResponseBodyLimit step) of (respBody, bytesRecv, truncated, bodyErr) \<Rightarrow>
        let res = response_result resp (cs_ExpectedStatuses step) (redact bodyErr) bytesSent bytesRecv truncated
              (ExtractRateLimitInfo (net_oob N) (net_ParseTime N) (net_FormatTime N) (Some (rs_Header resp)))
              (env_t1 V) (env_t2 V) (env_t3 V) (env_t4 V);
            sr = \<lparr>sr_StepName = cs_Name step, sr_StepIndex = 0, sr_Result = Some res, sr_ExtractErr = None,
                  Succeeded = IsSuccess (r_Outcome res), AbortedVU = False\<rparr>
        in if IsSuccess (r_Outcome res) \<and> cs_ExtractRules step \<noteq> [] then
             (case ExtractAll X resp respBody (cs_ExtractRules step) state of
                (state, None) \<Rightarrow> (state, sr)
              | (state, Some err) \<Rightarrow>
                  (state, sr\<lparr>sr_Result := Some (res\<lparr>r_Outcome := OutcomeUnexpectedStatus, r_Err := Some err\<rparr>),
                             sr_ExtractErr := Some err, Succeeded := False\<rparr>))
           else (state, sr))"

definition ExecuteStep :: "step_env \<Rightarrow> ScenarioExecutor \<Rightarrow> VUState \<Rightarrow> CompiledStep \<Rightarrow> VUState \<times> StepResult" where
  "ExecuteStep V e state step =
     (let N = env_net V; X = env_ext V; redact = net_redact N (se_knownSecrets e) in
      case step_prepare N X e redact state step of
        Inl err \<Rightarrow> (state, step_build_failure V step err)
      | Inr (req, body) \<Rightarrow>
          let bytesSent = int (length (cs_Method step) + length (hr_URI req) + 11 + length body) in
          case net_Do N (vs_CookieJar state) (scenarioRedirectChecker (cs_RedirectPolicy step) (se_allowedHosts e)) req body of
            Inl doErr \<Rightarrow> (state, step_failed step (transport_failure (redact (Some doErr)) (env_canceled V) bytesSent
                              (env_t1 V) (env_t2 V) (env_t3 V) (env_t4 V)))
          | Inr resp \<Rightarrow> step_response V step redact bytesSent resp state)"

section \<open>One iteration\<close>

datatype iteration_error = ContextDone goerr | ErrAbortVU

text \<open>The steps from number \<open>k\<close> on. What is returned: the state, the step results in the order in which they were reported to
  the callback, whether the iteration succeeded, and the error. The mark \<^verbatim>\<open>AbortedVU\<close> is set after the callback.\<close>

fun iterate_steps :: "(nat \<Rightarrow> step_env) \<Rightarrow> ScenarioExecutor \<Rightarrow> nat \<Rightarrow> bool \<Rightarrow> CompiledStep list \<Rightarrow> VUState
    \<Rightarrow> VUState \<times> StepResult list \<times> bool \<times> iteration_error option" where
  "iterate_steps V e k iterationSuccess [] state = (state, [], iterationSuccess, None)"
| "iterate_steps V e k iterationSuccess (step # steps) state = (case env_ctx_before (V k) of
       Some err \<Rightarrow> (state, [], False, Some (ContextDone err))
     | None \<Rightarrow> (case ExecuteStep (V k) e state step of (state, stepRes) \<Rightarrow>
         let stepRes = stepRes\<lparr>sr_StepIndex := int k\<rparr> in
         if \<not> Succeeded stepRes \<and> cs_OnFailure step = OnFailureStop then (state, [stepRes], False, None)
         else if \<not> Succeeded stepRes \<and> cs_OnFailure step = OnFailureAbortVU then (state, [stepRes], False, Some ErrAbortVU)
         else (case (if Succeeded stepRes \<and> cs_ThinkTime step > 0 \<and> steps \<noteq> [] then env_ctx_thinking (V k) else None) of
             Some err \<Rightarrow> (state, [stepRes], False, Some (ContextDone err))
           | None \<Rightarrow> (case iterate_steps V e (k + 1) (iterationSuccess \<and> Succeeded stepRes) steps state of
                 (state, results, success, err) \<Rightarrow> (state, stepRes # results, success, err)))))"

definition ExecuteIteration :: "(nat \<Rightarrow> step_env) \<Rightarrow> ScenarioExecutor \<Rightarrow> VUState \<Rightarrow> VUState \<times> StepResult list \<times> bool \<times> iteration_error option" where
  "ExecuteIteration V e state = (case se_scenario e of
       None \<Rightarrow> (state, [], True, None)
     | Some sc \<Rightarrow> if sn_Steps sc = [] then (state, [], True, None) else iterate_steps V e 0 True (sn_Steps sc) (ResetIteration state))"

section \<open>Properties\<close>

subsection \<open>Where a step sends its requests\<close>

interpretation scenario_redirects: redirect_guard "scenarioRedirectChecker policy allowedHosts"
  "\<lambda>u. validateScenarioTarget (Some u) allowedHosts = None" MaxRedirectHops for policy allowedHosts
  by unfold_locales (auto simp: scenarioRedirectChecker_def split: if_splits option.splits)

definition authorised_target :: "ext_api \<Rightarrow> ScenarioExecutor \<Rightarrow> VUState \<Rightarrow> CompiledStep \<Rightarrow> parsed_url \<Rightarrow> bool" where
  "authorised_target X e state step url \<longleftrightarrow>
     Option.bind (ok_of (SubstituteVariables (cs_URL step) (map_of (vs_Variables state)))) (\<lambda>s. ok_of (ext_Parse X s)) = Some url
     \<and> absolute_http url \<and> IsHostAllowed (pu_Hostname url) (se_allowedHosts e)"

lemma valid_target: "validateScenarioTarget (Some u) hosts = None \<longleftrightarrow> absolute_http u \<and> IsHostAllowed (pu_Hostname u) hosts"
  by (simp add: validateScenarioTarget_def)

lemma step_target_Inr: "step_target X e redact state step = Inr url \<longleftrightarrow> authorised_target X e state step url"
  by (auto simp: step_target_def authorised_target_def valid_target [symmetric] split: sum.splits option.splits)

lemma step_prepare_Inr:
  assumes "step_prepare N X e redact state step = Inr (req, body)"
  obtains url where "authorised_target X e state step url" "net_NewRequest N (cs_Method step) url = None" "req = step_request N state step url"
  using assms by (auto simp: step_prepare_def result_bind_Inr step_target_Inr split: option.splits)


definition sample_env :: step_env where
  "sample_env = \<lparr>env_net = sample_net\<lparr>net_Do := (\<lambda>_ _ _ _. Inr sample_response)\<rparr>, env_ext = sample_ext, env_t1 = 10, env_t2 = 11, env_t3 = 12,
     env_t4 = 13, env_ctx_before = None, env_canceled = False, env_ctx_thinking = None\<rparr>"

definition sample_step :: CompiledStep where
  "sample_step = \<lparr>cs_Name = ''login'', cs_URL = ''http://localhost:8080/${path}'', cs_Method = ''GET'', cs_Headers = [], cs_Body = '''',
     cs_ExpectedStatuses = [200], cs_Timeout = 0, cs_ResponseBodyLimit = 1024, cs_RedirectPolicy = RedirectPolicyNone, cs_ThinkTime = 0,
     cs_ExtractRules = [(''etag'', \<lparr>xr_From = ''header'', xr_Expression = ''Etag''\<rparr>)], cs_OnFailure = OnFailureAbortVU\<rparr>"

definition sample_scenario :: ScenarioExecutor where
  "sample_scenario = NewScenarioExecutor (Some \<lparr>sn_Name = ''demo'', sn_Steps = [sample_step]\<rparr>) [''localhost''] []"

text \<open>A step whose variable has no value: the client, whatever it is, is not called.\<close>

lemma sample_unresolved: "\<not> authorised_target sample_ext sample_scenario (NewVUState 0 None []) sample_step url"
proof -
  have "SubstituteVariables (cs_URL sample_step) (map_of (vs_Variables (NewVUState 0 None []))) = Inl ''path''" by code_simp
  then show ?thesis by (simp add: authorised_target_def)
qed


subsection \<open>What a step does to the state of the virtual user\<close>

lemma ExecuteStep_cases:
  obtains (failed) res where "ExecuteStep V e state step = (state, step_failed step res)" "r_Err res \<noteq> None"
      "\<not> IsHTTPResponse (r_Outcome res)" "r_Outcome res \<noteq> OutcomeDropped"
  | (response) sent resp where
      "ExecuteStep V e state step = step_response V step (net_redact (env_net V) (se_knownSecrets e)) sent resp state"
proof -
  let ?redact = "net_redact (env_net V) (se_knownSecrets e)"
  show thesis
  proof (cases "step_prepare (env_net V) (env_ext V) e ?redact state step")
    case (Inl err)
    have "err \<noteq> None"
      using Inl by (auto simp: step_prepare_def step_target_def step_body_def result_bind_def dest!: sym [of "Some _"] split: sum.splits option.splits if_splits)
    then show thesis using Inl failed_outcome(1)
      by (intro failed [of "build_failure err (env_t1 V) (env_t2 V) (env_t3 V)"])
        (simp_all add: ExecuteStep_def Let_def step_build_failure_def failure_outcome, simp add: build_failure_def)
  next
    case (Inr p)
    obtain req body where p: "p = (req, body)" by (cases p)
    let ?sent = "int (length (cs_Method step) + length (hr_URI req) + 11 + length body)"
    show thesis
    proof (cases "net_Do (env_net V) (vs_CookieJar state) (scenarioRedirectChecker (cs_RedirectPolicy step) (se_allowedHosts e)) req body")
      case do: (Inl err)
      obtain e' where e': "?redact (Some err) = Some e'" by (rule net_redact_Some)
      have "classifyError (Some e') \<noteq> OutcomeDropped" by (simp add: classifyError_def classifyCause_def Let_def)
      then show thesis using Inr p do e' failed_outcome(2)
        by (intro failed [of "transport_failure (Some e') (env_canceled V) ?sent (env_t1 V) (env_t2 V) (env_t3 V) (env_t4 V)"])
          (simp_all add: ExecuteStep_def Let_def failure_outcome, simp add: transport_failure_def)
    next
      case (Inr resp)
      then show thesis using \<open>step_prepare _ _ _ _ _ _ = Inr p\<close> p by (intro response) (simp add: ExecuteStep_def Let_def)
    qed
  qed
qed

definition rule_names :: "CompiledStep \<Rightarrow> string set" where
  "rule_names step = fst ` set (cs_ExtractRules step)"

text \<open>What a step may change, and when it counts as succeeded.\<close>

definition step_sound :: "CompiledStep \<Rightarrow> VUState \<Rightarrow> VUState \<Rightarrow> StepResult \<Rightarrow> bool" where
  "step_sound step state state' sr \<longleftrightarrow>
     state' = state\<lparr>vs_Variables := vs_Variables state'\<rparr>
     \<and> (\<forall>v. v \<in> rule_names step \<or> map_of (vs_Variables state') v = map_of (vs_Variables state) v)
     \<and> sr_StepName sr = cs_Name step \<and> \<not> AbortedVU sr
     \<and> (\<exists>res. sr_Result sr = Some res \<and> (Succeeded sr \<longleftrightarrow> r_Outcome res = OutcomeSuccess) \<and> r_Outcome res \<noteq> OutcomeDropped
          \<and> (r_Err res = None \<longrightarrow> IsHTTPResponse (r_Outcome res)) \<and> (Succeeded sr \<longrightarrow> r_Err res = None \<and> sr_ExtractErr sr = None))
     \<and> (Succeeded sr \<longrightarrow> (\<forall>v \<in> rule_names step. map_of (vs_Variables state') v \<noteq> None))"

lemma step_response_sound:
  assumes "step_response V step (net_redact N secrets) sent resp state = (state', sr)" "distinct (map fst (cs_ExtractRules step))"
  shows "step_sound step state state' sr"
proof -
  obtain respBody bytesRecv truncated bodyErr where body:
    "ReadAndDrainResponseBody (Some (rs_Body resp)) (cs_ResponseBodyLimit step) = (respBody, bytesRecv, truncated, bodyErr)"
    by (metis surj_pair)
  define res where "res = response_result resp (cs_ExpectedStatuses step) (net_redact N secrets bodyErr) sent bytesRecv truncated
      (ExtractRateLimitInfo (net_oob (env_net V)) (net_ParseTime (env_net V)) (net_FormatTime (env_net V)) (Some (rs_Header resp)))
      (env_t1 V) (env_t2 V) (env_t3 V) (env_t4 V)"
  have res: "r_Outcome res \<noteq> OutcomeDropped" "r_Err res = None \<Longrightarrow> IsHTTPResponse (r_Outcome res)"
    "r_Outcome res = OutcomeSuccess \<Longrightarrow> r_Err res = None"
    unfolding res_def by (auto simp: response_outcome IsHTTPResponse_def split: if_splits) (auto simp: response_result_def)
  define sr0 where "sr0 = \<lparr>sr_StepName = cs_Name step, sr_StepIndex = 0, sr_Result = Some res, sr_ExtractErr = None,
      Succeeded = IsSuccess (r_Outcome res), AbortedVU = False\<rparr>"
  show ?thesis
  proof (cases "IsSuccess (r_Outcome res) \<and> cs_ExtractRules step \<noteq> []")
    case False
    then have r: "state' = state" "sr = sr0"
      using assms(1) by (auto simp: step_response_def body Let_def res_def [symmetric] sr0_def)
    then show ?thesis using res False by (auto simp: step_sound_def rule_names_def sr0_def IsSuccess_def)
  next
    case True
    obtain err where ex: "ExtractAll (env_ext V) resp respBody (cs_ExtractRules step) state = (state', err)"
      and sr: "sr = (case err of None \<Rightarrow> sr0 | Some x \<Rightarrow> sr0\<lparr>sr_Result := Some (res\<lparr>r_Outcome := OutcomeUnexpectedStatus, r_Err := Some x\<rparr>),
        sr_ExtractErr := Some x, Succeeded := False\<rparr>)"
      using assms(1) True by (auto simp: step_response_def body Let_def res_def [symmetric] sr0_def split: prod.splits option.splits)
    obtain n where n: "state' = state\<lparr>vs_Variables := vs_Variables state'\<rparr>"
      "map_of (vs_Variables state') = (\<lambda>v. if v \<in> set (take n (sort (map fst (cs_ExtractRules step))))
         then extracted (env_ext V) resp respBody (cs_ExtractRules step) state v else map_of (vs_Variables state) v)"
      "list_all (\<lambda>v. extracted (env_ext V) resp respBody (cs_ExtractRules step) state v \<noteq> None) (take n (sort (map fst (cs_ExtractRules step))))"
      "err = None \<longleftrightarrow> n = length (cs_ExtractRules step)"
      using extract_all_lemma [OF assms(2) ex refl] by blast
    have keys: "set (take n (sort (map fst (cs_ExtractRules step)))) \<subseteq> rule_names step"
      unfolding rule_names_def using set_take_subset by fastforce
    have frame: "v \<in> rule_names step \<or> map_of (vs_Variables state') v = map_of (vs_Variables state) v" for v
      using keys n(2) by auto
    show ?thesis
    proof (cases err)
      case None
      then have "set (take n (sort (map fst (cs_ExtractRules step)))) = rule_names step"
        using n(4) by (simp add: rule_names_def)
      then have "\<forall>v \<in> rule_names step. map_of (vs_Variables state') v \<noteq> None"
        using n(2,3) by (simp add: list_all_iff)
      then show ?thesis using n(1) frame None sr res True by (auto simp: step_sound_def sr0_def IsSuccess_def)
    next
      case (Some x)
      then show ?thesis using n(1) frame sr by (auto simp: step_sound_def sr0_def)
    qed
  qed
qed

text \<open>C31. A step of a scenario changes nothing of its virtual user but the variables its rules name. It always has a result, never
  a dropped one, and it succeeded exactly if the outcome is a success; then there is no error and every variable its rules
  name has a value. A result without an error is a response.\<close>

theorem ExecuteStep_sound:
  assumes "distinct (map fst (cs_ExtractRules step))"
  shows "step_sound step state (fst (ExecuteStep V e state step)) (snd (ExecuteStep V e state step))"
proof (rule ExecuteStep_cases [of V e state step], goal_cases)
  case (1 res)
  then show ?thesis by (auto simp: step_sound_def step_failed_def IsHTTPResponse_def)
next
  case (2 sent resp)
  then show ?thesis using step_response_sound [OF _ assms] by (metis prod.collapse)
qed

subsection \<open>Iterations\<close>

text \<open>What one run over a list of steps reports, beginning with step number \<open>k\<close>: the first \<open>n\<close> of them, in order; all but the last
  reported step succeeded or may be continued after.\<close>

definition may_go_on :: "CompiledStep \<Rightarrow> StepResult \<Rightarrow> bool" where
  "may_go_on step r \<longleftrightarrow> Succeeded r \<or> cs_OnFailure step \<noteq> OnFailureStop \<and> cs_OnFailure step \<noteq> OnFailureAbortVU"

definition iteration_sound :: "nat \<Rightarrow> bool \<Rightarrow> CompiledStep list \<Rightarrow> StepResult list \<Rightarrow> bool \<Rightarrow> iteration_error option \<Rightarrow> bool" where
  "iteration_sound k before steps results success err \<longleftrightarrow>
     length results \<le> length steps
     \<and> map sr_StepName results = map cs_Name (take (length results) steps)
     \<and> map sr_StepIndex results = map int [k ..< k + length results]
     \<and> list_all (\<lambda>r. sr_Result r \<noteq> None) results
     \<and> list_all (\<lambda>(step, r). may_go_on step r) (zip steps (butlast results))
     \<and> (success \<longleftrightarrow> before \<and> err = None \<and> length results = length steps \<and> list_all Succeeded results)
     \<and> (err = Some ErrAbortVU \<longleftrightarrow> results \<noteq> [] \<and> \<not> Succeeded (last results)
          \<and> cs_OnFailure (steps ! (length results - 1)) = OnFailureAbortVU)"

lemma ExecuteStep_result:
  "\<exists>res. sr_Result (snd (ExecuteStep V e state step)) = Some res" "sr_StepName (snd (ExecuteStep V e state step)) = cs_Name step"
  by (rule ExecuteStep_cases [of V e state step];
      auto simp: step_failed_def step_response_def Let_def split: prod.splits option.splits if_splits)+

lemma failure_policies: "OnFailureStop \<noteq> OnFailureAbortVU"
  by (simp add: failure_defs)

lemma iteration_stop:
  assumes "\<exists>res. sr_Result r = Some res" "sr_StepName r = cs_Name step" "\<not> Succeeded r"
  shows "cs_OnFailure step = OnFailureStop \<Longrightarrow> iteration_sound k b (step # steps) [r\<lparr>sr_StepIndex := int k\<rparr>] False None"
    "cs_OnFailure step = OnFailureAbortVU \<Longrightarrow> iteration_sound k b (step # steps) [r\<lparr>sr_StepIndex := int k\<rparr>] False (Some ErrAbortVU)"
  using assms failure_policies by (auto simp: iteration_sound_def)

lemma iteration_context:
  assumes "\<exists>res. sr_Result r = Some res" "sr_StepName r = cs_Name step" "Succeeded r"
  shows "iteration_sound k b (step # steps) [r\<lparr>sr_StepIndex := int k\<rparr>] False (Some (ContextDone err))"
  using assms by (auto simp: iteration_sound_def)

lemma iteration_go_on:
  assumes "\<exists>res. sr_Result r = Some res" "sr_StepName r = cs_Name step" "may_go_on step r"
    and "iteration_sound (k + 1) (b \<and> Succeeded r) steps results success err"
  shows "iteration_sound k b (step # steps) (r\<lparr>sr_StepIndex := int k\<rparr> # results) success err"
proof -
  have [simp]: "Succeeded (r\<lparr>sr_StepIndex := int k\<rparr>) = Succeeded r" "may_go_on step (r\<lparr>sr_StepIndex := int k\<rparr>)"
    using assms(3) by (simp_all add: may_go_on_def)
  have ix: "map int [k ..< k + length (r # results)] = int k # map int [k + 1 ..< k + 1 + length results]"
    by (simp add: upt_conv_Cons del: upt_Suc)
  show ?thesis
  proof (cases results)
    case Nil
    have "cs_OnFailure step \<noteq> OnFailureAbortVU \<or> Succeeded r" using assms(3) by (auto simp: may_go_on_def)
    then show ?thesis using assms(1,2,4) Nil by (auto simp: iteration_sound_def)
  next
    case (Cons r' rs)
    then show ?thesis using assms(1,2,4) ix unfolding iteration_sound_def
      by (auto simp del: upt_Suc simp: upt_conv_Cons)
  qed
qed

lemma ExecuteStep_Iteration: "vs_Iteration (fst (ExecuteStep V e state step)) = vs_Iteration state"
proof -
  have "vs_Iteration (fst (extract_loop X resp body rules keys state)) = vs_Iteration state" for X resp body rules keys state
    by (induction keys arbitrary: state) (simp_all add: Let_def split: sum.splits)
  then have "vs_Iteration (fst (ExtractAll X resp body rules state)) = vs_Iteration state" for X resp body rules
    by (simp add: ExtractAll_def)
  then have *: "vs_Iteration (fst (step_response V step redact sent resp state)) = vs_Iteration state" for redact sent resp
    by (auto simp: step_response_def Let_def split: prod.splits option.splits) (metis fst_conv)+
  show ?thesis by (rule ExecuteStep_cases [of V e state step]) (simp_all add: *)
qed

lemma iterate_steps_sound:
  "iterate_steps V e k before steps state = (state', results, success, err) \<Longrightarrow>
     iteration_sound k before steps results success err \<and> vs_Iteration state' = vs_Iteration state"
proof (induction steps arbitrary: k before state state' results success err)
  case Nil
  then show ?case by (auto simp: iteration_sound_def)
next
  case (Cons step steps)
  show ?case
  proof (cases "env_ctx_before (V k)")
    case (Some ctx)
    then show ?thesis using Cons.prems by (auto simp: iteration_sound_def)
  next
    case None
    obtain s r where ex: "ExecuteStep (V k) e state step = (s, r)" by (cases "ExecuteStep (V k) e state step")
    have it: "vs_Iteration s = vs_Iteration state" using ExecuteStep_Iteration [of "V k" e state step] ex by simp
    have r: "\<exists>res. sr_Result r = Some res" "sr_StepName r = cs_Name step"
      using ExecuteStep_result [where V = "V k" and e = e and state = state and step = step] ex by simp_all
    let ?think = "if Succeeded r \<and> cs_ThinkTime step > 0 \<and> steps \<noteq> [] then env_ctx_thinking (V k) else None"
    obtain s2 rs ok er where rest: "iterate_steps V e (k + 1) (before \<and> Succeeded r) steps s = (s2, rs, ok, er)"
      by (metis surj_pair)
    consider (stop) "\<not> Succeeded r" "cs_OnFailure step = OnFailureStop"
      | (abort) "\<not> Succeeded r" "cs_OnFailure step = OnFailureAbortVU"
      | (ctx) c where "may_go_on step r" "?think = Some c"
      | (more) "may_go_on step r" "?think = None"
      unfolding may_go_on_def by (cases ?think) auto
    then show ?thesis
    proof cases
      case stop
      then have "(state', results, success, err) = (s, [r\<lparr>sr_StepIndex := int k\<rparr>], False, None)"
        using Cons.prems None ex by simp
      then show ?thesis using iteration_stop(1) [OF r stop] it by simp
    next
      case abort
      then have "(state', results, success, err) = (s, [r\<lparr>sr_StepIndex := int k\<rparr>], False, Some ErrAbortVU)"
        using Cons.prems None ex failure_policies by (simp add: Let_def)
      then show ?thesis using iteration_stop(2) [OF r abort] it by simp
    next
      case ctx
      then have ok: "Succeeded r" by (auto split: if_splits)
      then have "(state', results, success, err) = (s, [r\<lparr>sr_StepIndex := int k\<rparr>], False, Some (ContextDone c))"
        using Cons.prems None ex ctx by (simp add: Let_def split: if_splits)
      then show ?thesis using iteration_context [OF r ok] it by simp
    next
      case more
      then have "(state', results, success, err) = (s2, r\<lparr>sr_StepIndex := int k\<rparr> # rs, ok, er)"
        using Cons.prems None ex rest by (auto simp: Let_def may_go_on_def split: if_splits)
      then show ?thesis using iteration_go_on [OF r more(1)] Cons.IH [OF rest] it by simp
    qed
  qed
qed

text \<open>C16. An iteration of a scenario reports the results of its steps in order, each with its own name and number and with a
  result, beginning with the first step. It goes on after a failed step only if the step's policy is neither to stop nor
  to abort; it is a success exactly if every step was run and succeeded and the context was not done; the
  virtual user is aborted exactly if the last reported step failed and has that policy. The iteration count grows by one.\<close>

theorem ExecuteIteration_spec:
  assumes "se_scenario e = Some sc" "sn_Steps sc \<noteq> []" "ExecuteIteration V e state = (state', results, success, err)"
  shows "iteration_sound 0 True (sn_Steps sc) results success err \<and> vs_Iteration state' = wrap64 (vs_Iteration state + 1)"
  using assms iterate_steps_sound [of V e 0 True "sn_Steps sc" "ResetIteration state"]
  by (simp add: ExecuteIteration_def ResetIteration_def)

theorem ExecuteStep_sound_witness:
  "step_sound sample_step (NewVUState 0 None [(''path'', ''a'')])
     (fst (ExecuteStep sample_env sample_scenario (NewVUState 0 None [(''path'', ''a'')]) sample_step))
     (snd (ExecuteStep sample_env sample_scenario (NewVUState 0 None [(''path'', ''a'')]) sample_step))"
  by (rule ExecuteStep_sound) (simp add: sample_step_def)

lemma sample_iteration:
  "snd (snd (ExecuteIteration (\<lambda>_. sample_env) sample_scenario (NewVUState 0 None []))) = (False, Some ErrAbortVU)"
  by code_simp

theorem ExecuteIteration_spec_witness:
  "\<exists>state' results. ExecuteIteration (\<lambda>_. sample_env) sample_scenario (NewVUState 0 None []) = (state', results, False, Some ErrAbortVU)
     \<and> iteration_sound 0 True [sample_step] results False (Some ErrAbortVU) \<and> vs_Iteration state' = 1"
proof -
  obtain state' results where r: "ExecuteIteration (\<lambda>_. sample_env) sample_scenario (NewVUState 0 None []) = (state', results, False, Some ErrAbortVU)"
    using sample_iteration by (metis prod.collapse)
  have w: "wrap64 1 = 1" by code_simp
  show ?thesis
    using ExecuteIteration_spec [OF _ _ r, of "\<lparr>sn_Name = ''demo'', sn_Steps = [sample_step]\<rparr>"] r w
    by (simp add: sample_scenario_def NewScenarioExecutor_def NewVUState_def)
qed

subsection \<open>How an iteration is counted by the closed scheduler\<close>

lemma on_step_done_counts:
  assumes "on_step_done H w (Some sr) = Some w'" "steps_ok w" "sr_Result sr \<noteq> None"
  shows "Planned (wm w') = Planned (wm w) + 1 \<and> Started (wm w') = Started (wm w) + 1
    \<and> Completed (wm w') = Completed (wm w) + 1 \<and> Canceled (wm w') = Canceled (wm w)"
proof -
  from assms(1,2) obtain m where "wm w' = count_step H (sr_Result sr) m" "m = wm w" by (auto elim: on_step_done_Some)
  then show ?thesis using count_step_delta [of H "sr_Result sr" m] assms(3) by simp
qed

lemma steps_done_counts:
  assumes "steps_done H w (map Some results) = Some w'" "steps_ok w" "list_all (\<lambda>r. sr_Result r \<noteq> None) results"
  shows "Planned (wm w') = Planned (wm w) + int (length results) \<and> Started (wm w') = Started (wm w) + int (length results)
    \<and> Completed (wm w') = Completed (wm w) + int (length results) \<and> Canceled (wm w') = Canceled (wm w)"
  using assms
proof (induction results arbitrary: w)
  case (Cons r rs)
  then obtain u where u: "on_step_done H w (Some r) = Some u" "steps_done H u (map Some rs) = Some w'" by (auto simp: bind_eq_Some_conv)
  have "sr_Result r \<noteq> None" "list_all (\<lambda>r. sr_Result r \<noteq> None) rs" using Cons.prems(3) by simp_all
  then show ?case
    using on_step_done_counts [OF u(1) Cons.prems(2)] Cons.IH [OF u(2) on_step_done_inv(1) [OF u(1) Cons.prems(2)]] by simp
qed simp

text \<open>C30. The closed scheduler counts an iteration as it happened: a planned, started and completed request for each step the
  iteration reported and no canceled one, one completed iteration if it succeeded and one failed iteration otherwise, and the
  virtual user ends exactly if the iteration aborted it.\<close>

theorem iteration_counted:
  assumes "se_scenario e = Some sc" "sn_Steps sc \<noteq> []" "ExecuteIteration V e state = (state', results, success, err)"
    and "steps_ok (vu_metrics v)" "m = wm (vu_metrics v)"
  shows "\<exists>v' m'. vu_iterated H (map Some results) success (err = Some ErrAbortVU) v = Some v' \<and> m' = wm (vu_metrics v')
    \<and> Planned m' = Planned m + int (length results) \<and> Started m' = Started m + int (length results)
    \<and> Completed m' = Completed m + int (length results) \<and> Canceled m' = Canceled m
    \<and> si_Completed (ScenarioIterations m') = si_Completed (ScenarioIterations m)
        + (if length results = length (sn_Steps sc) \<and> err = None \<and> list_all Succeeded results then 1 else 0)
    \<and> si_Completed (ScenarioIterations m') + si_Failed (ScenarioIterations m')
        = si_Completed (ScenarioIterations m) + si_Failed (ScenarioIterations m) + 1
    \<and> (vu_pc v' = V_Exited \<longleftrightarrow> err = Some ErrAbortVU)"
proof -
  have sound: "iteration_sound 0 True (sn_Steps sc) results success err"
    using assms(1-3) iterate_steps_sound [of V e 0 True "sn_Steps sc" "ResetIteration state"] by (simp add: ExecuteIteration_def)
  obtain w where w: "steps_done H (vu_metrics v) (map Some results) = Some w" using steps_done_total [OF assms(4)] by blast
  have "list_all (\<lambda>r. sr_Result r \<noteq> None) results" using sound by (simp add: iteration_sound_def)
  note counts = steps_done_counts [OF w assms(4) this]
  have "ScenarioIterations (wm w) = ScenarioIterations m" using steps_done_inv [OF w assms(4)] assms(5) by simp
  moreover have "success \<longleftrightarrow> length results = length (sn_Steps sc) \<and> err = None \<and> list_all Succeeded results"
    using sound by (auto simp: iteration_sound_def)
  ultimately show ?thesis
    using w counts assms(5) finish_iteration_counts [of success w]
    by (auto simp: vu_iterated_def finish_iteration_def Let_def)
qed

theorem iteration_counted_witness:
  "\<exists>results v'. vu_iterated exact_hdr (map Some results) False True \<lparr>vu_pc = V_Iterate, vu_metrics = NewWorker exact_hdr 0\<rparr> = Some v'
     \<and> si_Failed (ScenarioIterations (wm (vu_metrics v'))) = 1 \<and> vu_pc v' = V_Exited"
proof -
  obtain state' results where r: "ExecuteIteration (\<lambda>_. sample_env) sample_scenario (NewVUState 0 None []) = (state', results, False, Some ErrAbortVU)"
    using sample_iteration by (metis prod.collapse)
  have ok: "steps_ok (vu_metrics \<lparr>vu_pc = V_Iterate, vu_metrics = NewWorker exact_hdr 0\<rparr>)" by (simp add: steps_ok_def NewWorker_def)
  show ?thesis
    using iteration_counted [OF _ _ r ok refl, of "\<lparr>sn_Name = ''demo'', sn_Steps = [sample_step]\<rparr>" exact_hdr]
    by (fastforce simp: sample_scenario_def NewScenarioExecutor_def NewWorker_def NewWorkerMetrics_def zero_iterations_def)
qed

end
