(* ===== verification/Mock_Clock.thy ===== *)
theory Mock_Clock
  imports Go_Time "HOL-Library.Multiset"
begin

text \<open>
  The virtual clock that drives the schedulers in tests: \<^verbatim>\<open>internal/clock/mock.go\<close>.

  A clock is a record of its fields. \<open>cc_entries\<close> holds every timer and ticker that was ever made, in the order of their numbers;
  the heap is those with \<open>me_queued\<close>, which is when the field \<^verbatim>\<open>index\<close> is not -1. The heap itself is the package
  \<^verbatim>\<open>container/heap\<close>, of which the code uses that the first element is the least one of the order \<^verbatim>\<open>Less\<close>:
  \<open>heap_top\<close>. A channel of one place is the value it holds, if any. A timer is known by its number, and so is a
  waiter, whose channel is closed when its number is in \<open>cc_closed\<close>. Every operation holds the mutex of the clock, so it is one step;
  \<^verbatim>\<open>Sleep\<close> and the wait at the end of \<^verbatim>\<open>BlockUntilTimers\<close> block the caller and change nothing. The numbers
  do not wrap around. \<^verbatim>\<open>RealClock\<close> only calls the package \<^verbatim>\<open>time\<close> and is not modelled.
\<close>

section \<open>Entries\<close>

datatype entryType = EntryTypeTimer | EntryTypeTicker

record mockEntry =
  me_id :: nat
  me_entryType :: entryType
  me_triggerAt :: Time
  me_period :: Duration
  me_ch :: "Time option"
  me_stopped :: bool
  me_queued :: bool

definition entry_Less :: "mockEntry \<Rightarrow> mockEntry \<Rightarrow> bool" where
  "entry_Less a b = (if me_triggerAt a = me_triggerAt b then me_id a < me_id b else me_triggerAt a < me_triggerAt b)"

primrec heap_top :: "mockEntry list \<Rightarrow> mockEntry option" where
  "heap_top [] = None"
| "heap_top (e # es) = (case heap_top es of
     None \<Rightarrow> if me_queued e then Some e else None
   | Some b \<Rightarrow> if me_queued e \<and> \<not> entry_Less b e then Some e else Some b)"

primrec replace_entry :: "mockEntry \<Rightarrow> mockEntry \<Rightarrow> mockEntry list \<Rightarrow> mockEntry list" where
  "replace_entry e e' [] = []"
| "replace_entry e e' (x # xs) = (if x = e then e' # xs else x # replace_entry e e' xs)"

definition update_entry :: "nat \<Rightarrow> (mockEntry \<Rightarrow> mockEntry) \<Rightarrow> mockEntry list \<Rightarrow> mockEntry list" where
  "update_entry i f es = map (\<lambda>e. if me_id e = i then f e else e) es"

definition find_entry :: "nat \<Rightarrow> mockEntry list \<Rightarrow> mockEntry option" where
  "find_entry i es = find (\<lambda>e. me_id e = i) es"

section \<open>The clock\<close>

record ControllableClock =
  cc_now :: Time
  cc_entries :: "mockEntry list"
  cc_nextID :: nat
  cc_waiters :: "(int \<times> nat) list"
  cc_closed :: "nat list"
  cc_nextWaiter :: nat

definition NewControllableClock :: "Time \<Rightarrow> ControllableClock" where
  "NewControllableClock initialTime =
     \<lparr>cc_now = initialTime, cc_entries = [], cc_nextID = 0, cc_waiters = [], cc_closed = [], cc_nextWaiter = 0\<rparr>"

definition clock_Now :: "ControllableClock \<Rightarrow> Time" where "clock_Now c = cc_now c"

definition clock_Since :: "ControllableClock \<Rightarrow> Time \<Rightarrow> Duration" where "clock_Since c t = time_sub (cc_now c) t"

definition ActiveTimersCount :: "ControllableClock \<Rightarrow> int" where
  "ActiveTimersCount c = int (length (filter (\<lambda>e. me_queued e \<and> \<not> me_stopped e) (cc_entries c)))"

definition notifyWaiters :: "ControllableClock \<Rightarrow> ControllableClock" where
  "notifyWaiters c = (let active = ActiveTimersCount c in
     c\<lparr>cc_waiters := filter (\<lambda>(count, _). \<not> active \<ge> count) (cc_waiters c),
       cc_closed := cc_closed c @ map snd (filter (\<lambda>(count, _). active \<ge> count) (cc_waiters c))\<rparr>)"

definition new_entry :: "entryType \<Rightarrow> Duration \<Rightarrow> ControllableClock \<Rightarrow> ControllableClock \<times> nat" where
  "new_entry ty d c = (let i = cc_nextID c + 1 in
     (notifyWaiters (c\<lparr>cc_nextID := i, cc_entries := cc_entries c @
        [\<lparr>me_id = i, me_entryType = ty, me_triggerAt = time_add (cc_now c) d, me_period = d, me_ch = None, me_stopped = False, me_queued = True\<rparr>]\<rparr>), i))"

definition NewTimer :: "Duration \<Rightarrow> ControllableClock \<Rightarrow> ControllableClock \<times> nat" where
  "NewTimer d c = new_entry EntryTypeTimer d c"

definition NewTicker :: "Duration \<Rightarrow> ControllableClock \<Rightarrow> ControllableClock \<times> nat" where
  "NewTicker d c = new_entry EntryTypeTicker d c"

text \<open>\<open>Advance\<close>: while the first entry is due, take it from the heap, set the clock to its time, send the time unless the channel
  is full, and put a ticker back.\<close>

definition due :: "Time \<Rightarrow> ControllableClock \<Rightarrow> mockEntry option" where
  "due target c = (case heap_top (cc_entries c) of
       None \<Rightarrow> None | Some e \<Rightarrow> if me_triggerAt e > target then None else Some e)"

definition fire_entry :: "mockEntry \<Rightarrow> mockEntry" where
  "fire_entry e =
     (if me_stopped e then e\<lparr>me_queued := False\<rparr>
      else let sent = e\<lparr>me_ch := (case me_ch e of None \<Rightarrow> Some (me_triggerAt e) | Some v \<Rightarrow> Some v)\<rparr> in
        if me_entryType e = EntryTypeTicker \<and> me_period e > 0
        then sent\<lparr>me_triggerAt := time_add (me_triggerAt e) (me_period e), me_queued := True\<rparr>
        else sent\<lparr>me_queued := False\<rparr>)"

definition fire :: "mockEntry \<Rightarrow> ControllableClock \<Rightarrow> ControllableClock" where
  "fire e c = c\<lparr>cc_now := me_triggerAt e, cc_entries := replace_entry e (fire_entry e) (cc_entries c)\<rparr>"

text \<open>What is left to do: every queued entry takes at most one round per nanosecond up to the target.\<close>

definition rounds :: "Time \<Rightarrow> mockEntry \<Rightarrow> nat" where
  "rounds target e = (if me_queued e then nat (target - me_triggerAt e + 1) else 0)"

lemma heap_top_in: "heap_top es = Some e \<Longrightarrow> e \<in> set es \<and> me_queued e"
  by (induction es) (auto split: option.splits if_splits)

lemma replace_entry_sum:
  "e \<in> set es \<Longrightarrow> sum_list (map f (replace_entry e e' es)) + f e = sum_list (map f es) + (f e' :: nat)"
  by (induction es) auto

lemma fire_entry_rounds: "me_queued e \<Longrightarrow> me_triggerAt e \<le> target \<Longrightarrow> rounds target (fire_entry e) < rounds target e"
  by (simp add: rounds_def fire_entry_def Let_def time_add_def)

lemma due_Some: "due target c = Some e \<Longrightarrow> e \<in> set (cc_entries c) \<and> me_queued e \<and> me_triggerAt e \<le> target"
  using heap_top_in by (fastforce simp: due_def split: option.splits if_splits)

lemma fire_rounds:
  assumes "due target c = Some e"
  shows "sum_list (map (rounds target) (cc_entries (fire e c))) < sum_list (map (rounds target) (cc_entries c))"
proof -
  have e: "e \<in> set (cc_entries c)" "me_queued e" "me_triggerAt e \<le> target" using due_Some [OF assms] by auto
  show ?thesis
    using replace_entry_sum [OF e(1), of "rounds target" "fire_entry e"] fire_entry_rounds [OF e(2,3)] by (simp add: fire_def)
qed

function advance_loop :: "Time \<Rightarrow> ControllableClock \<Rightarrow> ControllableClock" where
  "advance_loop target c = (case due target c of None \<Rightarrow> c | Some e \<Rightarrow> advance_loop target (fire e c))"
  by pat_completeness auto
termination
  by (relation "measure (\<lambda>(target, c). sum_list (map (rounds target) (cc_entries c)))") (use fire_rounds in auto)

declare advance_loop.simps [simp del]

definition Advance :: "Duration \<Rightarrow> ControllableClock \<Rightarrow> ControllableClock" where
  "Advance d c = (let targetTime = time_add (cc_now c) d in (advance_loop targetTime c)\<lparr>cc_now := targetTime\<rparr>)"

definition clock_Set :: "Time \<Rightarrow> ControllableClock \<Rightarrow> ControllableClock" where
  "clock_Set t c = c\<lparr>cc_now := t\<rparr>"

text \<open>Whether the caller goes on at once, or waits for the channel of the given number.\<close>

definition BlockUntilTimers :: "int \<Rightarrow> ControllableClock \<Rightarrow> ControllableClock \<times> nat option" where
  "BlockUntilTimers expectedCount c =
     (if ActiveTimersCount c \<ge> expectedCount then (c, None)
      else (c\<lparr>cc_waiters := cc_waiters c @ [(expectedCount, cc_nextWaiter c)], cc_nextWaiter := cc_nextWaiter c + 1\<rparr>, Some (cc_nextWaiter c)))"

section \<open>Timers and tickers\<close>

definition timer_Stop :: "nat \<Rightarrow> ControllableClock \<Rightarrow> ControllableClock \<times> bool" where
  "timer_Stop i c = (case find_entry i (cc_entries c) of
       None \<Rightarrow> (c, False)
     | Some e \<Rightarrow>
         if me_stopped e then (c, False)
         else (c\<lparr>cc_entries := update_entry i (\<lambda>e. e\<lparr>me_stopped := True, me_queued := False\<rparr>) (cc_entries c)\<rparr>, True))"

definition timer_Reset :: "nat \<Rightarrow> Duration \<Rightarrow> ControllableClock \<Rightarrow> ControllableClock \<times> bool" where
  "timer_Reset i d c = (case find_entry i (cc_entries c) of
       None \<Rightarrow> (c, False)
     | Some e \<Rightarrow>
         (c\<lparr>cc_entries := update_entry i (\<lambda>e. e\<lparr>me_stopped := False, me_triggerAt := time_add (cc_now c) d, me_period := d, me_queued := True\<rparr>)
             (cc_entries c)\<rparr>, \<not> me_stopped e))"

definition ticker_Stop :: "nat \<Rightarrow> ControllableClock \<Rightarrow> ControllableClock" where
  "ticker_Stop i c = c\<lparr>cc_entries := update_entry i (\<lambda>e. e\<lparr>me_stopped := True, me_queued := False\<rparr>) (cc_entries c)\<rparr>"

definition ticker_Reset :: "nat \<Rightarrow> Duration \<Rightarrow> ControllableClock \<Rightarrow> ControllableClock" where
  "ticker_Reset i d c = c\<lparr>cc_entries := update_entry i
     (\<lambda>e. e\<lparr>me_stopped := False, me_triggerAt := time_add (cc_now c) d, me_period := d, me_queued := True\<rparr>) (cc_entries c)\<rparr>"

text \<open>The caller takes the value from the channel.\<close>

definition receive :: "nat \<Rightarrow> ControllableClock \<Rightarrow> ControllableClock \<times> Time option" where
  "receive i c = (c\<lparr>cc_entries := update_entry i (\<lambda>e. e\<lparr>me_ch := None\<rparr>) (cc_entries c)\<rparr>,
     Option.bind (find_entry i (cc_entries c)) me_ch)"

section \<open>Properties\<close>

subsection \<open>What Advance does, in closed form\<close>

text \<open>The number of times an entry that is due fires up to the target, and the entry afterwards.\<close>

definition repeats :: "mockEntry \<Rightarrow> bool" where
  "repeats e \<longleftrightarrow> me_entryType e = EntryTypeTicker \<and> me_period e > 0"

definition is_due :: "Time \<Rightarrow> mockEntry \<Rightarrow> bool" where
  "is_due target e \<longleftrightarrow> me_queued e \<and> me_triggerAt e \<le> target"

definition firings :: "Time \<Rightarrow> mockEntry \<Rightarrow> int" where
  "firings target e = (if \<not> is_due target e \<or> me_stopped e then 0
     else if repeats e then (target - me_triggerAt e) div me_period e + 1 else 1)"

definition advanced :: "Time \<Rightarrow> mockEntry \<Rightarrow> mockEntry" where
  "advanced target e =
     (if \<not> is_due target e then e
      else if me_stopped e then e\<lparr>me_queued := False\<rparr>
      else e\<lparr>me_ch := (case me_ch e of None \<Rightarrow> Some (me_triggerAt e) | Some v \<Rightarrow> Some v), me_queued := repeats e,
             me_triggerAt := me_triggerAt e + (if repeats e then firings target e * me_period e else 0)\<rparr>)"

lemma div_step: "0 < (p :: int) \<Longrightarrow> (x - p) div p = x div p - 1"
  using div_mult_self2 [of p x "-1"] by simp

lemma firings_step:
  assumes "is_due target e" "\<not> me_stopped e" "repeats e"
  shows "firings target (fire_entry e) = firings target e - 1"
proof -
  have p: "0 < me_period e" using assms(3) by (simp add: repeats_def)
  have "(target - me_triggerAt e) div me_period e = 0" if "target - me_triggerAt e < me_period e"
    using assms(1) that by (simp add: is_due_def)
  then show ?thesis
    using assms p div_step [OF p, of "target - me_triggerAt e"]
    by (auto simp: firings_def fire_entry_def is_due_def repeats_def time_add_def Let_def algebra_simps)
qed

lemma advanced_fire: "is_due target e \<Longrightarrow> advanced target (fire_entry e) = advanced target e"
proof -
  assume due: "is_due target e"
  consider "me_stopped e" | "\<not> me_stopped e" "\<not> repeats e" | "\<not> me_stopped e" "repeats e" by blast
  then show ?thesis
  proof cases
    case 3
    let ?f = "fire_entry e"
    have f: "me_stopped ?f = False" "repeats ?f" "me_period ?f = me_period e" "me_triggerAt ?f = me_triggerAt e + me_period e" "me_queued ?f"
      "me_ch ?f = (case me_ch e of None \<Rightarrow> Some (me_triggerAt e) | Some v \<Rightarrow> Some v)"
      using 3 by (auto simp: fire_entry_def repeats_def Let_def time_add_def split: option.splits)
    have n: "firings target ?f = firings target e - 1" by (rule firings_step [OF due 3])
    show ?thesis
    proof (cases "is_due target ?f")
      case True
      have "me_triggerAt e + me_period e + (firings target e - 1) * me_period e = me_triggerAt e + firings target e * me_period e"
        by (simp add: algebra_simps)
      then show ?thesis using True 3 due f n unfolding advanced_def
        by (simp add: fire_entry_def Let_def repeats_def split: option.splits)
    next
      case False
      then have "firings target e = 1" using n f by (simp add: firings_def)
      then show ?thesis using False 3 due f unfolding advanced_def
        by (simp add: fire_entry_def Let_def repeats_def time_add_def split: option.splits)
    qed
  qed (use due in \<open>auto simp: advanced_def fire_entry_def is_due_def repeats_def Let_def\<close>)
qed

lemma replace_entry_map: "f e' = f e \<Longrightarrow> map f (replace_entry e e' es) = map f es"
  by (induction es) auto

lemma heap_top_None: "heap_top es = None \<longleftrightarrow> list_all (\<lambda>e. \<not> me_queued e) es"
  by (induction es) (auto split: option.splits)

lemma heap_top_least: "heap_top es = Some b \<Longrightarrow> x \<in> set es \<Longrightarrow> me_queued x \<Longrightarrow> \<not> entry_Less x b"
  by (induction es arbitrary: b) (auto simp: entry_Less_def heap_top_None list_all_iff split: option.splits if_splits)

lemma due_None: "due target c = None \<Longrightarrow> e \<in> set (cc_entries c) \<Longrightarrow> \<not> is_due target e"
proof (cases "heap_top (cc_entries c)")
  case (Some b)
  assume "due target c = None" "e \<in> set (cc_entries c)"
  then show ?thesis using heap_top_least [OF Some, of e] Some
    by (auto simp: due_def is_due_def entry_Less_def split: if_splits)
qed (auto simp: due_def is_due_def heap_top_None list_all_iff)

lemma advance_loop_entries:
  "advance_loop target c = c\<lparr>cc_now := cc_now (advance_loop target c), cc_entries := map (advanced target) (cc_entries c)\<rparr>"
proof (induction target c rule: advance_loop.induct)
  case (1 target c)
  show ?case
  proof (cases "due target c")
    case None
    have "map (advanced target) (cc_entries c) = cc_entries c"
      by (rule map_idI) (use due_None [OF None] in \<open>simp add: advanced_def\<close>)
    then show ?thesis by (simp add: advance_loop.simps None)
  next
    case (Some e)
    have "is_due target e" using due_Some [OF Some] by (simp add: is_due_def)
    then have same: "map (advanced target) (cc_entries (fire e c)) = map (advanced target) (cc_entries c)"
      by (simp add: fire_def replace_entry_map advanced_fire)
    have "advance_loop target c = advance_loop target (fire e c)" by (simp add: advance_loop.simps [of target c] Some)
    then show ?thesis using 1 [OF Some] unfolding same by (simp add: fire_def)
  qed
qed

lemma Advance_form:
  "Advance d c = c\<lparr>cc_now := cc_now c + d, cc_entries := map (advanced (cc_now c + d)) (cc_entries c)\<rparr>"
  unfolding Advance_def Let_def time_add_def by (subst advance_loop_entries) simp

text \<open>C15. Advancing the clock gives exactly this: the clock shows the target time; an entry that is not due is as before; a stopped one is
  discarded; a timer has fired once, a ticker as often as its period fits, and is due again after the target; a channel
  that was empty holds the time of the first firing. The loop ends for every clock and every duration.\<close>

theorem Advance_closed_form:
  "Advance d c = c\<lparr>cc_now := cc_now c + d, cc_entries := map (advanced (cc_now c + d)) (cc_entries c)\<rparr>"
  by (rule Advance_form)

subsection \<open>The order of the firings\<close>

text \<open>What \<open>Advance\<close> sends, in the order in which it does: time and number of the entry.\<close>

function sends :: "Time \<Rightarrow> ControllableClock \<Rightarrow> (Time \<times> nat) list" where
  "sends target c = (case due target c of
       None \<Rightarrow> []
     | Some e \<Rightarrow> (if me_stopped e then [] else [(me_triggerAt e, me_id e)]) @ sends target (fire e c))"
  by pat_completeness auto
termination
  by (relation "measure (\<lambda>(target, c). sum_list (map (rounds target) (cc_entries c)))") (use fire_rounds in auto)

declare sends.simps [simp del]

definition send_le :: "Time \<times> nat \<Rightarrow> Time \<times> nat \<Rightarrow> bool" where
  "send_le a b \<longleftrightarrow> fst a < fst b \<or> fst a = fst b \<and> snd a \<le> snd b"

lemma fire_entry_id [simp]: "me_id (fire_entry e) = me_id e"
  by (simp add: fire_entry_def Let_def)

lemma fire_entry_later: "me_queued (fire_entry e) \<Longrightarrow> me_triggerAt e < me_triggerAt (fire_entry e)"
  by (auto simp: fire_entry_def Let_def time_add_def split: if_splits)

lemma replace_entry_set: "x \<in> set (replace_entry e e' es) \<Longrightarrow> x = e' \<or> x \<in> set es"
  by (induction es) (auto split: if_splits)

definition not_before :: "Time \<times> nat \<Rightarrow> ControllableClock \<Rightarrow> bool" where
  "not_before p c \<longleftrightarrow> list_all (\<lambda>e. me_queued e \<longrightarrow> send_le p (me_triggerAt e, me_id e)) (cc_entries c)"

lemma fire_not_before:
  assumes "due target c = Some e"
  shows "not_before (me_triggerAt e, me_id e) (fire e c)"
proof -
  have top: "heap_top (cc_entries c) = Some e" using assms by (auto simp: due_def split: option.splits if_splits)
  have "send_le (me_triggerAt e, me_id e) (me_triggerAt x, me_id x)" if "x \<in> set (cc_entries (fire e c))" "me_queued x" for x
  proof -
    from that(1) have "x = fire_entry e \<or> x \<in> set (cc_entries c)" by (auto simp: fire_def dest: replace_entry_set)
    then show ?thesis
      using fire_entry_later [of e] heap_top_least [OF top, of x] that(2) by (auto simp: send_le_def entry_Less_def split: if_splits)
  qed
  then show ?thesis by (auto simp: not_before_def list_all_iff)
qed

lemma fire_keeps_not_before:
  assumes "due target c = Some e" "not_before p c"
  shows "not_before p (fire e c)"
proof -
  have "send_le p (me_triggerAt e, me_id e)" using assms(2) due_Some [OF assms(1)] by (auto simp: not_before_def list_all_iff)
  then show ?thesis
    using fire_not_before [OF assms(1)] unfolding not_before_def list_all_iff send_le_def by (metis (no_types, lifting) dual_order.trans fst_conv order_less_trans snd_conv)
qed

lemma sends_not_before: "not_before p c \<Longrightarrow> list_all (send_le p) (sends target c)"
proof (induction target c rule: sends.induct)
  case (1 target c)
  show ?case
  proof (cases "due target c")
    case (Some e)
    have "send_le p (me_triggerAt e, me_id e)" using 1(2) due_Some [OF Some] by (auto simp: not_before_def list_all_iff)
    then show ?thesis using 1(1) [OF Some fire_keeps_not_before [OF Some 1(2)]] by (simp add: sends.simps [of target c] Some)
  qed (simp add: sends.simps)
qed

lemma sends_sorted: "sorted_wrt send_le (sends target c)"
proof (induction target c rule: sends.induct)
  case (1 target c)
  show ?case
  proof (cases "due target c")
    case (Some e)
    then show ?thesis
      using 1 [OF Some] sends_not_before [OF fire_not_before [OF Some], of target]
      by (simp add: sends.simps [of target c] list_all_iff)
  qed (simp add: sends.simps)
qed

lemma firings_fire: "is_due target e \<Longrightarrow> firings target e = firings target (fire_entry e) + (if me_stopped e then 0 else 1)"
proof (cases "me_stopped e \<or> \<not> repeats e")
  case True
  assume "is_due target e"
  then show ?thesis using True by (auto simp: firings_def fire_entry_def is_due_def repeats_def Let_def)
next
  case False
  assume "is_due target e"
  then show ?thesis using False firings_step by simp
qed

lemma replace_entry_int_sum:
  "e \<in> set es \<Longrightarrow> (\<Sum>x\<leftarrow>replace_entry e e' es. f x) = (\<Sum>x\<leftarrow>es. f x) - f e + (f e' :: int)"
  by (induction es) auto

lemma sends_count:
  "int (count_list (map snd (sends target c)) i) = (\<Sum>e\<leftarrow>cc_entries c. if me_id e = i then firings target e else 0)"
proof (induction target c rule: sends.induct)
  case (1 target c)
  show ?case
  proof (cases "due target c")
    case None
    have "(\<Sum>e\<leftarrow>cc_entries c. if me_id e = i then firings target e else 0) = (\<Sum>e\<leftarrow>cc_entries c. 0)"
      by (rule arg_cong [of _ _ sum_list], rule map_cong) (use due_None [OF None] in \<open>auto simp: firings_def\<close>)
    then show ?thesis by (simp add: sends.simps None)
  next
    case (Some e)
    have e: "e \<in> set (cc_entries c)" "is_due target e" using due_Some [OF Some] by (simp_all add: is_due_def)
    have "(\<Sum>x\<leftarrow>cc_entries (fire e c). if me_id x = i then firings target x else 0) =
        (\<Sum>x\<leftarrow>cc_entries c. if me_id x = i then firings target x else 0) - (if me_id e = i \<and> \<not> me_stopped e then 1 else 0)"
      using firings_fire [OF e(2)] by (simp add: fire_def replace_entry_int_sum [OF e(1)])
    then show ?thesis using 1 [OF Some] by (simp add: sends.simps [of target c] Some)
  qed
qed

text \<open>The firings of one advance are ordered by time, and at one time by the age of the entry; every entry fires as often as the
  closed form says, and never after the target.\<close>

lemma Advance_order:
  "sorted_wrt send_le (sends target c) \<and> list_all (\<lambda>(t, _). t \<le> target) (sends target c)
   \<and> int (count_list (map snd (sends target c)) i) = (\<Sum>e\<leftarrow>cc_entries c. if me_id e = i then firings target e else 0)"
proof (intro conjI sends_sorted sends_count)
  show "list_all (\<lambda>(t, _). t \<le> target) (sends target c)"
  proof (induction target c rule: sends.induct)
    case (1 target c)
    show ?case
    proof (cases "due target c")
      case (Some e)
      then show ?thesis using 1 [OF Some] due_Some [OF Some] by (simp add: sends.simps [of target c])
    qed (simp add: sends.simps)
  qed
qed

lemma advanced_advanced: "t1 \<le> t2 \<Longrightarrow> advanced t2 (advanced t1 e) = advanced t2 e"
proof (induction "rounds t1 e" arbitrary: e rule: less_induct)
  case less
  show ?case
  proof (cases "is_due t1 e")
    case True
    then have "is_due t2 e" "rounds t1 (fire_entry e) < rounds t1 e" using less.prems fire_entry_rounds by (auto simp: is_due_def)
    then show ?thesis using less.hyps [of "fire_entry e"] less.prems True by (simp add: advanced_fire)
  qed (simp add: advanced_def)
qed

text \<open>Advancing in two steps is the same as advancing once, so that a test may cut an advance where it likes.\<close>

lemma Advance_split:
  assumes "0 \<le> d2"
  shows "Advance d2 (Advance d1 c) = Advance (d1 + d2) c"
proof -
  have "map (advanced (cc_now c + d1 + d2)) (map (advanced (cc_now c + d1)) (cc_entries c)) = map (advanced (cc_now c + d1 + d2)) (cc_entries c)"
    using advanced_advanced [of "cc_now c + d1" "cc_now c + d1 + d2"] assms by simp
  then show ?thesis unfolding Advance_form by (simp add: algebra_simps)
qed

subsection \<open>Timers\<close>

definition clock_wf :: "ControllableClock \<Rightarrow> bool" where
  "clock_wf c \<longleftrightarrow> distinct (map me_id (cc_entries c)) \<and> list_all (\<lambda>e. me_id e \<le> cc_nextID c \<and> (me_stopped e \<longrightarrow> \<not> me_queued e)) (cc_entries c)"

inductive clock_step :: "ControllableClock \<Rightarrow> ControllableClock \<Rightarrow> bool" where
  step_timer: "clock_step c (fst (NewTimer d c))"
| step_ticker: "clock_step c (fst (NewTicker d c))"
| step_advance: "clock_step c (Advance d c)"
| step_set: "clock_step c (clock_Set t c)"
| step_block: "clock_step c (fst (BlockUntilTimers n c))"
| step_stop: "clock_step c (fst (timer_Stop i c))"
| step_reset: "clock_step c (fst (timer_Reset i d c))"
| step_ticker_stop: "clock_step c (ticker_Stop i c)"
| step_ticker_reset: "clock_step c (ticker_Reset i d c)"
| step_receive: "clock_step c (fst (receive i c))"

lemma wf_update:
  "clock_wf c \<Longrightarrow> (\<And>e. me_id (f e) = me_id e) \<Longrightarrow> (\<And>e. (me_stopped e \<longrightarrow> \<not> me_queued e) \<Longrightarrow> me_stopped (f e) \<longrightarrow> \<not> me_queued (f e)) \<Longrightarrow>
     clock_wf (c\<lparr>cc_entries := update_entry i f (cc_entries c)\<rparr>)"
  by (auto simp: clock_wf_def update_entry_def list_all_iff comp_def if_distrib cong: if_cong)

lemma wf_new_entry: "clock_wf c \<Longrightarrow> clock_wf (fst (new_entry ty d c))"
  by (auto simp: clock_wf_def new_entry_def notifyWaiters_def Let_def list_all_iff)

lemma advanced_id [simp]: "me_id (advanced t e) = me_id e" "me_stopped (advanced t e) = me_stopped e"
  by (simp_all add: advanced_def)

lemma wf_advance: "clock_wf c \<Longrightarrow> clock_wf (Advance d c)"
proof -
  assume wf: "clock_wf c"
  have "me_stopped e \<longrightarrow> \<not> me_queued (advanced t e)" if "me_stopped e \<longrightarrow> \<not> me_queued e" for t e
    using that by (simp add: advanced_def is_due_def)
  then show ?thesis using wf by (simp add: Advance_form clock_wf_def list_all_iff comp_def)
qed

interpretation clock: inductive_invariant "\<lambda>c. \<exists>t. c = NewControllableClock t" clock_step clock_wf
proof (unfold_locales, goal_cases)
  case (2 s t)
  from 2(2,1) show ?case
  proof cases
    case (step_timer d)
    then show ?thesis using wf_new_entry 2(1) by (simp add: NewTimer_def)
  next
    case (step_ticker d)
    then show ?thesis using wf_new_entry 2(1) by (simp add: NewTicker_def)
  next
    case (step_advance d)
    then show ?thesis using wf_advance 2(1) by simp
  qed (use 2(1) in \<open>auto simp: clock_Set_def BlockUntilTimers_def timer_Stop_def timer_Reset_def ticker_Stop_def ticker_Reset_def receive_def
        intro!: wf_update split: option.splits\<close>, auto simp: clock_wf_def)
qed (auto simp: clock_wf_def NewControllableClock_def)

definition channel :: "nat \<Rightarrow> ControllableClock \<Rightarrow> Time option" where
  "channel i c = Option.bind (find_entry i (cc_entries c)) me_ch"

lemma find_entry_map: "(\<And>e. me_id (f e) = me_id e) \<Longrightarrow> find_entry i (map f es) = map_option f (find_entry i es)"
  unfolding find_entry_def by (induction es) auto

lemma find_new:
  assumes "clock_wf c" "new_entry ty d c = (c', i)"
  shows "find_entry i (cc_entries c') = Some \<lparr>me_id = i, me_entryType = ty, me_triggerAt = cc_now c + d, me_period = d, me_ch = None,
      me_stopped = False, me_queued = True\<rparr> \<and> cc_now c' = cc_now c"
proof -
  have "find_entry (Suc (cc_nextID c)) (cc_entries c) = None"
    using assms(1) by (auto simp: find_entry_def find_None_iff clock_wf_def list_all_iff)
  moreover have "find P (xs @ ys) = (case find P xs of None \<Rightarrow> find P ys | r \<Rightarrow> r)" for P :: "mockEntry \<Rightarrow> bool" and xs ys
    by (induction xs) auto
  ultimately show ?thesis using assms(2)
    by (auto simp: new_entry_def notifyWaiters_def Let_def find_entry_def time_add_def)
qed

text \<open>C39. On every clock that tests can bring about, a new timer delivers the time it was set for exactly once the clock has advanced
  far enough, and not before; when it is stopped first, stopping reports success and the timer never delivers anything,
  however far the clock is advanced.\<close>

theorem timer_contract:
  assumes "reach (\<lambda>c. \<exists>t. c = NewControllableClock t) clock_step c" "NewTimer d c = (c', i)"
  shows "channel i (Advance a c') = (if d \<le> a then Some (cc_now c + d) else None)
    \<and> snd (timer_Stop i c') \<and> channel i (Advance a (fst (timer_Stop i c'))) = None"
proof -
  have wf: "clock_wf c" using clock.reach_inv [OF assms(1)] .
  note new = find_new [OF wf assms(2) [unfolded NewTimer_def]]
  have stop: "find_entry i (cc_entries (fst (timer_Stop i c'))) = Some \<lparr>me_id = i, me_entryType = EntryTypeTimer, me_triggerAt = cc_now c + d,
      me_period = d, me_ch = None, me_stopped = True, me_queued = False\<rparr>" "snd (timer_Stop i c')"
    using new by (simp_all add: timer_Stop_def update_entry_def find_entry_map)
  then show ?thesis using new
    by (simp add: channel_def Advance_form find_entry_map advanced_def is_due_def repeats_def)
qed

lemma sample_clock: "reach (\<lambda>c. \<exists>t. c = NewControllableClock t) clock_step (fst (NewTicker 3 (NewControllableClock 100)))"
  by (rule reach.reach_step, rule reach.reach_start) (auto intro: clock_step.intros)

theorem timer_contract_witness:
  "\<exists>c' i. NewTimer 5 (fst (NewTicker 3 (NewControllableClock 100))) = (c', i) \<and> channel i (Advance 10 c') = Some 105
     \<and> channel i (Advance 4 c') = None"
proof -
  obtain c' i where new: "NewTimer 5 (fst (NewTicker 3 (NewControllableClock 100))) = (c', i)" by fastforce
  have "cc_now (fst (NewTicker 3 (NewControllableClock 100))) = 100" by code_simp
  then show ?thesis
    using timer_contract [OF sample_clock new, of 10] timer_contract [OF sample_clock new, of 4] new by simp
qed

lemma Advance_split_witness:
  "Advance 7 (Advance 4 (fst (NewTicker 3 (NewControllableClock 100)))) = Advance 11 (fst (NewTicker 3 (NewControllableClock 100)))"
  using Advance_split [of 7 4] by simp

text \<open>Stopping a timer that has already expired reports success; the interface documents \<^verbatim>\<open>false\<close> for this case.\<close>

lemma stop_after_expiry:
  assumes "clock_wf c" "NewTimer d c = (c', i)" "d \<le> a"
  shows "snd (timer_Stop i (Advance a c'))"
  using find_new [OF assms(1) assms(2) [unfolded NewTimer_def]] assms(3)
  by (simp add: timer_Stop_def Advance_form find_entry_map advanced_def is_due_def)

text \<open>A waiter is released by the creation that makes enough timers active, and no other stays behind.\<close>

lemma new_entry_waiters:
  assumes "new_entry ty d c = (c', i)"
  shows "list_all (\<lambda>(count, _). ActiveTimersCount c' < count) (cc_waiters c')
    \<and> (\<forall>(count, w) \<in> set (cc_waiters c). count \<le> ActiveTimersCount c' \<longrightarrow> w \<in> set (cc_closed c'))"
  using assms by (fastforce simp: new_entry_def notifyWaiters_def Let_def ActiveTimersCount_def list_all_iff image_iff)

end
