(* ===== verification/Rate_Limiter.thy ===== *)
theory Rate_Limiter
  imports Http_Executor
begin

text \<open>
  The rate limiter of the built-in test target, \<^verbatim>\<open>internal/testtarget/ratelimit.go\<close>: a counter per window, and the headers it
  answers with, which the executor reads back (\<^verbatim>\<open>internal/executor/ratelimit.go\<close>).

  \<open>FormatTime\<close> writes an HTTP date and \<open>oob\<close> is what a conversion of a float out of range gives, as in the executor. The clock
  reading of a check is an argument; the mutex makes a check one step.
\<close>

datatype RateLimitHeaderStyle =
    RateLimitHeaderStyleSeconds | RateLimitHeaderStyleDate | RateLimitHeaderStyleDraft | RateLimitHeaderStyleLegacy | RateLimitHeaderStyleAll

record RateLimiter =
  rl_limit :: int
  rl_window :: Duration
  rl_headerStyle :: RateLimitHeaderStyle
  rl_count :: int
  rl_resetAt :: Time

definition NewRateLimiter :: "int \<Rightarrow> Duration \<Rightarrow> RateLimitHeaderStyle \<Rightarrow> Time \<Rightarrow> RateLimiter" where
  "NewRateLimiter requestsPerWindow window style now =
     \<lparr>rl_limit = requestsPerWindow, rl_window = window, rl_headerStyle = style, rl_count = 0, rl_resetAt = time_add now window\<rparr>"

fun f_ceil :: "f64 \<Rightarrow> f64" where
  "f_ceil (F_Fin x) = F_Fin (of_int \<lceil>x\<rceil>)"
| "f_ceil a = a"

text \<open>\<^verbatim>\<open>Time.Unix\<close>.\<close>

definition unix_seconds :: "Time \<Rightarrow> int" where
  "unix_seconds t = t div 1000000000 - 62135596800"

definition reset_in :: "(f64 \<Rightarrow> int) \<Rightarrow> Time \<Rightarrow> Time \<Rightarrow> int" where
  "reset_in oob resetAt now = (let resetSeconds = f_to_int64 oob (f_ceil (Seconds (time_sub resetAt now))) in
     if resetSeconds < 1 then 1 else resetSeconds)"

definition policy_text :: "(f64 \<Rightarrow> int) \<Rightarrow> RateLimiter \<Rightarrow> string" where
  "policy_text oob rl = Itoa (rl_limit rl) @ '';w='' @ Itoa (f_to_int64 oob (Seconds (rl_window rl)))"

definition draft_headers :: "(f64 \<Rightarrow> int) \<Rightarrow> RateLimiter \<Rightarrow> int \<Rightarrow> int \<Rightarrow> http_Header \<Rightarrow> http_Header" where
  "draft_headers oob rl remaining resetSeconds h =
     header_Set ''RateLimit-Policy'' (policy_text oob rl) (header_Set ''RateLimit-Reset'' (Itoa resetSeconds)
     (header_Set ''RateLimit-Remaining'' (Itoa remaining) (header_Set ''RateLimit-Limit'' (Itoa (rl_limit rl)) h)))"

definition legacy_headers :: "RateLimiter \<Rightarrow> int \<Rightarrow> Time \<Rightarrow> http_Header \<Rightarrow> http_Header" where
  "legacy_headers rl remaining resetAt h =
     header_Set ''X-RateLimit-Reset'' (Itoa (unix_seconds resetAt))
     (header_Set ''X-RateLimit-Remaining'' (Itoa remaining) (header_Set ''X-RateLimit-Limit'' (Itoa (rl_limit rl)) h))"

definition populateHeaders :: "(f64 \<Rightarrow> int) \<Rightarrow> (Time \<Rightarrow> string) \<Rightarrow> RateLimiter \<Rightarrow> int \<Rightarrow> int \<Rightarrow> Time \<Rightarrow> http_Header" where
  "populateHeaders oob FormatTime rl remaining resetSeconds resetAt =
     (let retry = (\<lambda>h. if remaining = 0 then header_Set ''Retry-After'' (Itoa resetSeconds) h else h) in
      case rl_headerStyle rl of
        RateLimitHeaderStyleSeconds \<Rightarrow> retry []
      | RateLimitHeaderStyleDate \<Rightarrow> if remaining = 0 then header_Set ''Retry-After'' (FormatTime resetAt) [] else []
      | RateLimitHeaderStyleDraft \<Rightarrow> retry (draft_headers oob rl remaining resetSeconds [])
      | RateLimitHeaderStyleLegacy \<Rightarrow> retry (legacy_headers rl remaining resetAt [])
      | RateLimitHeaderStyleAll \<Rightarrow>
          legacy_headers rl remaining resetAt (draft_headers oob rl remaining resetSeconds (header_Set ''Retry-After'' (Itoa resetSeconds) [])))"

definition rl_Check :: "(f64 \<Rightarrow> int) \<Rightarrow> (Time \<Rightarrow> string) \<Rightarrow> Time \<Rightarrow> RateLimiter \<Rightarrow> RateLimiter \<times> bool \<times> http_Header" where
  "rl_Check oob FormatTime now rl =
     (let rl = (if now \<ge> rl_resetAt rl then rl\<lparr>rl_count := 0, rl_resetAt := time_add now (rl_window rl)\<rparr> else rl);
          resetSeconds = reset_in oob (rl_resetAt rl) now
      in if rl_count rl \<ge> rl_limit rl then (rl, False, populateHeaders oob FormatTime rl 0 resetSeconds (rl_resetAt rl))
         else let rl = rl\<lparr>rl_count := rl_count rl + 1\<rparr> in
           (rl, True, populateHeaders oob FormatTime rl (rl_limit rl - rl_count rl) resetSeconds (rl_resetAt rl)))"

section \<open>Properties\<close>

subsection \<open>Requests per window\<close>

fun rl_run :: "(f64 \<Rightarrow> int) \<Rightarrow> (Time \<Rightarrow> string) \<Rightarrow> Time list \<Rightarrow> RateLimiter \<Rightarrow> RateLimiter \<times> bool list" where
  "rl_run oob F [] rl = (rl, [])"
| "rl_run oob F (t # ts) rl = (case rl_Check oob F t rl of (rl', ok, _) \<Rightarrow> (case rl_run oob F ts rl' of (rl'', oks) \<Rightarrow> (rl'', ok # oks)))"

lemma rl_run_within:
  assumes "list_all (\<lambda>t. t < rl_resetAt rl) ts" "0 \<le> rl_count rl" "rl_count rl \<le> rl_limit rl"
  shows "snd (rl_run oob F ts rl) = map (\<lambda>k. int k < rl_limit rl - rl_count rl) [0 ..< length ts]"
  using assms
proof (induction ts arbitrary: rl)
  case (Cons t ts)
  have shift: "map f [0 ..< length (t # ts)] = f 0 # map (\<lambda>k. f (k + 1)) [0 ..< length ts]" for f :: "nat \<Rightarrow> bool"
    by (simp add: upt_conv_Cons map_Suc_upt [symmetric] del: upt_Suc)
  show ?case
  proof (cases "rl_count rl < rl_limit rl")
    case True
    let ?rl = "rl\<lparr>rl_count := rl_count rl + 1\<rparr>"
    have "snd (rl_run oob F ts ?rl) = map (\<lambda>k. int k < rl_limit rl - rl_count rl - 1) [0 ..< length ts]"
      using Cons.IH [of ?rl] Cons.prems True by (simp add: algebra_simps)
    then have "snd (rl_run oob F (t # ts) rl) = True # map (\<lambda>k. int k < rl_limit rl - rl_count rl - 1) [0 ..< length ts]"
      using Cons.prems True by (simp add: rl_Check_def Let_def case_prod_beta)
    then show ?thesis unfolding shift using True by (simp add: algebra_simps)
  next
    case False
    have "snd (rl_run oob F ts rl) = map (\<lambda>k. int k < rl_limit rl - rl_count rl) [0 ..< length ts]"
      using Cons by simp
    then have "snd (rl_run oob F (t # ts) rl) = False # map (\<lambda>k. int k < rl_limit rl - rl_count rl) [0 ..< length ts]"
      using Cons.prems False by (simp add: rl_Check_def Let_def case_prod_beta)
    then show ?thesis unfolding shift using False by simp
  qed
qed simp

text \<open>Within a window the limiter allows exactly the first requests up to its limit and refuses all others, and a request at or
  after the reset time opens a new window.\<close>

lemma limiter_exact:
  assumes "0 \<le> rl_limit rl" "rl_resetAt rl \<le> t" "list_all (\<lambda>u. u < t + rl_window rl) ts" "0 < rl_window rl"
  shows "snd (rl_run oob F (t # ts) rl) = map (\<lambda>k. int k < rl_limit rl) [0 ..< length (t # ts)]"
proof -
  let ?rl = "rl\<lparr>rl_count := 0, rl_resetAt := t + rl_window rl\<rparr>"
  have "rl_run oob F (t # ts) rl = rl_run oob F (t # ts) ?rl"
    using assms(2,4) by (simp add: rl_Check_def Let_def time_add_def)
  then show ?thesis using rl_run_within [of ?rl "t # ts" oob F] assms by simp
qed

lemma limiter_exact_witness:
  "snd (rl_run (\<lambda>_. 0) (\<lambda>_. '''') [100, 101, 102] (NewRateLimiter 2 10 RateLimitHeaderStyleDraft 0)) = [True, True, False]"
proof -
  have "map (\<lambda>k. int k < 2) [0 ..< length [100 :: int, 101, 102]] = [True, True, False]" by code_simp
  then show ?thesis
    using limiter_exact [of "NewRateLimiter 2 10 RateLimitHeaderStyleDraft 0" 100 "[101, 102]" "\<lambda>_. 0" "\<lambda>_. ''''"]
    by (simp add: NewRateLimiter_def time_add_def del: rl_run.simps)
qed

subsection \<open>Decimal numbers read as floats\<close>

lemma scan_mantissa_digits:
  "read_digits a s = Some n \<Longrightarrow> CHR ''_'' \<notin> set s \<Longrightarrow> CHR ''.'' \<notin> set s \<Longrightarrow>
     scan_mantissa False \<lparr>m_val = a, m_frac = 0, m_dot = False, m_digits = b, m_under = False\<rparr> s =
       (\<lparr>m_val = n, m_frac = 0, m_dot = False, m_digits = b \<or> s \<noteq> [], m_under = False\<rparr>, [])"
proof (induction s arbitrary: a b)
  case (Cons c s)
  then obtain d where d: "digit_val c = Some d" "read_digits (10 * a + d) s = Some n" by (auto split: option.splits)
  then show ?case using Cons.IH [OF d(2), of True] Cons.prems by (auto simp: mant_digit_def)
qed simp

lemma ParseFloat_Itoa:
  assumes "0 \<le> n" "n < 2 ^ 53"
  shows "ParseFloat (Itoa n) = Some (F_Fin (of_int n))"
proof -
  let ?s = "Itoa n"
  have digits: "c \<in> set ?s \<Longrightarrow> c \<in> set ''0123456789''" for c using Itoa_digits assms(1) .
  obtain c t where s: "?s = c # t" by (metis list.exhaust Itoa_not_Nil)
  have c: "c \<in> set ''0123456789''" using digits s by simp
  then have sign: "strip_sign ?s = (False, ?s)" unfolding s by (auto simp: strip_sign_def)
  have lower: "lower_char d = d \<and> d \<noteq> CHR ''x'' \<and> d \<noteq> CHR ''i'' \<and> d \<noteq> CHR ''n''" if "d \<in> set ''0123456789''" for d
  proof -
    have "list_all (\<lambda>d. lower_char d = d \<and> d \<noteq> CHR ''x'' \<and> d \<noteq> CHR ''i'' \<and> d \<noteq> CHR ''n'') ''0123456789''" by code_simp
    then show ?thesis using that unfolding list_all_iff by blast
  qed
  have low: "map lower_char ?s \<noteq> x # xs" if "x = CHR ''i'' \<or> x = CHR ''n''" for x xs
    using lower [OF c] that unfolding s by auto
  have special: "special_float ?s = None" using sign low by (auto simp: special_float_def)
  have "lower_char (?s ! 1) \<noteq> CHR ''x''" if "2 < length ?s"
  proof -
    have "?s ! 1 \<in> set ''0123456789''" using that by (intro digits nth_mem) simp
    then show ?thesis using lower by metis
  qed
  then have hex: "(2 < length ?s \<and> ?s ! 0 = CHR ''0'' \<and> lower_char (?s ! 1) = CHR ''x'') = False" by blast
  have "read_digits 0 ?s = Some n" using assms(1) read_dec_string by (simp add: Itoa_def)
  moreover have "CHR ''_'' \<notin> set ?s" "CHR ''.'' \<notin> set ?s" using digits by fastforce+
  ultimately have scan: "scan_mantissa False \<lparr>m_val = 0, m_frac = 0, m_dot = False, m_digits = False, m_under = False\<rparr> ?s =
      (\<lparr>m_val = n, m_frac = 0, m_dot = False, m_digits = True, m_under = False\<rparr>, [])"
    using scan_mantissa_digits [of 0 ?s n False] by simp
  have "read_float ?s = Some (of_int n)"
    unfolding read_float_def sign Let_def case_prod_conv hex if_False scan by (simp add: scale_float_def)
  then show ?thesis using special rnd_of_int [of n] assms by (simp add: ParseFloat_def)
qed

subsection \<open>The headers, read back by the executor\<close>

lemma numeric_Itoa:
  assumes "0 \<le> n" "n < 2 ^ 53"
  shows "parseRateLimitNumeric oob (Itoa n) = Some n"
proof -
  have "c \<in> set (Itoa n) \<Longrightarrow> c \<notin> set '',;''" for c using Itoa_digits [OF assms(1), of c] by auto
  then have "\<not> list_ex (\<lambda>c. c \<in> set '',;'') (Itoa n)" unfolding list_ex_iff by blast
  then show ?thesis using ParseFloat_Itoa [OF assms] assms
    by (simp add: parseRateLimitNumeric_def Let_def rat_trunc_def)
qed

lemma observed_Itoa:
  "0 \<le> n \<Longrightarrow> n < 2 ^ 53 \<Longrightarrow> rate_numeric oob name (Some (Itoa n)) = (Some n, [observation name (Some (Itoa n))])"
  by (simp add: rate_numeric_def parseObservedNumeric_def numeric_Itoa nonneg_def)

lemma reset_Itoa:
  "0 \<le> n \<Longrightarrow> n \<le> rateLimitEpochThreshold \<Longrightarrow> rate_reset oob P F (Some (Itoa n)) = (Some n, None, [observation ''reset'' (Some (Itoa n))])"
  "rateLimitEpochThreshold < n \<Longrightarrow> n < 2 ^ 53 \<Longrightarrow>
     rate_reset oob P F (Some (Itoa n)) = (None, Some (time_Unix n), [observation ''reset'' (Some (F (time_Unix n)))])"
  by (simp_all add: rate_reset_def numeric_Itoa nonneg_def rateLimitEpochThreshold_def)

lemma retry_Itoa:
  "0 \<le> n \<Longrightarrow> int64 n \<Longrightarrow> header_Get h ''Retry-After'' = Itoa n \<Longrightarrow>
     retry_after P F h = (Some n, None, [observation ''retry_after'' (Some (Itoa n))])"
  by (simp add: retry_after_def TrimSpace_Itoa ParseInt_Itoa nonneg_def Let_def)

lemma header_keys:
  "CanonicalHeaderKey ''RateLimit-Limit'' = ''Ratelimit-Limit''" "CanonicalHeaderKey ''X-RateLimit-Limit'' = ''X-Ratelimit-Limit''"
  "CanonicalHeaderKey ''RateLimit-Remaining'' = ''Ratelimit-Remaining''" "CanonicalHeaderKey ''X-RateLimit-Remaining'' = ''X-Ratelimit-Remaining''"
  "CanonicalHeaderKey ''RateLimit-Reset'' = ''Ratelimit-Reset''" "CanonicalHeaderKey ''X-RateLimit-Reset'' = ''X-Ratelimit-Reset''"
  "CanonicalHeaderKey ''RateLimit-Policy'' = ''Ratelimit-Policy''" "CanonicalHeaderKey ''Retry-After'' = ''Retry-After''"
  by code_simp+

text \<open>Which numbers the limiter can announce without loss.\<close>

definition announceable :: "(f64 \<Rightarrow> int) \<Rightarrow> Time \<Rightarrow> RateLimiter \<Rightarrow> bool" where
  "announceable oob now rl \<longleftrightarrow> 0 \<le> rl_limit rl \<and> rl_limit rl < 2 ^ 53 \<and> 0 \<le> rl_count rl
     \<and> rateLimitEpochThreshold < unix_seconds (rl_resetAt rl) \<and> unix_seconds (rl_resetAt rl) < 2 ^ 53
     \<and> reset_in oob (rl_resetAt rl) now \<le> rateLimitEpochThreshold"

text \<open>What the executor understands of a set of headers.\<close>

definition understood :: "(f64 \<Rightarrow> int) \<Rightarrow> (string \<Rightarrow> Time option) \<Rightarrow> (Time \<Rightarrow> string) \<Rightarrow> http_Header \<Rightarrow> RateLimitInfo" where
  "understood oob P F h = the (ExtractRateLimitInfo oob P F (Some h))"

lemma ExtractRateLimitInfo_fields:
  assumes "rate_numeric oob ''limit'' (preferredHeader h ''RateLimit-Limit'' ''X-RateLimit-Limit'') = (Some l, [ob])"
  shows "Limit (understood oob P F h) = Some l"
    "Remaining (understood oob P F h) = fst (rate_numeric oob ''remaining'' (preferredHeader h ''RateLimit-Remaining'' ''X-RateLimit-Remaining''))"
    "ResetSeconds (understood oob P F h) = fst (rate_reset oob P F (preferredHeader h ''RateLimit-Reset'' ''X-RateLimit-Reset''))"
    "ResetDate (understood oob P F h) = fst (snd (rate_reset oob P F (preferredHeader h ''RateLimit-Reset'' ''X-RateLimit-Reset'')))"
    "RetryAfterSeconds (understood oob P F h) = fst (retry_after P F h)"
  using assms by (simp_all add: understood_def ExtractRateLimitInfo_def Let_def split: prod.splits)

lemma time_Unix_seconds:
  assumes "\<bar>unix_seconds t\<bar> < 2 ^ 53"
  shows "time_Unix (unix_seconds t) = t - t mod 1000000000"
proof -
  have "wrap64 (unix_seconds t + 62135596800) = t div 1000000000"
    using assms by (subst wrap64_id) (auto simp: int64_def unix_seconds_def)
  then show ?thesis by (simp add: time_Unix_def minus_mod_eq_div_mult)
qed

text \<open>The headers of the draft, legacy and combined styles.\<close>

definition speaks_limits :: "RateLimitHeaderStyle \<Rightarrow> bool" where
  "speaks_limits style \<longleftrightarrow> style \<in> {RateLimitHeaderStyleDraft, RateLimitHeaderStyleLegacy, RateLimitHeaderStyleAll}"

lemma populated_headers:
  assumes "speaks_limits (rl_headerStyle rl)" "0 \<le> remaining" "0 \<le> rl_limit rl" "0 \<le> resetSeconds" "0 \<le> unix_seconds resetAt"
    and h: "h = populateHeaders oob F rl remaining resetSeconds resetAt"
  shows "preferredHeader h ''RateLimit-Limit'' ''X-RateLimit-Limit'' = Some (Itoa (rl_limit rl))"
    "preferredHeader h ''RateLimit-Remaining'' ''X-RateLimit-Remaining'' = Some (Itoa remaining)"
    "preferredHeader h ''RateLimit-Reset'' ''X-RateLimit-Reset'' =
       Some (Itoa (if rl_headerStyle rl = RateLimitHeaderStyleLegacy then unix_seconds resetAt else resetSeconds))"
    "remaining = 0 \<Longrightarrow> header_Get h ''Retry-After'' = Itoa resetSeconds"
  using assms(1-5) unfolding h speaks_limits_def
  by (auto simp: populateHeaders_def draft_headers_def legacy_headers_def preferredHeader_def header_Get_def header_Set_def header_keys
      TrimSpace_Itoa Let_def)

text \<open>C40. The executor reads back what the limiter of the test target announces: the limit, what remains of it after this request,
  the reset as the seconds announced or, in the legacy style, as the reset time to the second, and the seconds to wait when
  nothing remains.\<close>

theorem headers_understood:
  assumes "rl_Check oob F now rl = (rl', allowed, h)" "speaks_limits (rl_headerStyle rl)" "announceable oob now rl'"
  shows "let info = understood oob P F h; remaining = (if allowed then rl_limit rl' - rl_count rl' else 0) in
    Limit info = Some (rl_limit rl) \<and> Remaining info = Some remaining
    \<and> (if rl_headerStyle rl = RateLimitHeaderStyleLegacy then ResetSeconds info = None \<and> ResetDate info = Some (rl_resetAt rl' - rl_resetAt rl' mod 1000000000)
       else ResetSeconds info = Some (reset_in oob (rl_resetAt rl') now) \<and> ResetDate info = None)
    \<and> (remaining = 0 \<longrightarrow> RetryAfterSeconds info = Some (reset_in oob (rl_resetAt rl') now))"
proof -
  define remaining where "remaining = (if allowed then rl_limit rl' - rl_count rl' else 0)"
  let ?reset = "reset_in oob (rl_resetAt rl') now"
  have rl': "rl_limit rl' = rl_limit rl" "rl_headerStyle rl' = rl_headerStyle rl"
    and h: "h = populateHeaders oob F rl' remaining ?reset (rl_resetAt rl')" and rem: "0 \<le> remaining" "remaining \<le> rl_limit rl'"
    using assms(1,3) by (auto simp: rl_Check_def Let_def remaining_def announceable_def split: if_splits)
  have a: "0 \<le> rl_limit rl'" "rl_limit rl' < 2 ^ 53" "rateLimitEpochThreshold < unix_seconds (rl_resetAt rl')"
    "unix_seconds (rl_resetAt rl') < 2 ^ 53" "?reset \<le> rateLimitEpochThreshold" using assms(3) by (auto simp: announceable_def)
  have reset: "0 \<le> ?reset" "int64 ?reset" using a(5) by (auto simp: reset_in_def Let_def int64_def rateLimitEpochThreshold_def)
  have u: "0 \<le> unix_seconds (rl_resetAt rl')" "\<bar>unix_seconds (rl_resetAt rl')\<bar> < 2 ^ 53" using a(3,4) by (auto simp: rateLimitEpochThreshold_def)
  note hs = populated_headers [OF assms(2) [folded rl'(2)] rem(1) a(1) reset(1) u(1) h]
  note fields = ExtractRateLimitInfo_fields [OF observed_Itoa [OF a(1,2), where name = "''limit''" and oob = oob, folded hs(1)]]
  have retry: "remaining = 0 \<Longrightarrow> RetryAfterSeconds (understood oob P F h) = Some ?reset"
    using retry_Itoa [OF reset hs(4)] fields(5) by simp
  have "Remaining (understood oob P F h) = Some remaining"
    using observed_Itoa [of remaining oob "''remaining''"] rem a(2) fields(2) hs(2) by simp
  moreover have "if rl_headerStyle rl = RateLimitHeaderStyleLegacy
      then ResetSeconds (understood oob P F h) = None \<and> ResetDate (understood oob P F h) = Some (rl_resetAt rl' - rl_resetAt rl' mod 1000000000)
      else ResetSeconds (understood oob P F h) = Some ?reset \<and> ResetDate (understood oob P F h) = None"
    using fields(3,4) hs(3) reset_Itoa(1) [OF reset(1) a(5)] reset_Itoa(2) [OF a(3,4)] time_Unix_seconds [OF u(2)] rl' by simp
  ultimately show ?thesis using fields(1) retry rl' unfolding remaining_def [symmetric] by (simp add: Let_def)
qed

definition sample_now :: Time where "sample_now = (62135596800 + 1700000000) * 1000000000"

definition sample_limiter :: RateLimiter where
  "sample_limiter = NewRateLimiter 1 10000000000 RateLimitHeaderStyleDraft sample_now"

lemma sample_check:
  "let (rl', allowed, h) = rl_Check (\<lambda>_. 0) (\<lambda>_. '''') sample_now sample_limiter in
     allowed \<and> rl_limit rl' - rl_count rl' = 0 \<and> announceable (\<lambda>_. 0) sample_now rl' \<and> reset_in (\<lambda>_. 0) (rl_resetAt rl') sample_now = 10"
  by code_simp

theorem headers_understood_witness:
  "\<exists>rl' h. rl_Check (\<lambda>_. 0) (\<lambda>_. '''') sample_now sample_limiter = (rl', True, h)
     \<and> RetryAfterSeconds (understood (\<lambda>_. 0) (\<lambda>_. None) (\<lambda>_. '''') h) = Some 10"
proof -
  obtain rl' allowed h where c: "rl_Check (\<lambda>_. 0) (\<lambda>_. '''') sample_now sample_limiter = (rl', allowed, h)" by (metis surj_pair)
  have s: "allowed" "rl_limit rl' - rl_count rl' = 0" "announceable (\<lambda>_. 0) sample_now rl'" "reset_in (\<lambda>_. 0) (rl_resetAt rl') sample_now = 10"
    using sample_check unfolding c by simp_all
  have "speaks_limits (rl_headerStyle sample_limiter)" by (simp add: speaks_limits_def sample_limiter_def NewRateLimiter_def)
  from headers_understood [OF c this s(3), of "\<lambda>_. None"] show ?thesis using c s by (simp add: Let_def)
qed

end
