(* ===== verification/Report_Model.thy ===== *)
theory Report_Model
  imports Http_Executor
begin

text \<open>
  The report of a run, \<^verbatim>\<open>internal/report/types.go\<close>, \<^verbatim>\<open>builder.go\<close> and \<^verbatim>\<open>phase6.go\<close>.

  \<open>patterns\<close> and \<open>shuffle\<close> are the parameters of \<open>RedactString\<close>. A map of outcomes is the function that reads it, so that an
  empty map is the constant 0. The build metadata, which the linker and the runtime set, are a record the builder copies. The
  aggregates of a run share no slice, as every merge copies the samples, so redaction in place is the same as redaction of a copy.
  Writing the report as JSON and printing it are not modelled.
\<close>

section \<open>Reports\<close>

definition ExpectedReportSchemaVersion :: int where "ExpectedReportSchemaVersion = 1"
definition ProfileReportSchemaVersion :: int where "ProfileReportSchemaVersion = 2"

record StepReport =
  sr_Name :: string
  sr_URL :: string
  sr_Method :: string
  sr_RequestCounts :: RequestCounts
  sr_Outcomes :: "Outcome \<Rightarrow> int"
  sr_StatusCodes :: "(string \<times> int) list"
  sr_Latency :: LatencySummary
  sr_AchievedStartRPS :: f64
  sr_CompletedThroughput :: f64
  sr_ErrorRate :: f64

record ScenarioReport =
  sc_rep_Name :: string
  sc_rep_Iterations :: ScenarioIterationCounts
  sc_rep_Steps :: "StepReport list"

record AuthReportSummary =
  as_AuthMode :: string
  as_TokenCount :: int
  as_CookieJarEnabled :: bool

record MetricsSummary =
  ms_RequestCounts :: RequestCounts
  ms_Outcomes :: "Outcome \<Rightarrow> int"
  ms_StatusCodes :: "(string \<times> int) list"
  ms_Latency :: LatencySummary
  ms_RateLimits :: RateLimitObservations
  ms_AchievedStartRPS :: f64
  ms_CompletedThroughput :: f64
  ms_ErrorRate :: f64
  ms_RateLimitedRate :: f64

record SegmentReport =
  sg_Segment :: Segment
  sg_Metrics :: MetricsSummary
  sg_Calibration :: Calibration

record FirstThrottleObservation =
  ft_SegmentIndex :: int
  ft_SegmentName :: string
  ft_Stage :: string
  ft_TargetRPS :: f64
  ft_PlannedOffsetMS :: int

record build_info =
  bi_DaegsaVersion :: string
  bi_Commit :: string
  bi_BuildDate :: string
  bi_OS :: string
  bi_Arch :: string

record Report =
  rp_ReportSchemaVersion :: int
  rp_Build :: build_info
  rp_ConfigFingerprint :: string
  rp_StartTimeUTC :: Time
  rp_EndTimeUTC :: Time
  rp_DurationMS :: int
  rp_WorkloadModel :: string
  rp_RequestCounts :: RequestCounts
  rp_Outcomes :: "Outcome \<Rightarrow> int"
  rp_StatusCodes :: "(string \<times> int) list"
  rp_Latency :: LatencySummary
  rp_RateLimits :: RateLimitObservations
  rp_GeneratorHealth :: GeneratorHealth
  rp_Auth :: "AuthReportSummary option"
  rp_Scenario :: "ScenarioReport option"
  rp_Thresholds :: "ReportResult list"
  rp_Incomplete :: bool
  rp_CompiledSegments :: "Segment list"
  rp_Segments :: "SegmentReport list"
  rp_MeasuredSummary :: "MetricsSummary option"
  rp_FirstThrottle :: "FirstThrottleObservation option"
  rp_Calibration :: "Calibration option"

text \<open>The zero values of the structures a report holds.\<close>

definition zero_percentiles :: LatencyPercentiles where
  "zero_percentiles = \<lparr>lp_MinMS = f0, lp_MaxMS = f0, lp_MeanMS = f0, lp_P50MS = f0, lp_P90MS = f0, lp_P95MS = f0, lp_P99MS = f0\<rparr>"

definition zero_latency :: LatencySummary where
  "zero_latency = \<lparr>AllCompleted = zero_percentiles, ExpectedSuccess = zero_percentiles\<rparr>"

definition zero_limits :: RateLimitObservations where
  "zero_limits = \<lparr>Observed429Count = 0, RetryAfterSamples = [], RateLimitHeaders = [], rl_HeaderConsistency = []\<rparr>"

definition zero_health :: GeneratorHealth where
  "zero_health = \<lparr>gh_CPUAvailable = False, gh_CPUMaxPercent = f0, gh_GoroutinesPeak = 0, gh_SchedulerLagMaxMS = f0, gh_SaturationWarnings = []\<rparr>"

definition zero_iterations :: ScenarioIterationCounts where
  "zero_iterations = \<lparr>si_Planned = 0, si_Started = 0, si_Completed = 0, si_Failed = 0\<rparr>"

section \<open>Redaction of what the target sent (phase6.go)\<close>

definition redact_header_sample :: "(string \<Rightarrow> string) \<Rightarrow> (string list \<Rightarrow> string list) \<Rightarrow> string list \<Rightarrow> RateLimitHeaderSample \<Rightarrow> RateLimitHeaderSample" where
  "redact_header_sample patterns shuffle secrets h =
     \<lparr>hs_Limit = RedactString patterns shuffle (hs_Limit h) secrets, hs_Remaining = RedactString patterns shuffle (hs_Remaining h) secrets,
      hs_Reset = RedactString patterns shuffle (hs_Reset h) secrets, hs_Policy = RedactString patterns shuffle (hs_Policy h) secrets\<rparr>"

definition redactRateLimitObservations ::
  "(string \<Rightarrow> string) \<Rightarrow> (string list \<Rightarrow> string list) \<Rightarrow> Plan option \<Rightarrow> RateLimitObservations \<Rightarrow> RateLimitObservations" where
  "redactRateLimitObservations patterns shuffle po obs = (case po of
       None \<Rightarrow> obs
     | Some p \<Rightarrow>
         let redact = (\<lambda>s. RedactString patterns shuffle s (pl_KnownSecrets p)) in
         obs\<lparr>RetryAfterSamples := map redact (RetryAfterSamples obs),
             rl_HeaderConsistency := map (\<lambda>(name, c). (name, c\<lparr>hc_Samples := map redact (hc_Samples c)\<rparr>)) (rl_HeaderConsistency obs),
             RateLimitHeaders := map (redact_header_sample patterns shuffle (pl_KnownSecrets p)) (RateLimitHeaders obs)\<rparr>)"

definition metricsSummary ::
  "(string \<Rightarrow> string) \<Rightarrow> (string list \<Rightarrow> string list) \<Rightarrow> Plan option \<Rightarrow> 'h agg \<Rightarrow> MetricsSummary" where
  "metricsSummary patterns shuffle po aggregate = (let a = ag aggregate in
     \<lparr>ms_RequestCounts = ag_RequestCounts a, ms_Outcomes = ag_Outcomes a, ms_StatusCodes = ag_StatusCodes a, ms_Latency = ag_Latency a,
      ms_RateLimits = redactRateLimitObservations patterns shuffle po (ag_RateLimits a),
      ms_AchievedStartRPS = AchievedStartRPS a, ms_CompletedThroughput = CompletedThroughput a,
      ms_ErrorRate = ErrorRate a, ms_RateLimitedRate = RateLimitedRate a\<rparr>)"

section \<open>Segments (phase6.go)\<close>

text \<open>The local variables of the loop over the segments.\<close>

record phase6_state =
  p6_segments :: "SegmentReport list"
  p6_first :: "FirstThrottleObservation option"
  p6_weightedTarget :: f64
  p6_measuredSeconds :: f64

definition throttle_candidate :: "Segment \<Rightarrow> 'h agg \<Rightarrow> FirstThrottleObservation" where
  "throttle_candidate seg a = \<lparr>ft_SegmentIndex = seg_Index seg, ft_SegmentName = seg_Name seg, ft_Stage = seg_Stage seg,
     ft_TargetRPS = seg_TargetRPS seg, ft_PlannedOffsetMS = Milliseconds (ag_FirstThrottleOffsetNS (ag a))\<rparr>"

definition earlier_throttle :: "FirstThrottleObservation option \<Rightarrow> Segment \<Rightarrow> 'h agg \<Rightarrow> FirstThrottleObservation option" where
  "earlier_throttle first seg a =
     (if ag_FirstThrottleOffsetNS (ag a) \<ge> 0 then
        let candidate = throttle_candidate seg a in
        case first of
          None \<Rightarrow> Some candidate
        | Some f \<Rightarrow> if ft_PlannedOffsetMS candidate < ft_PlannedOffsetMS f then Some candidate else first
      else first)"

definition phase6_segment ::
  "(string \<Rightarrow> string) \<Rightarrow> (string list \<Rightarrow> string list) \<Rightarrow> Plan \<Rightarrow> phase6_state \<Rightarrow> Segment \<times> 'h agg \<times> Calibration \<Rightarrow> phase6_state" where
  "phase6_segment patterns shuffle p s segmentMetrics = (case segmentMetrics of (seg, a, cal) \<Rightarrow>
     let seconds = Seconds (seg_Duration seg) in
     \<lparr>p6_segments = p6_segments s @ [\<lparr>sg_Segment = seg, sg_Metrics = metricsSummary patterns shuffle (Some p) a, sg_Calibration = cal\<rparr>],
      p6_first = earlier_throttle (p6_first s) seg a,
      p6_weightedTarget = (if seg_IncludedMeasured seg then fadd (p6_weightedTarget s) (fmul (seg_TargetRPS seg) seconds) else p6_weightedTarget s),
      p6_measuredSeconds = (if seg_IncludedMeasured seg then fadd (p6_measuredSeconds s) seconds else p6_measuredSeconds s)\<rparr>)"

definition buildPhase6Report ::
  "(string \<Rightarrow> string) \<Rightarrow> (string list \<Rightarrow> string list) \<Rightarrow> Plan option \<Rightarrow> 'h agg option \<Rightarrow> Report \<Rightarrow> Report" where
  "buildPhase6Report patterns shuffle po ao rep = (case (po, ao) of
       (Some p, Some aggregate) \<Rightarrow>
         if pl_SchemaVersion p < ExpectedSchemaVersion then rep
         else
           let s = foldl (phase6_segment patterns shuffle p) \<lparr>p6_segments = [], p6_first = None, p6_weightedTarget = f0, p6_measuredSeconds = f0\<rparr>
                     (ag_Segments aggregate);
               weightedTarget = (if p6_measuredSeconds s > F_Fin 0 then fdiv (p6_weightedTarget s) (p6_measuredSeconds s) else p6_weightedTarget s)
           in rep\<lparr>rp_ReportSchemaVersion := ProfileReportSchemaVersion, rp_CompiledSegments := pl_CompiledSegments p,
                  rp_Segments := p6_segments s, rp_MeasuredSummary := map_option (metricsSummary patterns shuffle (Some p)) (Measured aggregate),
                  rp_FirstThrottle := p6_first s, rp_Calibration := Some (BuildCalibration weightedTarget (Measured aggregate))\<rparr>
     | _ \<Rightarrow> rep)"

section \<open>The builder (builder.go)\<close>

definition step_report :: "'h agg option \<Rightarrow> CompiledStep \<Rightarrow> StepReport" where
  "step_report ao step = (case (case ao of None \<Rightarrow> None | Some g \<Rightarrow> map_of (Steps g) (cs_Name step)) of
       None \<Rightarrow> \<lparr>sr_Name = cs_Name step, sr_URL = cs_URL step, sr_Method = cs_Method step, sr_RequestCounts = zero_counts,
          sr_Outcomes = (\<lambda>_. 0), sr_StatusCodes = [], sr_Latency = zero_latency, sr_AchievedStartRPS = f0, sr_CompletedThroughput = f0,
          sr_ErrorRate = f0\<rparr>
     | Some stepAgg \<Rightarrow> let a = ag stepAgg in
         \<lparr>sr_Name = cs_Name step, sr_URL = cs_URL step, sr_Method = cs_Method step, sr_RequestCounts = ag_RequestCounts a,
          sr_Outcomes = ag_Outcomes a, sr_StatusCodes = ag_StatusCodes a, sr_Latency = ag_Latency a, sr_AchievedStartRPS = AchievedStartRPS a,
          sr_CompletedThroughput = CompletedThroughput a, sr_ErrorRate = ErrorRate a\<rparr>)"

definition scenario_report :: "'h agg option \<Rightarrow> CompiledScenario \<Rightarrow> ScenarioReport" where
  "scenario_report ao sc = \<lparr>sc_rep_Name = sn_Name sc,
     sc_rep_Iterations = (case ao of None \<Rightarrow> zero_iterations | Some g \<Rightarrow> ag_ScenarioIterations (ag g)),
     sc_rep_Steps = map (step_report ao) (sn_Steps sc)\<rparr>"

text \<open>A plan always has an authenticator; the code's case for a plan without one is not reached.\<close>

definition auth_report :: "Plan \<Rightarrow> AuthReportSummary" where
  "auth_report p = \<lparr>as_AuthMode = authType (pl_Authenticator p), as_TokenCount = TokenCount (tokenProvider (pl_Authenticator p)),
     as_CookieJarEnabled = pl_CookieJarEnabled p\<rparr>"

definition BuildReport ::
  "(string \<Rightarrow> string) \<Rightarrow> (string list \<Rightarrow> string list) \<Rightarrow> build_info \<Rightarrow> Plan option \<Rightarrow> 'h agg option \<Rightarrow> GeneratorHealth option \<Rightarrow> Time \<Rightarrow> Time
     \<Rightarrow> bool \<Rightarrow> ReportResult list \<Rightarrow> Report" where
  "BuildReport patterns shuffle build po ao ho startT endT incomplete thresholdResults =
     (let durationMS = Milliseconds (time_sub endT startT);
          old = (case po of None \<Rightarrow> True | Some p \<Rightarrow> pl_SchemaVersion p < ExpectedSchemaVersion);
          limits = redactRateLimitObservations patterns shuffle po (case ao of None \<Rightarrow> zero_limits | Some g \<Rightarrow> ag_RateLimits (ag g));
          health = (case ho of None \<Rightarrow> zero_health | Some h \<Rightarrow> h)
      in buildPhase6Report patterns shuffle po ao
        \<lparr>rp_ReportSchemaVersion = ExpectedReportSchemaVersion, rp_Build = build,
         rp_ConfigFingerprint = (case po of None \<Rightarrow> '''' | Some p \<Rightarrow> pl_Fingerprint p), rp_StartTimeUTC = startT, rp_EndTimeUTC = endT,
         rp_DurationMS = (if durationMS < 0 then 0 else durationMS), rp_WorkloadModel = (case po of None \<Rightarrow> '''' | Some p \<Rightarrow> pl_Model p),
         rp_RequestCounts = (case ao of None \<Rightarrow> zero_counts | Some g \<Rightarrow> ag_RequestCounts (ag g)),
         rp_Outcomes = (case ao of None \<Rightarrow> (\<lambda>_. 0) | Some g \<Rightarrow> ag_Outcomes (ag g)),
         rp_StatusCodes = (case ao of None \<Rightarrow> [] | Some g \<Rightarrow> ag_StatusCodes (ag g)),
         rp_Latency = (case ao of None \<Rightarrow> zero_latency | Some g \<Rightarrow> ag_Latency (ag g)),
         rp_RateLimits = (if old then limits\<lparr>rl_HeaderConsistency := []\<rparr> else limits),
         rp_GeneratorHealth = (if old then health\<lparr>gh_CPUAvailable := False\<rparr> else health),
         rp_Auth = map_option auth_report po, rp_Scenario = Option.bind po (\<lambda>p. map_option (scenario_report ao) (pl_Scenario p)),
         rp_Thresholds = thresholdResults, rp_Incomplete = incomplete, rp_CompiledSegments = [], rp_Segments = [], rp_MeasuredSummary = None,
         rp_FirstThrottle = None, rp_Calibration = None\<rparr>)"

section \<open>Properties\<close>

subsection \<open>What the report shows of the target's answers\<close>

definition observation_texts :: "RateLimitObservations \<Rightarrow> string list" where
  "observation_texts obs = RetryAfterSamples obs @ concat (map (\<lambda>(name, c). hc_Samples c) (rl_HeaderConsistency obs))
     @ concat (map (\<lambda>h. [hs_Limit h, hs_Remaining h, hs_Reset h, hs_Policy h]) (RateLimitHeaders obs))"

definition report_texts :: "Report \<Rightarrow> string list" where
  "report_texts rep = observation_texts (rp_RateLimits rep) @ concat (map (\<lambda>s. observation_texts (ms_RateLimits (sg_Metrics s))) (rp_Segments rep))
     @ (case rp_MeasuredSummary rep of None \<Rightarrow> [] | Some m \<Rightarrow> observation_texts (ms_RateLimits m))"

lemma redacted_texts:
  "set (observation_texts (redactRateLimitObservations patterns shuffle (Some p) obs))
     = (\<lambda>s. RedactString patterns shuffle s (pl_KnownSecrets p)) ` set (observation_texts obs)"
  by (auto simp: observation_texts_def redactRateLimitObservations_def redact_header_sample_def Let_def split_beta)

lemma phase6_fold:
  "p6_segments (foldl (phase6_segment patterns shuffle p) s segs) = p6_segments s @ map (\<lambda>(seg, a, cal).
     \<lparr>sg_Segment = seg, sg_Metrics = metricsSummary patterns shuffle (Some p) a, sg_Calibration = cal\<rparr>) segs"
  "p6_first (foldl (phase6_segment patterns shuffle p) s segs) = foldl (\<lambda>f (seg, a, cal). earlier_throttle f seg a) (p6_first s) segs"
  by (induction segs arbitrary: s) (auto simp: phase6_segment_def Let_def)

lemmas report_defs = BuildReport_def buildPhase6Report_def Let_def

lemma old_texts: "set (observation_texts (obs\<lparr>rl_HeaderConsistency := []\<rparr>)) \<subseteq> set (observation_texts obs)"
  by (auto simp: observation_texts_def)

lemma BuildReport_limits:
  "rp_RateLimits (BuildReport patterns shuffle build (Some p) ao ho startT endT incomplete results) =
     (let limits = redactRateLimitObservations patterns shuffle (Some p) (case ao of None \<Rightarrow> zero_limits | Some g \<Rightarrow> ag_RateLimits (ag g))
      in if pl_SchemaVersion p < ExpectedSchemaVersion then limits\<lparr>rl_HeaderConsistency := []\<rparr> else limits)"
  by (cases ao) (simp_all add: report_defs)

lemma BuildReport_segments:
  "rp_Segments (BuildReport patterns shuffle build (Some p) ao ho startT endT incomplete results) =
     (case ao of None \<Rightarrow> [] | Some g \<Rightarrow> if pl_SchemaVersion p < ExpectedSchemaVersion then []
        else map (\<lambda>(seg, a, cal). \<lparr>sg_Segment = seg, sg_Metrics = metricsSummary patterns shuffle (Some p) a, sg_Calibration = cal\<rparr>) (ag_Segments g))"
  "rp_MeasuredSummary (BuildReport patterns shuffle build (Some p) ao ho startT endT incomplete results) =
     (case ao of None \<Rightarrow> None | Some g \<Rightarrow> if pl_SchemaVersion p < ExpectedSchemaVersion then None
        else map_option (metricsSummary patterns shuffle (Some p)) (Measured g))"
  by (cases ao; simp add: report_defs phase6_fold)+

lemma report_texts_redacted:
  assumes "t \<in> set (report_texts (BuildReport patterns shuffle build (Some p) ao ho startT endT incomplete results))"
  shows "\<exists>s. t = RedactString patterns shuffle s (pl_KnownSecrets p)"
proof -
  have limits: "\<exists>s. t = RedactString patterns shuffle s (pl_KnownSecrets p)"
    if "t \<in> set (observation_texts (redactRateLimitObservations patterns shuffle (Some p) obs))" for obs
    using that by (auto simp: redacted_texts)
  show ?thesis
    using assms limits old_texts
    by (auto simp: report_texts_def BuildReport_limits BuildReport_segments metricsSummary_def Let_def split: option.splits if_splits
        dest!: sym [of "Some _"])
qed


subsection \<open>The first throttling\<close>

definition throttled :: "Segment \<times> 'h agg \<times> Calibration \<Rightarrow> bool" where
  "throttled x = (case x of (seg, a, cal) \<Rightarrow> ag_FirstThrottleOffsetNS (ag a) \<ge> 0)"

definition throttle_ms :: "Segment \<times> 'h agg \<times> Calibration \<Rightarrow> int" where
  "throttle_ms x = (case x of (seg, a, cal) \<Rightarrow> Milliseconds (ag_FirstThrottleOffsetNS (ag a)))"

definition is_first_throttle :: "(Segment \<times> 'h agg \<times> Calibration) list \<Rightarrow> FirstThrottleObservation option \<Rightarrow> bool" where
  "is_first_throttle segs first = (case first of
       None \<Rightarrow> \<forall>x\<in>set segs. \<not> throttled x
     | Some f \<Rightarrow> \<exists>before seg a cal after. segs = before @ (seg, a, cal) # after \<and> throttled (seg, a, cal) \<and> f = throttle_candidate seg a
         \<and> (\<forall>y\<in>set before. throttled y \<longrightarrow> ft_PlannedOffsetMS f < throttle_ms y) \<and> (\<forall>y\<in>set after. throttled y \<longrightarrow> ft_PlannedOffsetMS f \<le> throttle_ms y))"

lemma is_first_throttleI:
  "segs = before @ (seg, a, cal) # after \<Longrightarrow> throttled (seg, a, cal) \<Longrightarrow> f = throttle_candidate seg a
    \<Longrightarrow> \<forall>y\<in>set before. throttled y \<longrightarrow> ft_PlannedOffsetMS f < throttle_ms y \<Longrightarrow> \<forall>y\<in>set after. throttled y \<longrightarrow> ft_PlannedOffsetMS f \<le> throttle_ms y
    \<Longrightarrow> is_first_throttle segs (Some f)"
  unfolding is_first_throttle_def by (simp only: option.case) blast

lemma candidate_ms: "ft_PlannedOffsetMS (throttle_candidate seg a) = throttle_ms (seg, a, cal)"
  by (simp add: throttle_ms_def throttle_candidate_def)

lemma is_first_throttle_keep:
  assumes "is_first_throttle segs first" "throttled x \<longrightarrow> (\<exists>f. first = Some f \<and> ft_PlannedOffsetMS f \<le> throttle_ms x)"
  shows "is_first_throttle (segs @ [x]) first"
proof (cases first)
  case None
  then show ?thesis using assms by (auto simp: is_first_throttle_def)
next
  case (Some f)
  then obtain before seg a cal after where f: "segs = before @ (seg, a, cal) # after" "throttled (seg, a, cal)" "f = throttle_candidate seg a"
    "\<forall>y\<in>set before. throttled y \<longrightarrow> ft_PlannedOffsetMS f < throttle_ms y" "\<forall>y\<in>set after. throttled y \<longrightarrow> ft_PlannedOffsetMS f \<le> throttle_ms y"
    using assms(1) by (auto simp: is_first_throttle_def)
  show ?thesis unfolding Some
    by (rule is_first_throttleI [of _ before seg a cal "after @ [x]"]) (use f assms(2) Some in auto)
qed

lemma is_first_throttle_le:
  assumes "is_first_throttle segs (Some f)" "y \<in> set segs" "throttled y"
  shows "ft_PlannedOffsetMS f \<le> throttle_ms y"
  using assms by (fastforce simp: is_first_throttle_def throttle_ms_def throttle_candidate_def intro: less_imp_le)

lemma is_first_throttle_step:
  assumes first: "is_first_throttle segs first"
  shows "is_first_throttle (segs @ [(seg, a, cal)]) (earlier_throttle first seg a)"
proof (cases "throttled (seg, a, cal) \<and> (\<forall>f. first = Some f \<longrightarrow> throttle_ms (seg, a, cal) < ft_PlannedOffsetMS f)")
  case True
  then have "earlier_throttle first seg a = Some (throttle_candidate seg a)"
    by (cases first) (simp_all add: earlier_throttle_def throttled_def Let_def candidate_ms [of _ _ cal])
  moreover have "throttle_ms (seg, a, cal) < throttle_ms y" if "y \<in> set segs" "throttled y" for y
  proof (cases first)
    case None
    then show ?thesis using first that by (auto simp: is_first_throttle_def)
  next
    case (Some f)
    then show ?thesis using True is_first_throttle_le [OF first [unfolded Some] that] by simp
  qed
  ultimately show ?thesis using True by (simp add: is_first_throttleI [of _ segs seg a cal "[]"] candidate_ms [of _ _ cal])
next
  case False
  then have "earlier_throttle first seg a = first"
    by (cases first) (auto simp: earlier_throttle_def throttled_def Let_def candidate_ms [of _ _ cal])
  then show ?thesis using False is_first_throttle_keep [OF first, of "(seg, a, cal)"] by (auto simp: not_less)
qed

lemma throttle_fold: "is_first_throttle segs (foldl (\<lambda>f (seg, a, cal). earlier_throttle f seg a) None segs)"
proof (induction segs rule: rev_induct)
  case Nil
  show ?case by (simp add: is_first_throttle_def)
next
  case (snoc x segs)
  then show ?case using is_first_throttle_step by (cases x) simp
qed

text \<open>C37. The report of a profile run names the segment in which the target first throttled: no segment when none was throttled,
  otherwise the throttled one with the smallest planned offset in milliseconds, and of several the first in the order of the profile.\<close>

theorem report_first_throttle:
  assumes "pl_SchemaVersion p \<ge> ExpectedSchemaVersion"
  shows "is_first_throttle (ag_Segments g) (rp_FirstThrottle (BuildReport patterns shuffle build (Some p) (Some g) ho startT endT incomplete results))"
  using assms throttle_fold [of "ag_Segments g"] by (simp add: report_defs phase6_fold)

text \<open>A report lists the URL of a scenario step as it is configured: a credential in its query is shown.\<close>

lemma step_url_unredacted:
  assumes "pl_Scenario p = Some sc" "step \<in> set (sn_Steps sc)"
  shows "\<exists>r\<in>set (sc_rep_Steps (the (rp_Scenario (BuildReport patterns shuffle build (Some p) ao ho startT endT incomplete results)))). sr_URL r = cs_URL step"
proof -
  have "rp_Scenario (BuildReport patterns shuffle build (Some p) ao ho startT endT incomplete results) = Some (scenario_report ao sc)"
    using assms(1) by (cases ao) (simp_all add: report_defs)
  moreover have "sr_URL (step_report ao step) = cs_URL step" by (auto simp: step_report_def Let_def split: option.splits)
  ultimately show ?thesis using assms(2) by (auto simp: scenario_report_def)
qed

subsection \<open>A sample\<close>

definition sample_metrics :: "int \<Rightarrow> int list agg" where
  "sample_metrics first = Agg
     \<lparr>ag_RequestCounts = \<lparr>rc_Planned = 5, rc_Scheduled = 5, rc_Started = 5, rc_Completed = 5, rc_Canceled = 0, rc_Dropped = 0\<rparr>,
      ag_Outcomes = (\<lambda>x. if x = OutcomeSuccess then 4 else if x = OutcomeRateLimited then 1 else 0), ag_StatusCodes = [(''200'', 4), (''429'', 1)],
      ag_Latency = zero_latency, AllLatencyHist = [], SuccessLatencyHist = [],
      ag_RateLimits = \<lparr>Observed429Count = 1, RetryAfterSamples = [''s3cr3t''], RateLimitHeaders = [], rl_HeaderConsistency = []\<rparr>,
      TotalBytesSent = 0, TotalBytesReceived = 0, ag_Duration = Second, AchievedStartRPS = F_Fin 5, CompletedThroughput = F_Fin 5, ErrorRate = F_Fin 20,
      RateLimitedRate = F_Fin 20, ag_ErrorSamples = [], ag_SchedulerLagMaxMS = F_Fin 0, ag_FirstThrottleOffsetNS = first,
      ag_ScenarioIterations = zero_iterations\<rparr> [] [] None"

definition sample_segment :: "int \<Rightarrow> string \<Rightarrow> Segment" where
  "sample_segment i name = \<lparr>seg_Index = i, seg_Name = name, seg_Stage = ''measured'', seg_StartOffset = i * Second, seg_EndOffset = (i + 1) * Second,
     seg_StartOffsetMS = i * 1000, seg_EndOffsetMS = (i + 1) * 1000, seg_Duration = Second, seg_DurationMS = 1000, seg_Rate = F_Fin 5,
     seg_TargetRPS = F_Fin 5, seg_IncludedMeasured = True\<rparr>"

definition sample_aggregate :: "int list agg" where
  "sample_aggregate = Agg (ag (sample_metrics (- 1))) []
     [(sample_segment 0 ''calm'', sample_metrics (- 1), BuildCalibration (F_Fin 5) (None :: int list agg option)),
      (sample_segment 1 ''busy'', sample_metrics 1500000000, BuildCalibration (F_Fin 5) (None :: int list agg option))] (Some (sample_metrics (- 1)))"

definition sample_build :: build_info where
  "sample_build = \<lparr>bi_DaegsaVersion = ''v1'', bi_Commit = ''abc'', bi_BuildDate = ''today'', bi_OS = ''linux'', bi_Arch = ''amd64''\<rparr>"

definition sample_private :: Config where
  "sample_private = sample_validated\<lparr>cf_Auth := (cf_Auth sample_validated)\<lparr>au_Type := ''bearer'', au_Token := ''s3cr3t''\<rparr>\<rparr>"

definition sample_preflight :: PreflightResult where
  "sample_preflight = \<lparr>pf_TargetURL = \<lparr>pu_Scheme = ''http'', pu_Host = ''localhost:8080''\<rparr>, pf_Method = ''GET'', pf_ResolvedIPs = [], pf_Authorized = True\<rparr>"

lemma sample_private_plan:
  obtains p where "BuildPlan (\<lambda>_. 0) sample_api sample_json (\<lambda>s. s) 0 (Some sample_private) (Some sample_preflight) = Inr p"
    and "pl_KnownSecrets p = [''s3cr3t'']" "pl_SchemaVersion p = 1"
proof -
  have "case BuildPlan (\<lambda>_. 0) sample_api sample_json (\<lambda>s. s) 0 (Some sample_private) (Some sample_preflight) of
      Inl _ \<Rightarrow> False | Inr p \<Rightarrow> pl_KnownSecrets p = [''s3cr3t''] \<and> pl_SchemaVersion p = 1"
    by code_simp
  then show ?thesis using that by (auto split: sum.splits)
qed


theorem report_first_throttle_witness:
  "is_first_throttle (ag_Segments sample_aggregate)
     (rp_FirstThrottle (BuildReport (\<lambda>s. s) (\<lambda>xs. xs) sample_build (Some (sample_plan\<lparr>pl_SchemaVersion := 2\<rparr>)) (Some sample_aggregate) None 0 Second False []))
   \<and> \<not> is_first_throttle (ag_Segments sample_aggregate) None"
proof
  show "is_first_throttle (ag_Segments sample_aggregate)
     (rp_FirstThrottle (BuildReport (\<lambda>s. s) (\<lambda>xs. xs) sample_build (Some (sample_plan\<lparr>pl_SchemaVersion := 2\<rparr>)) (Some sample_aggregate) None 0 Second False []))"
    by (rule report_first_throttle) (simp add: ExpectedSchemaVersion_def)
  show "\<not> is_first_throttle (ag_Segments sample_aggregate) None"
    by (simp add: is_first_throttle_def sample_aggregate_def throttled_def sample_metrics_def)
qed

end
