(* ===== verification/Report_Compare.thy ===== *)
theory Report_Compare
  imports Report_Model "HOL-Library.Multiset"
begin

text \<open>
  The comparison of two reports, \<^verbatim>\<open>internal/compare/compare.go\<close>.

  \<open>ReadFile\<close> stands for opening and reading at most one byte more than the limit; \<open>json_Decode\<close> for the strict decoder, which gives the first
  value of the text and \<open>json_More\<close> whether anything but white space follows. The ranges over Go maps run in an unspecified order, which
  \<open>order\<close> chooses. The text of the result is not modelled.
\<close>

definition MaxReportFileBytes :: int where "MaxReportFileBytes = 10 * 1024 * 1024"

record Delta =
  dl_Name :: string
  dl_Baseline :: f64
  dl_Candidate :: f64
  dl_Absolute :: f64
  dl_Percentage :: f64
  dl_PercentageAvailable :: bool

record ThresholdChange =
  tc_Expression :: string
  tc_Change :: string

record compare_Result =
  cr_Warnings :: "string list"
  cr_Deltas :: "Delta list"
  cr_ThresholdChanges :: "ThresholdChange list"

datatype compare_error =
    CannotRead string | TooLarge string | MalformedJSON string | TrailingData string | UnsupportedSchema int | IncompleteReport
  | NoWorkloadModel | NilReport

definition LoadReport ::
  "(string \<Rightarrow> string option) \<Rightarrow> (string \<Rightarrow> Report option) \<Rightarrow> (string \<Rightarrow> bool) \<Rightarrow> string \<Rightarrow> compare_error + Report" where
  "LoadReport ReadFile json_Decode json_More path = (case ReadFile path of
       None \<Rightarrow> Inl (CannotRead path)
     | Some data \<Rightarrow>
         if int (length data) > MaxReportFileBytes then Inl (TooLarge path)
         else case json_Decode data of
             None \<Rightarrow> Inl (MalformedJSON path)
           | Some loaded \<Rightarrow>
               if json_More data then Inl (TrailingData path)
               else if rp_ReportSchemaVersion loaded \<noteq> 1 \<and> rp_ReportSchemaVersion loaded \<noteq> 2 then Inl (UnsupportedSchema (rp_ReportSchemaVersion loaded))
               else if rp_Incomplete loaded then Inl IncompleteReport
               else if rp_WorkloadModel loaded = '''' then Inl NoWorkloadModel
               else Inr loaded)"

definition newDelta :: "string \<Rightarrow> f64 \<Rightarrow> f64 \<Rightarrow> Delta" where
  "newDelta name baseline candidate = (let absolute = fsub candidate baseline; available = \<not> feq baseline (F_Fin 0) in
     \<lparr>dl_Name = name, dl_Baseline = baseline, dl_Candidate = candidate, dl_Absolute = absolute,
      dl_Percentage = (if available then fmul (fdiv absolute (fabs baseline)) (F_Fin 100) else f0), dl_PercentageAvailable = available\<rparr>)"

definition comparisonSummary :: "Report \<Rightarrow> MetricsSummary" where
  "comparisonSummary v = (case rp_MeasuredSummary v of
       Some m \<Rightarrow> m
     | None \<Rightarrow>
         let durationSeconds = fdiv (f_of_int (rp_DurationMS v)) (F_Fin 1000); timed = durationSeconds > F_Fin 0;
             c = rp_RequestCounts v; completed = f_of_int (rc_Completed c); some = rc_Completed c > 0 in
         \<lparr>ms_RequestCounts = c, ms_Outcomes = rp_Outcomes v, ms_StatusCodes = rp_StatusCodes v, ms_Latency = rp_Latency v,
          ms_RateLimits = rp_RateLimits v,
          ms_AchievedStartRPS = (if timed then fdiv (f_of_int (rc_Started c)) durationSeconds else f0),
          ms_CompletedThroughput = (if timed then fdiv completed durationSeconds else f0),
          ms_ErrorRate = (if some then fmul (fdiv (f_of_int (rc_Completed c - rp_Outcomes v OutcomeSuccess)) completed) (F_Fin 100) else f0),
          ms_RateLimitedRate = (if some then fmul (fdiv (f_of_int (Observed429Count (rp_RateLimits v))) completed) (F_Fin 100) else f0)\<rparr>)"

definition same_segment :: "Segment \<Rightarrow> Segment \<Rightarrow> bool" where
  "same_segment l r \<longleftrightarrow> seg_Name l = seg_Name r \<and> seg_Stage l = seg_Stage r \<and> feq (seg_TargetRPS l) (seg_TargetRPS r) \<and> seg_DurationMS l = seg_DurationMS r"

definition compatibleSegments :: "Report \<Rightarrow> Report \<Rightarrow> bool" where
  "compatibleSegments baseline candidate = list_all2 same_segment (rp_CompiledSegments baseline) (rp_CompiledSegments candidate)"

text \<open>The map of the thresholds by expression: a later result replaces an earlier one.\<close>

definition by_expression :: "ReportResult list \<Rightarrow> (string \<times> bool) list" where
  "by_expression rs = foldl (\<lambda>m r. gm_put (rr_Expression r) (rr_Passed r) m) [] rs"

definition threshold_change :: "(string \<times> bool) list \<Rightarrow> string \<times> bool \<Rightarrow> ThresholdChange list" where
  "threshold_change right p = (case p of (expression, prior) \<Rightarrow> case map_of right expression of
       None \<Rightarrow> [\<lparr>tc_Expression = expression, tc_Change = ''removed''\<rparr>]
     | Some now \<Rightarrow>
         (if prior \<and> \<not> now then [\<lparr>tc_Expression = expression, tc_Change = ''pass-to-fail''\<rparr>] else [])
         @ (if \<not> prior \<and> now then [\<lparr>tc_Expression = expression, tc_Change = ''fail-to-pass''\<rparr>] else []))"

definition compareThresholds ::
  "((string \<times> bool) list \<Rightarrow> (string \<times> bool) list) \<Rightarrow> Report \<Rightarrow> Report \<Rightarrow> ThresholdChange list" where
  "compareThresholds order baseline candidate =
     (let left = by_expression (rp_Thresholds baseline); right = by_expression (rp_Thresholds candidate) in
      concat (map (threshold_change right) (order left))
      @ map (\<lambda>(expression, _). \<lparr>tc_Expression = expression, tc_Change = ''added''\<rparr>) (filter (\<lambda>(expression, _). map_of left expression = None) (order right)))"

definition compared_values :: "MetricsSummary \<Rightarrow> (string \<times> f64) list" where
  "compared_values m = (let l = AllCompleted (ms_Latency m) in
     [(''p50_ms'', lp_P50MS l), (''p90_ms'', lp_P90MS l), (''p95_ms'', lp_P95MS l), (''p99_ms'', lp_P99MS l), (''max_ms'', lp_MaxMS l),
      (''achieved_start_rate'', ms_AchievedStartRPS m), (''completed_throughput'', ms_CompletedThroughput m), (''error_rate'', ms_ErrorRate m),
      (''rate_limited_rate'', ms_RateLimitedRate m), (''dropped'', f_of_int (rc_Dropped (ms_RequestCounts m))),
      (''observed_429'', f_of_int (Observed429Count (ms_RateLimits m)))])"

definition segment_p95 :: "SegmentReport \<Rightarrow> f64" where
  "segment_p95 s = lp_P95MS (AllCompleted (ms_Latency (sg_Metrics s)))"

definition segment_deltas :: "Report \<Rightarrow> Report \<Rightarrow> Delta list" where
  "segment_deltas baseline candidate =
     (if compatibleSegments baseline candidate \<and> length (rp_Segments baseline) = length (rp_Segments candidate)
      then map2 (\<lambda>b c. newDelta (''segment['' @ seg_Name (sg_Segment b) @ ''].p95_ms'') (segment_p95 b) (segment_p95 c))
             (rp_Segments baseline) (rp_Segments candidate)
      else [])"

definition Compare ::
  "((string \<times> bool) list \<Rightarrow> (string \<times> bool) list) \<Rightarrow> Report option \<Rightarrow> Report option \<Rightarrow> compare_error + compare_Result" where
  "Compare order bo co = (case (bo, co) of
       (Some baseline, Some candidate) \<Rightarrow> Inr
         \<lparr>cr_Warnings =
            (if rp_ConfigFingerprint baseline \<noteq> rp_ConfigFingerprint candidate then [''configuration fingerprints differ''] else [])
            @ (if rp_WorkloadModel baseline \<noteq> rp_WorkloadModel candidate then [''workload models differ''] else [])
            @ (if \<not> compatibleSegments baseline candidate then [''compiled profile segments differ''] else []),
          cr_Deltas = map2 (\<lambda>(name, b) (_, c). newDelta name b c) (compared_values (comparisonSummary baseline)) (compared_values (comparisonSummary candidate))
            @ segment_deltas baseline candidate,
          cr_ThresholdChanges = compareThresholds order baseline candidate\<rparr>
     | _ \<Rightarrow> Inl NilReport)"

section \<open>Properties\<close>

subsection \<open>Changes of thresholds\<close>

text \<open>The verdict of a report on an expression is that of its last result for it.\<close>

definition verdict :: "Report \<Rightarrow> string \<Rightarrow> bool option" where
  "verdict r e = map_option rr_Passed (find (\<lambda>t. rr_Expression t = e) (rev (rp_Thresholds r)))"

fun expected_change :: "bool option \<Rightarrow> bool option \<Rightarrow> string option" where
  "expected_change (Some _) None = Some ''removed''"
| "expected_change None (Some _) = Some ''added''"
| "expected_change (Some True) (Some False) = Some ''pass-to-fail''"
| "expected_change (Some False) (Some True) = Some ''fail-to-pass''"
| "expected_change _ _ = None"

lemma map_of_by_expression: "map_of (by_expression rs) e = map_option rr_Passed (find (\<lambda>t. rr_Expression t = e) (rev rs))"
  by (induction rs rule: rev_induct) (simp_all add: by_expression_def)

lemma distinct_by_expression: "distinct (map fst (by_expression rs))"
  by (induction rs rule: rev_induct) (simp_all add: by_expression_def distinct_gm_put)

lemma threshold_change_one:
  "x \<in> set (threshold_change right (e, prior)) \<longleftrightarrow> tc_Expression x = e \<and> expected_change (Some prior) (map_of right e) = Some (tc_Change x)"
  by (cases x; cases prior; cases "map_of right e") (auto simp: threshold_change_def elim: expected_change.elims)

lemma threshold_change_short: "map tc_Expression (threshold_change right p) = [] \<or> map tc_Expression (threshold_change right p) = [fst p]"
  by (auto simp: threshold_change_def split: prod.split option.split)

lemma changes_keys: "map tc_Expression (concat (map (threshold_change right) ps)) = map fst (filter (\<lambda>p. threshold_change right p \<noteq> []) ps)"
proof (induction ps)
  case (Cons p ps)
  then show ?case using threshold_change_short [of right p] by auto
qed simp

lemma compareThresholds_set:
  assumes "\<And>m. mset (order m) = mset (m :: (string \<times> bool) list)"
  shows "x \<in> set (compareThresholds order b c) \<longleftrightarrow> expected_change (verdict b (tc_Expression x)) (verdict c (tc_Expression x)) = Some (tc_Change x)"
proof -
  let ?l = "by_expression (rp_Thresholds b)" and ?r = "by_expression (rp_Thresholds c)"
  have o: "set (order m) = set m" for m using assms by (metis set_mset_mset)
  have v: "verdict b e = map_of ?l e" "verdict c e = map_of ?r e" for e by (simp_all add: verdict_def map_of_by_expression)
  have m: "(e, p) \<in> set ?l \<longleftrightarrow> map_of ?l e = Some p" "(e, p) \<in> set ?r \<longleftrightarrow> map_of ?r e = Some p" for e p
    using distinct_by_expression by simp_all
  have "x \<in> set (concat (map (threshold_change ?r) (order ?l))) \<longleftrightarrow> (\<exists>e p. (e, p) \<in> set ?l \<and> x \<in> set (threshold_change ?r (e, p)))"
    by (simp add: o Bex_def split_paired_Ex)
  then have old: "x \<in> set (concat (map (threshold_change ?r) (order ?l))) \<longleftrightarrow>
      (\<exists>p. map_of ?l (tc_Expression x) = Some p \<and> expected_change (Some p) (map_of ?r (tc_Expression x)) = Some (tc_Change x))"
    unfolding m threshold_change_one by blast
  have new: "x \<in> set (map (\<lambda>(e, _). \<lparr>tc_Expression = e, tc_Change = ''added''\<rparr>) (filter (\<lambda>(e, _). map_of ?l e = None) (order ?r))) \<longleftrightarrow>
      (\<exists>p. map_of ?r (tc_Expression x) = Some p \<and> map_of ?l (tc_Expression x) = None \<and> tc_Change x = ''added'')"
    by (cases x) (auto simp add: o image_iff Bex_def split_paired_Ex m)
  have "x \<in> set (compareThresholds order b c) \<longleftrightarrow>
     (\<exists>p. map_of ?l (tc_Expression x) = Some p \<and> expected_change (Some p) (map_of ?r (tc_Expression x)) = Some (tc_Change x))
     \<or> (\<exists>p. map_of ?r (tc_Expression x) = Some p \<and> map_of ?l (tc_Expression x) = None \<and> tc_Change x = ''added'')"
    unfolding compareThresholds_def Let_def set_append Un_iff old new ..
  then show ?thesis unfolding v by (cases "map_of ?l (tc_Expression x)"; cases "map_of ?r (tc_Expression x)") auto
qed

lemma compareThresholds_distinct:
  assumes "\<And>m. mset (order m) = mset (m :: (string \<times> bool) list)"
  shows "distinct (map tc_Expression (compareThresholds order b c))"
proof -
  let ?l = "by_expression (rp_Thresholds b)" and ?r = "by_expression (rp_Thresholds c)"
  have o: "distinct (map fst (order m)) \<longleftrightarrow> distinct (map fst m)" for m
    using assms [of m] by (metis mset_eq_imp_distinct_iff mset_map)
  have s: "set (order m) = set m" for m using assms by (metis set_mset_mset)
  have keys: "map tc_Expression (compareThresholds order b c) = map fst (filter (\<lambda>p. threshold_change ?r p \<noteq> []) (order ?l))
      @ map fst (filter (\<lambda>(e, _). map_of ?l e = None) (order ?r))"
    using changes_keys [of ?r "order ?l"] by (simp add: compareThresholds_def Let_def split_beta comp_def)
  show ?thesis
    unfolding keys distinct_append using distinct_by_expression [of "rp_Thresholds b"] distinct_by_expression [of "rp_Thresholds c"]
    by (auto simp: o distinct_map_filter s map_of_eq_None_iff) force
qed

text \<open>C38. Comparing two reports lists exactly the thresholds whose verdict changed, each once: removed, added, from pass to fail and from fail to
  pass, where the verdict of a report on an expression is that of its last result for it. The order in which Go maps are visited does not matter.\<close>

theorem Compare_threshold_changes:
  assumes "\<And>m. mset (order m) = mset m" "Compare order (Some b) (Some c) = Inr res"
  shows "distinct (map tc_Expression (cr_ThresholdChanges res))
    \<and> (x \<in> set (cr_ThresholdChanges res) \<longleftrightarrow> expected_change (verdict b (tc_Expression x)) (verdict c (tc_Expression x)) = Some (tc_Change x))"
  using assms compareThresholds_set [of order x b c] compareThresholds_distinct [of order b c] by (auto simp: Compare_def)

subsection \<open>A report compared with itself\<close>

definition finite_report :: "Report \<Rightarrow> bool" where
  "finite_report r \<longleftrightarrow> list_all (\<lambda>(_, x). is_finite x) (compared_values (comparisonSummary r))
     \<and> list_all (\<lambda>s. is_finite (segment_p95 s)) (rp_Segments r) \<and> list_all (\<lambda>s. is_finite (seg_TargetRPS s)) (rp_CompiledSegments r)"

lemma newDelta_self: "is_finite x \<Longrightarrow> dl_Absolute (newDelta n x x) = F_Fin 0 \<and> dl_Percentage (newDelta n x x) = F_Fin 0"
  by (cases x) (auto simp: newDelta_def Let_def fsub_def feq_def f0_def)

lemma same_segment_self: "is_finite (seg_TargetRPS s) \<Longrightarrow> same_segment s s"
  by (cases "seg_TargetRPS s") (auto simp: same_segment_def feq_def)

text \<open>A report with finite numbers compared with itself gives no warning, no change of a threshold, and for each of the eleven metrics and
  each segment a difference of zero.\<close>

lemma Compare_self:
  assumes "finite_report r" "\<And>m. mset (order m) = mset m"
  shows "\<exists>res. Compare order (Some r) (Some r) = Inr res \<and> cr_Warnings res = [] \<and> cr_ThresholdChanges res = []
    \<and> list_all (\<lambda>d. dl_Absolute d = F_Fin 0 \<and> dl_Percentage d = F_Fin 0) (cr_Deltas res) \<and> length (cr_Deltas res) = 11 + length (rp_Segments r)"
proof -
  have compatible: "compatibleSegments r r"
    using assms(1) same_segment_self by (auto simp: compatibleSegments_def finite_report_def list_all_iff intro!: list.rel_refl_strong)
  have same: "expected_change v v = None" for v by (cases "(v, v)" rule: expected_change.cases) auto
  have none: "compareThresholds order r r = []"
    using compareThresholds_set [OF assms(2), of _ r r] by (metis list.set_intros(1) list.exhaust option.distinct(1) same)
  have zip: "list_all (\<lambda>d. dl_Absolute d = F_Fin 0 \<and> dl_Percentage d = F_Fin 0) (map2 (\<lambda>(n, b) (_, c). newDelta n b c) vs vs)"
    if "list_all (\<lambda>(_, x). is_finite x) vs" for vs using that newDelta_self by (induction vs) auto
  have segs: "list_all (\<lambda>d. dl_Absolute d = F_Fin 0 \<and> dl_Percentage d = F_Fin 0) (segment_deltas r r)"
    using assms(1) newDelta_self compatible unfolding segment_deltas_def finite_report_def
    by (auto simp: list_all_iff zip_same_conv_map)
  show ?thesis
    using compatible none segs zip [of "compared_values (comparisonSummary r)"] assms(1)
    by (auto simp: Compare_def finite_report_def segment_deltas_def) (simp_all add: compared_values_def Let_def)
qed

subsection \<open>A sample\<close>

definition sample_report :: "(string \<times> bool) list \<Rightarrow> Report" where
  "sample_report verdicts = BuildReport (\<lambda>s. s) (\<lambda>xs. xs) sample_build None (Some sample_aggregate) None 0 Second False
     (map (\<lambda>(e, p). \<lparr>rr_Expression = e, rr_Target = '''', rr_Observed = '''', rr_Passed = p\<rparr>) verdicts)"

theorem Compare_threshold_changes_witness:
  "\<exists>res. Compare (\<lambda>m. m) (Some (sample_report [(''p95'', True), (''dropped'', True)])) (Some (sample_report [(''p95'', False)])) = Inr res
    \<and> \<lparr>tc_Expression = ''p95'', tc_Change = ''pass-to-fail''\<rparr> \<in> set (cr_ThresholdChanges res)
    \<and> \<lparr>tc_Expression = ''dropped'', tc_Change = ''removed''\<rparr> \<in> set (cr_ThresholdChanges res)"
proof -
  let ?b = "sample_report [(''p95'', True), (''dropped'', True)]" and ?c = "sample_report [(''p95'', False)]"
  obtain res where res: "Compare (\<lambda>m. m) (Some ?b) (Some ?c) = Inr res" by (simp add: Compare_def)
  have "expected_change (verdict ?b ''p95'') (verdict ?c ''p95'') = Some ''pass-to-fail''"
    "expected_change (verdict ?b ''dropped'') (verdict ?c ''dropped'') = Some ''removed''"
    by (simp_all add: verdict_def sample_report_def report_defs)
  then show ?thesis
    using res Compare_threshold_changes [OF _ res, of "\<lparr>tc_Expression = ''p95'', tc_Change = ''pass-to-fail''\<rparr>"]
      Compare_threshold_changes [OF _ res, of "\<lparr>tc_Expression = ''dropped'', tc_Change = ''removed''\<rparr>"] by auto
qed

lemma sample_report_finite: "finite_report (sample_report [(''p95'', True)])"
  by code_simp

lemma Compare_self_witness:
  "\<exists>res. Compare (\<lambda>m. m) (Some (sample_report [(''p95'', True)])) (Some (sample_report [(''p95'', True)])) = Inr res
    \<and> cr_Warnings res = [] \<and> cr_ThresholdChanges res = [] \<and> length (cr_Deltas res) \<ge> 11"
  using Compare_self [OF sample_report_finite, of "\<lambda>m. m"] by auto

end
