(* ===== verification/Run_Command.thy ===== *)
theory Run_Command
  imports Report_Compare
begin

text \<open>
  The command line: how \<^verbatim>\<open>daegsa run\<close>, \<^verbatim>\<open>validate\<close> and \<^verbatim>\<open>compare\<close> put the components together and which exit code they give
  (\<^verbatim>\<open>internal/cli/flags.go\<close>, \<^verbatim>\<open>validate.go\<close>, \<^verbatim>\<open>run.go\<close>, \<^verbatim>\<open>compare.go\<close>, \<^verbatim>\<open>exit.go\<close>), and the loading of a
  configuration file (\<^verbatim>\<open>ParseAndValidateYAML\<close> of \<^verbatim>\<open>internal/config/validate.go\<close>).

  The files, the environment, the YAML and JSON libraries, DNS and URL parsing are the fields of \<open>cli_env\<close>; what the run of a scheduler returns, the
  clock and the outcome of writing the JSON file are those of \<open>run_world\<close>. The flags are as the flag library sets them. What is printed is not
  modelled except for the one line of an error.
\<close>

section \<open>The world of a command\<close>

record 'u cli_env =
  ce_ReadFile :: "string \<Rightarrow> string option"
  ce_Getenv :: "string \<Rightarrow> string"
  ce_yaml_Unmarshal :: "string \<Rightarrow> yaml_node option"
  ce_yaml_Decode :: "string \<Rightarrow> Config option"
  ce_url_Parse :: "string \<Rightarrow> parsed_url option"
  ce_regex_ok :: "string \<Rightarrow> bool"
  ce_LookupIPAddr :: "string \<Rightarrow> int list list option"
  ce_oob :: "f64 \<Rightarrow> int"
  ce_url_api :: "'u url_api"
  ce_json_Marshal :: "Config \<Rightarrow> string option"
  ce_sha256_hex :: "string \<Rightarrow> string"
  ce_next_jar :: nat

definition ParseAndValidateYAML :: "'u cli_env \<Rightarrow> string \<Rightarrow> config_error + Config" where
  "ParseAndValidateYAML E data = (case ce_yaml_Unmarshal E data of
       None \<Rightarrow> Inl (ErrConfigValidation ''failed to parse YAML structure'')
     | Some rootNode \<Rightarrow> (case checkDuplicateKeys rootNode of
           Some k \<Rightarrow> Inl (ErrDuplicateYAMLKey k)
         | None \<Rightarrow> (case ce_yaml_Decode E data of
               None \<Rightarrow> Inl (ErrConfigValidation ''strict YAML decode failed'')
             | Some cfg \<Rightarrow> ValidateConfig (ce_oob E) (ce_url_Parse E) (ce_regex_ok E) (Some cfg))))"

section \<open>Flags\<close>

record flagValues =
  fv_configFile :: string
  fv_url :: string
  fv_method :: string
  fv_model :: string
  fv_rate :: f64
  fv_timeUnit :: Duration
  fv_users :: int
  fv_duration :: Duration
  fv_timeout :: Duration
  fv_maxInFlight :: int
  fv_responseBodyLimit :: string
  fv_redirects :: string
  fv_allowedHosts :: "string list option"
  fv_allowDestructive :: bool
  fv_dryRun :: bool
  fv_nonInteractive :: bool
  fv_outputJSON :: string

text \<open>Appending no element to a nil slice gives nil again.\<close>

definition toCLIFlags :: "flagValues \<Rightarrow> CLIFlags" where
  "toCLIFlags f = \<lparr>fl_ConfigFile = fv_configFile f, fl_URL = fv_url f, fl_Method = fv_method f, fl_Model = fv_model f, fl_Rate = fv_rate f,
     fl_TimeUnit = fv_timeUnit f, fl_Users = fv_users f, fl_Duration = fv_duration f, fl_Timeout = fv_timeout f, fl_MaxInFlight = fv_maxInFlight f,
     fl_ResponseBodyLimit = fv_responseBodyLimit f, fl_Redirects = fv_redirects f,
     fl_AllowedHosts = (case fv_allowedHosts f of Some (h # hs) \<Rightarrow> Some (h # hs) | _ \<Rightarrow> None),
     fl_AllowDestructive = fv_allowDestructive f, fl_DryRun = fv_dryRun f, fl_NonInteractive = fv_nonInteractive f\<rparr>"

section \<open>Errors and exit codes (exit.go)\<close>

datatype cli_error =
    CLIExitError ExitCode
  | SafetyFailure safety_error
  | ConfigFailure config_error
  | EnvFailure env_error
  | PlanFailure plan_error

text \<open>The sentinels an error wraps.\<close>

datatype cli_sentinel =
    S_SafetyRefusal | S_HostNotAllowed | S_DestructiveMethodUnauthorized | S_SafetyCeilingExceeded | S_CrossOriginRedirectBlocked | S_DNSPreflightFailed
  | S_ConfigValidation | S_InvalidSchemaVersion | S_DuplicateYAMLKey | S_MissingEnvVar | S_InvalidEnvSyntax | S_InvalidThreshold

primrec config_wraps :: "config_error \<Rightarrow> cli_sentinel list" where
  "config_wraps (ErrConfigValidation msg) = [S_ConfigValidation]"
| "config_wraps (ErrInvalidSchemaVersion v) = [S_InvalidSchemaVersion]"
| "config_wraps (ErrDuplicateYAMLKey k) = [S_DuplicateYAMLKey]"
| "config_wraps (ErrConfigThreshold e) = [S_ConfigValidation, S_InvalidThreshold]"
| "config_wraps (ErrConfigProfile e) = [S_ConfigValidation]"
| "config_wraps (ErrConfigHosts e) = [S_ConfigValidation]"
| "config_wraps (ErrConfigStep name e) = config_wraps e"

fun safety_wraps :: "safety_error \<Rightarrow> cli_sentinel list" where
  "safety_wraps SafetyConfigNil = [S_SafetyRefusal]"
| "safety_wraps (SafetyInvalidURL u) = [S_SafetyRefusal]"
| "safety_wraps (ErrHostNotAllowed h) = [S_SafetyRefusal, S_HostNotAllowed]"
| "safety_wraps (ErrDestructiveMethodUnauthorized m) = [S_SafetyRefusal, S_DestructiveMethodUnauthorized]"
| "safety_wraps (ErrSafetyCeilingExceeded s) = [S_SafetyRefusal, S_SafetyCeilingExceeded]"
| "safety_wraps (ErrDNSPreflightFailed h) = [S_SafetyRefusal, S_DNSPreflightFailed]"
| "safety_wraps (SafetyProfile e) = config_wraps e"
| "safety_wraps SafetyPanic = []"

fun plan_wraps :: "plan_error \<Rightarrow> cli_sentinel list" where
  "plan_wraps (PlanConfig e) = config_wraps e"
| "plan_wraps (PlanThreshold e) = [S_InvalidThreshold]"
| "plan_wraps _ = []"

fun env_wraps :: "env_error \<Rightarrow> cli_sentinel list" where
  "env_wraps (ErrInvalidEnvSyntax s) = [S_InvalidEnvSyntax]"
| "env_wraps (ErrMissingEnvVar s) = [S_MissingEnvVar]"

fun wraps :: "cli_error \<Rightarrow> cli_sentinel list" where
  "wraps (CLIExitError c) = []"
| "wraps (SafetyFailure e) = safety_wraps e"
| "wraps (ConfigFailure e) = config_wraps e"
| "wraps (EnvFailure e) = env_wraps e"
| "wraps (PlanFailure e) = plan_wraps e"

definition safety_sentinels :: "cli_sentinel list" where
  "safety_sentinels = [S_SafetyRefusal, S_HostNotAllowed, S_DestructiveMethodUnauthorized, S_SafetyCeilingExceeded, S_CrossOriginRedirectBlocked,
     S_DNSPreflightFailed]"

definition validation_sentinels :: "cli_sentinel list" where
  "validation_sentinels = [S_ConfigValidation, S_InvalidSchemaVersion, S_DuplicateYAMLKey, S_MissingEnvVar, S_InvalidEnvSyntax, S_InvalidThreshold]"

definition DetermineExitCode :: "cli_error option \<Rightarrow> ExitCode" where
  "DetermineExitCode err = (case err of
       None \<Rightarrow> ExitCodeSuccess
     | Some (CLIExitError code) \<Rightarrow> code
     | Some e \<Rightarrow>
         if list_ex (\<lambda>s. s \<in> set safety_sentinels) (wraps e) then ExitCodeSafetyRefusal
         else if list_ex (\<lambda>s. s \<in> set validation_sentinels) (wraps e) then ExitCodeValidationFailure
         else ExitCodeRuntimeFailure)"

text \<open>The one line for an error with the given message.\<close>

definition newline :: char where "newline = CHR 0x0A"

definition FormatSingleLineSummary :: "string option \<Rightarrow> ExitCode \<Rightarrow> string" where
  "FormatSingleLineSummary err code = (case err of
       None \<Rightarrow> ''''
     | Some text \<Rightarrow>
         let msg = TrimSpace (map (\<lambda>c. if c = newline then CHR '' '' else c) text);
             says = (\<lambda>p. HasPrefix (ToLower msg) p) in
         (case code of
            ExitCodeThresholdFailure \<Rightarrow> if \<not> says ''threshold failure'' then ''daegsa: threshold failure: '' @ msg else ''daegsa: '' @ msg
          | ExitCodeValidationFailure \<Rightarrow>
              if \<not> says ''validation failure'' \<and> \<not> says ''config validation'' then ''daegsa: validation failure: '' @ msg else ''daegsa: '' @ msg
          | ExitCodeRuntimeFailure \<Rightarrow> if \<not> says ''runtime failure'' then ''daegsa: runtime failure: '' @ msg else ''daegsa: '' @ msg
          | ExitCodeSafetyRefusal \<Rightarrow>
              if \<not> says ''safety refusal'' \<and> \<not> says ''safety policy'' then ''daegsa: safety refusal: '' @ msg else ''daegsa: '' @ msg
          | _ \<Rightarrow> ''daegsa: error: '' @ msg))"

section \<open>From the flags to a plan (validate.go)\<close>

definition no_config :: Config where
  "no_config = \<lparr>cf_SchemaVersion = LegacySchemaVersion, cf_Name = ''cli-execution'',
     cf_Request = \<lparr>rq_URL = '''', rq_Method = '''', rq_Headers = [], rq_ExpectedStatuses = [], rq_Timeout = 0, rq_ResponseBodyLimit = '''', rq_Redirects = ''''\<rparr>,
     cf_Scenario = None,
     cf_Load = \<lparr>ld_Model = '''', ld_Rate = F_Fin 0, ld_TimeUnit = 0, ld_MaxInFlight = 0, ld_Duration = 0, ld_GracefulStop = 0, ld_Users = 0,
       ld_ThinkTime = 0, ld_Segments = []\<rparr>,
     cf_Treat429AsExpected = False,
     cf_Auth = \<lparr>au_Type = '''', au_Token = '''', au_HeaderName = '''', au_Username = '''', au_Password = '''', au_TokenPool = [], au_CookieJar = False\<rparr>,
     cf_Thresholds = [], cf_Safety = \<lparr>sf_AllowedHosts = [], sf_AllowNonIdempotent = False\<rparr>\<rparr>"

definition load_config :: "'u cli_env \<Rightarrow> flagValues \<Rightarrow> cli_error + Config" where
  "load_config E flags =
     (if fv_configFile flags \<noteq> '''' then
        (case ce_ReadFile E (fv_configFile flags) of
           None \<Rightarrow> Inl (ConfigFailure (ErrConfigValidation ''failed to read config file''))
         | Some rawBytes \<Rightarrow>
             result_bind (lift_error EnvFailure (ExpandEnv rawBytes (ce_Getenv E))) (\<lambda>expandedBytes.
               lift_error ConfigFailure (ParseAndValidateYAML E expandedBytes)))
      else if fv_url flags = '''' then Inl (ConfigFailure (ErrConfigValidation ''either --config or --url must be provided''))
      else Inr no_config)"

definition safety_flags :: "flagValues \<Rightarrow> SafetyFlags" where
  "safety_flags flags = \<lparr>AllowDestructive = fv_allowDestructive flags, NonInteractive = fv_nonInteractive flags, SkipDNSPreflight = False\<rparr>"

definition loadAndPreflightConfig :: "'u cli_env \<Rightarrow> flagValues \<Rightarrow> cli_error + Config \<times> PreflightResult \<times> Plan" where
  "loadAndPreflightConfig E flags =
     result_bind (load_config E flags) (\<lambda>loaded.
     result_bind (lift_error ConfigFailure
       (ApplyCLIOverrides (ce_oob E) (ce_url_Parse E) (ce_regex_ok E) (Some loaded) (Some (toCLIFlags flags)))) (\<lambda>cfg.
     result_bind (lift_error SafetyFailure
       (preflight_Check (ce_oob E) (ce_url_Parse E) (ce_LookupIPAddr E) (Some cfg) (safety_flags flags))) (\<lambda>preflightResult.
     result_bind (lift_error PlanFailure
       (BuildPlan (ce_oob E) (ce_url_api E) (ce_json_Marshal E) (ce_sha256_hex E) (ce_next_jar E) (Some cfg) (Some preflightResult))) (\<lambda>p.
     Inr (cfg, preflightResult, p)))))"

section \<open>The run (run.go)\<close>

record 'h run_world =
  rw_hdr :: "'h hdr_ops"
  rw_patterns :: "string \<Rightarrow> string"
  rw_shuffle :: "string list \<Rightarrow> string list"
  rw_build :: build_info
  rw_start :: Time
  rw_end :: Time
  rw_Run :: "'h agg option \<times> GeneratorHealth option \<times> bool"
  rw_ctxErr :: bool
  rw_WriteJSONReport :: "string \<Rightarrow> Report \<Rightarrow> bool"

definition evaluation_aggregate :: "'h agg option \<Rightarrow> 'h agg option" where
  "evaluation_aggregate ao = (case ao of None \<Rightarrow> None | Some g \<Rightarrow> (case Measured g of Some m \<Rightarrow> Some m | None \<Rightarrow> Some g))"

text \<open>What the scheduler of the plan's model returns: the aggregate, the health and whether it failed.\<close>

definition run_scheduler ::
  "'u cli_env \<Rightarrow> 'h run_world \<Rightarrow> Plan \<Rightarrow> cli_error + 'h agg option \<times> GeneratorHealth option \<times> bool" where
  "run_scheduler E W p =
     (if pl_Model p = WorkloadModel_String WorkloadModelClosed then
        (case NewClosedScheduler (rw_hdr W) (Some (closed_plan_of p)) True of
           Inl _ \<Rightarrow> Inl (CLIExitError ExitCodeRuntimeFailure) | Inr _ \<Rightarrow> Inr (rw_Run W))
      else if pl_Model p = WorkloadModel_String WorkloadModelOpen then
        (case NewOpenScheduler (rw_hdr W) (ce_oob E) (rw_start W) (Some (open_plan_of p)) True of
           Inl _ \<Rightarrow> Inl (CLIExitError ExitCodeRuntimeFailure) | Inr _ \<Rightarrow> Inr (rw_Run W))
      else Inl (CLIExitError ExitCodeRuntimeFailure))"

definition evaluate_thresholds :: "'h run_world \<Rightarrow> Plan \<Rightarrow> 'h agg option \<Rightarrow> eval_result list \<times> bool" where
  "evaluate_thresholds W p ao =
     (if pl_Thresholds p = [] then ([], True)
      else EvaluateWithSteps (map Some (pl_Thresholds p)) (ToThresholdSnapshot (rw_hdr W) ao) (ToStepThresholdSnapshots (rw_hdr W) ao)
             (ToEvaluationContext (Some p)))"

definition unexpected_errors :: "Plan \<Rightarrow> 'h agg option \<Rightarrow> bool" where
  "unexpected_errors p ao = (case ao of
       None \<Rightarrow> False
     | Some g \<Rightarrow>
         let completed = rc_Completed (ag_RequestCounts (ag g));
             successCount = ag_Outcomes (ag g) OutcomeSuccess + (if pl_Treat429AsExpected p then ag_Outcomes (ag g) OutcomeRateLimited else 0)
         in completed > 0 \<and> successCount < completed)"

definition run_plan :: "'u cli_env \<Rightarrow> 'h run_world \<Rightarrow> flagValues \<Rightarrow> Plan \<Rightarrow> cli_error option \<times> Report option" where
  "run_plan E W flags p = (case NewHTTPExecutor (Some p) of
       Inl _ \<Rightarrow> (Some (CLIExitError ExitCodeRuntimeFailure), None)
     | Inr _ \<Rightarrow> (case run_scheduler E W p of
           Inl e \<Rightarrow> (Some e, None)
         | Inr (ao, health, runErr) \<Rightarrow>
             let incomplete = runErr \<or> rw_ctxErr W;
                 evaluated = evaluation_aggregate ao;
                 (evalResults, allThresholdsPassed) = evaluate_thresholds W p evaluated;
                 rep = BuildReport (rw_patterns W) (rw_shuffle W) (rw_build W) (Some p) ao health (rw_start W) (rw_end W) incomplete (ToReportResults evalResults)
             in (if fv_outputJSON flags \<noteq> '''' \<and> \<not> rw_WriteJSONReport W (fv_outputJSON flags) rep then Some (CLIExitError ExitCodeRuntimeFailure)
                 else if runErr then Some (CLIExitError ExitCodeRuntimeFailure)
                 else if rp_Incomplete rep then Some (CLIExitError ExitCodeRuntimeFailure)
                 else if pl_Thresholds p \<noteq> [] then
                   if \<not> allThresholdsPassed then Some (CLIExitError ExitCodeThresholdFailure) else None
                 else if unexpected_errors p evaluated then Some (CLIExitError ExitCodeThresholdFailure)
                 else None, Some rep)))"

definition run_command :: "'u cli_env \<Rightarrow> 'h run_world \<Rightarrow> flagValues \<Rightarrow> cli_error option \<times> Report option" where
  "run_command E W flags = (case loadAndPreflightConfig E flags of
       Inl e \<Rightarrow> (Some e, None)
     | Inr (_, _, p) \<Rightarrow> if fv_dryRun flags then (None, None) else run_plan E W flags p)"

section \<open>The other commands\<close>

definition validate_command :: "'u cli_env \<Rightarrow> flagValues \<Rightarrow> cli_error option" where
  "validate_command E flags = (case loadAndPreflightConfig E flags of Inl e \<Rightarrow> Some e | Inr _ \<Rightarrow> None)"

text \<open>Every failure of a comparison is given the exit code of a validation failure.\<close>

definition compare_command ::
  "((string \<times> bool) list \<Rightarrow> (string \<times> bool) list) \<Rightarrow> (string \<Rightarrow> string option) \<Rightarrow> (string \<Rightarrow> Report option) \<Rightarrow> (string \<Rightarrow> bool) \<Rightarrow> string list
     \<Rightarrow> cli_error + compare_Result" where
  "compare_command order ReadFile json_Decode json_More args = (case args of
       [b, c] \<Rightarrow> lift_error (\<lambda>_. CLIExitError ExitCodeValidationFailure)
         (result_bind (LoadReport ReadFile json_Decode json_More b) (\<lambda>baseline.
          result_bind (LoadReport ReadFile json_Decode json_More c) (\<lambda>candidate.
          Compare order (Some baseline) (Some candidate))))
     | _ \<Rightarrow> Inl (CLIExitError ExitCodeValidationFailure))"

section \<open>Properties\<close>

subsection \<open>Exit codes of a command that does not start\<close>

lemma exit_code_wraps:
  "S_SafetyRefusal \<in> set (wraps e) \<Longrightarrow> DetermineExitCode (Some e) = ExitCodeSafetyRefusal"
  "wraps e \<noteq> [] \<Longrightarrow> set (wraps e) \<subseteq> set validation_sentinels \<Longrightarrow> DetermineExitCode (Some e) = ExitCodeValidationFailure"
  "\<forall>c. e \<noteq> CLIExitError c \<Longrightarrow> wraps e = [] \<Longrightarrow> DetermineExitCode (Some e) = ExitCodeRuntimeFailure"
  by (cases e; force simp: DetermineExitCode_def safety_sentinels_def validation_sentinels_def list_ex_iff neq_Nil_conv)+

lemma config_wraps_validation: "config_wraps e \<noteq> [] \<and> set (config_wraps e) \<subseteq> set validation_sentinels"
  by (induction e) (simp_all add: validation_sentinels_def)

lemma validation_codes [simp]:
  "DetermineExitCode (Some (ConfigFailure e)) = ExitCodeValidationFailure"
  "DetermineExitCode (Some (EnvFailure v)) = ExitCodeValidationFailure"
  "DetermineExitCode (Some (PlanFailure (PlanConfig e))) = ExitCodeValidationFailure"
  "DetermineExitCode (Some (PlanFailure (PlanBodyLimit l))) = ExitCodeRuntimeFailure"
  using config_wraps_validation [of e] by (cases v; simp add: exit_code_wraps validation_sentinels_def)+

lemma lift_error_Inl: "lift_error f r = Inl e \<longleftrightarrow> (\<exists>x. r = Inl x \<and> e = f x)"
  by (auto simp: lift_error_def split: sum.splits)

lemma lift_error_eq_Inr: "lift_error f r = Inr a \<longleftrightarrow> r = Inr a"
  by (auto simp: lift_error_def split: sum.splits)

lemma result_bind_Inl: "result_bind r f = Inl e \<longleftrightarrow> r = Inl e \<or> (\<exists>a. r = Inr a \<and> f a = Inl e)"
  by (cases r) auto

lemmas lift_simps = lift_error_Inl lift_error_eq_Inr result_bind_Inl result_bind_Inr

lemma load_config_code: "load_config E flags = Inl e \<Longrightarrow> DetermineExitCode (Some e) = ExitCodeValidationFailure"
  by (auto simp: load_config_def lift_simps split: if_splits option.splits)

lemma step_endpoints_error: "step_endpoints U steps = Inl e \<Longrightarrow> S_SafetyRefusal \<in> set (safety_wraps e)"
  by (induction steps) (auto simp: lift_simps endpoint_def split: option.splits)

lemma collect_targets_error: "collect_targets U cfg = Inl e \<Longrightarrow> S_SafetyRefusal \<in> set (safety_wraps e)"
  by (auto simp: collect_targets_def lift_simps endpoint_def step_endpoints_error split: option.splits)

lemma check_targets_error: "check_targets oob safety flags ts = Some e \<Longrightarrow> S_SafetyRefusal \<in> set (safety_wraps e)"
  by (induction ts) (auto simp: check_target_def split: option.splits if_splits)

lemma resolve_hosts_error: "resolve_hosts L flags hosts = Inl e \<Longrightarrow> S_SafetyRefusal \<in> set (safety_wraps e)"
  by (induction hosts) (auto simp: lift_simps split: option.splits if_splits)

lemma check_ceilings_error: "check_ceilings load eff = Some e \<Longrightarrow> S_SafetyRefusal \<in> set (safety_wraps e)"
  by (auto simp: check_ceilings_def split: if_splits)

text \<open>A valid configuration makes a request and its profile compiles, so that every error of the preflight is a refusal.\<close>

lemma config_ok_requests: "config_ok oob U cfg \<Longrightarrow> planned_requests cfg \<noteq> []"
  by (auto simp: config_ok_def planned_requests_def scenario_ok_def split: option.splits)

lemma config_ok_effective: "config_ok oob U cfg \<Longrightarrow> \<exists>eff. effective_load oob (cf_Load cfg) = Inr eff"
  by (auto simp: config_ok_def load_ok_def effective_load_def split: if_splits sum.splits)

lemma preflight_error:
  assumes "preflight_Check oob U L (Some cfg) flags = Inl e" "config_ok oob U cfg"
  shows "S_SafetyRefusal \<in> set (safety_wraps e)"
proof -
  obtain eff where eff: "effective_load oob (cf_Load cfg) = Inr eff" using config_ok_effective [OF assms(2)] by blast
  show ?thesis
  proof (cases "collect_targets U cfg")
    case (Inl x)
    then show ?thesis using assms(1) collect_targets_error [OF Inl] by (auto simp: preflight_Check_def)
  next
    case (Inr ts)
    then obtain primary rest where "ts = primary # rest"
      using config_ok_requests [OF assms(2)] by (cases ts) (auto simp: collect_targets_Inr)
    then show ?thesis
      using assms(1) eff Inr check_targets_error [of oob "cf_Safety cfg" flags ts e] check_ceilings_error [of "cf_Load cfg" eff e]
        resolve_hosts_error [of L flags _ e]
      by (cases "check_targets oob (cf_Safety cfg) flags ts"; cases "check_ceilings (cf_Load cfg) eff") (auto simp: preflight_Check_def lift_simps)
  qed
qed

lemma BuildPlan_error:
  assumes v: "ValidateConfig oob url rx (Some cfg) = Inr c"
    and e: "BuildPlan oob U json_Marshal sha256_hex next_jar (Some c) (Some preflight) = Inl e"
  shows "if json_Marshal (cloneConfigSanitized U c) = None then \<exists>x. e = PlanConfig x else \<exists>l. e = PlanBodyLimit l"
proof -
  have ok: "config_ok oob url c" by (rule ValidateConfig_promise [OF v])
  obtain auth where "validateAuth auth = Inr (cf_Auth c)" by (rule ValidateConfig_cases [OF v]) auto
  then obtain a where au: "NewAuthenticator (Some (cf_Auth c)) = Inr a" using NewAuthenticator_total by blast
  obtain prof where prof: "plan_profile oob (cf_Load c) = Inr prof"
    using ok by (auto simp: plan_profile_def config_ok_def load_ok_def split: if_splits)
  obtain ts where ts: "ParseThresholds (cf_Thresholds c) = Inr ts" using ok ParseThresholds_total by (auto simp: config_ok_def)
  obtain P where P: "NewTokenProvider (Some (cf_Auth c)) = Inr P" using ok NewTokenProvider_total by (fastforce simp: config_ok_def)
  have "scenario_ok oob s" if "cf_Scenario c = Some s" for s using ok that by (simp add: config_ok_def)
  then obtain s where s: "compile_scenario oob (cf_Scenario c) = Inr s" using compile_scenario_total by metis
  show ?thesis
    using e by (auto simp: BuildPlan_def Let_def ComputeFingerprint_def body_limit_def prof ts au P s lift_simps split: option.splits if_splits)
qed

lemma overrides_validated:
  "ApplyCLIOverrides oob U rx (Some cfg) (Some flags) = Inr c \<Longrightarrow> \<exists>d. ValidateConfig oob U rx (Some d) = Inr c"
  by (auto simp: ApplyCLIOverrides_def lift_simps)


subsection \<open>A run that starts\<close>

lemma BuildPlan_fields:
  assumes "BuildPlan oob U json_Marshal sha256_hex next_jar (Some c) (Some pre) = Inr p"
  obtains prof where "plan_profile oob (cf_Load c) = Inr prof" "pl_Model p = ld_Model (cf_Load c)" "pl_TimeUnit p = ld_TimeUnit (cf_Load c)"
    "pl_MaxInFlight p = ld_MaxInFlight (cf_Load c)" "pl_Users p = ld_Users (cf_Load c)" "pl_AllowedHosts p = sf_AllowedHosts (cf_Safety c)"
    "pl_Duration p = (case prof of Some r \<Rightarrow> cmp_TotalDuration r | None \<Rightarrow> ld_Duration (cf_Load c))"
    "pl_CompiledSegments p = (case prof of Some r \<Rightarrow> Segments r | None \<Rightarrow> [])" "pl_TargetURL p = Some (pf_TargetURL pre)"
    "pl_Scenario p = None \<longleftrightarrow> cf_Scenario c = None"
  using assms by (auto simp: BuildPlan_def Let_def lift_simps compile_scenario_def split: option.splits)

text \<open>The scheduler of a plan that was built from a validated configuration accepts it.\<close>

lemma run_scheduler_accepts:
  assumes v: "ValidateConfig (ce_oob E) U rx (Some d) = Inr c"
    and p: "BuildPlan (ce_oob E) api json_Marshal sha256_hex next_jar (Some c) (Some pre) = Inr p"
    and oob: "\<And>x. int64 (ce_oob E x)" and tu: "int64 (ld_TimeUnit (cf_Load c))"
  shows "run_scheduler E W p = Inr (rw_Run W)"
proof -
  obtain prof where prof: "plan_profile (ce_oob E) (cf_Load c) = Inr prof"
    and f: "pl_Model p = ld_Model (cf_Load c)" "pl_TimeUnit p = ld_TimeUnit (cf_Load c)" "pl_MaxInFlight p = ld_MaxInFlight (cf_Load c)"
      "pl_Users p = ld_Users (cf_Load c)" "pl_Duration p = (case prof of Some r \<Rightarrow> cmp_TotalDuration r | None \<Rightarrow> ld_Duration (cf_Load c))"
      "pl_CompiledSegments p = (case prof of Some r \<Rightarrow> Segments r | None \<Rightarrow> [])"
    by (rule BuildPlan_fields [OF p])
  have load: "load_ok (ce_oob E) (cf_SchemaVersion c) (cf_Load c)" using ValidateConfig_promise [OF v] by (simp add: config_ok_def)
  show ?thesis
  proof (cases "ld_Model (cf_Load c) = WorkloadModel_String WorkloadModelOpen")
    case True
    then obtain r where r: "prof = Some r" "CompileLoadProfile (ce_oob E) (Some (cf_Load c)) = Inr r"
      using prof by (auto simp: plan_profile_def split: sum.splits)
    have m: "0 < ld_MaxInFlight (cf_Load c)" "0 < ld_TimeUnit (cf_Load c)" using load True by (auto simp: load_ok_def)
    show ?thesis
      using True f m compiled_profile_ok(1,2) [OF validated_load [OF v] True r(2) oob tu m(1)]
      by (simp add: run_scheduler_def NewOpenScheduler_def open_plan_of_def r(1) WorkloadModel_String_def)
  next
    case False
    then have "prof = None" using prof by (simp add: plan_profile_def)
    then show ?thesis using False f load by (simp add: run_scheduler_def NewClosedScheduler_def closed_plan_of_def load_ok_def)
  qed
qed

text \<open>C3. Nothing is sent that the checks did not authorise: a plan that the command line hands to the scheduler comes from a configuration that
  satisfies every documented limit, whose requests are all authorised by the allowlist and, if destructive, by an explicit permission, and whose load
  is within the hard ceilings; the plan carries the allowlist, model, users and in-flight limit of that configuration; without a configuration file and
  without allowed hosts only a loopback target is authorised; and the scheduler accepts the plan.\<close>

theorem started_run_authorised:
  assumes start: "loadAndPreflightConfig E flags = Inr (cfg, pre, p)"
    and oob: "\<And>x. int64 (ce_oob E x)" and tu: "int64 (ld_TimeUnit (cf_Load cfg))"
  shows "config_ok (ce_oob E) (ce_url_Parse E) cfg
    \<and> list_all (request_authorised (ce_oob E) (ce_url_Parse E) (ce_LookupIPAddr E) (cf_Safety cfg) (safety_flags flags)) (planned_requests cfg)
    \<and> load_within_ceilings (ce_oob E) (cf_Load cfg)
    \<and> pl_AllowedHosts p = sf_AllowedHosts (cf_Safety cfg) \<and> pl_Model p = ld_Model (cf_Load cfg) \<and> pl_Users p = ld_Users (cf_Load cfg)
    \<and> pl_MaxInFlight p = ld_MaxInFlight (cf_Load cfg)
    \<and> (fv_configFile flags = '''' \<and> fv_allowedHosts flags = None \<longrightarrow> list_all IsLoopbackHost (pl_AllowedHosts p))
    \<and> run_scheduler E W p = Inr (rw_Run W)"
proof -
  obtain loaded where loaded: "load_config E flags = Inr loaded"
    and a: "ApplyCLIOverrides (ce_oob E) (ce_url_Parse E) (ce_regex_ok E) (Some loaded) (Some (toCLIFlags flags)) = Inr cfg"
    and pre: "preflight_Check (ce_oob E) (ce_url_Parse E) (ce_LookupIPAddr E) (Some cfg) (safety_flags flags) = Inr pre"
    and p: "BuildPlan (ce_oob E) (ce_url_api E) (ce_json_Marshal E) (ce_sha256_hex E) (ce_next_jar E) (Some cfg) (Some pre) = Inr p"
    using start by (auto simp: loadAndPreflightConfig_def lift_simps)
  obtain d where v: "ValidateConfig (ce_oob E) (ce_url_Parse E) (ce_regex_ok E) (Some d) = Inr cfg" using overrides_validated [OF a] by blast
  have f: "pl_Model p = ld_Model (cf_Load cfg)" "pl_Users p = ld_Users (cf_Load cfg)" "pl_MaxInFlight p = ld_MaxInFlight (cf_Load cfg)"
    "pl_AllowedHosts p = sf_AllowedHosts (cf_Safety cfg)" by (rule BuildPlan_fields [OF p]; simp)+
  have "list_all IsLoopbackHost (pl_AllowedHosts p)" if "fv_configFile flags = ''''" "fv_allowedHosts flags = None"
  proof -
    have "loaded = no_config" using loaded that by (simp add: load_config_def split: if_splits)
    then have "fl_AllowedHosts (toCLIFlags flags) = None \<and> sf_AllowedHosts (cf_Safety loaded) = []"
      using that by (simp add: toCLIFlags_def no_config_def)
    then have "sf_AllowedHosts (cf_Safety cfg) = [] \<or> (\<exists>h. sf_AllowedHosts (cf_Safety cfg) = [h] \<and> IsLoopbackHost h)"
      using overrides_sound [OF a] by blast
    then show ?thesis using f by auto
  qed
  moreover have "\<exists>r. preflight_Check (ce_oob E) (ce_url_Parse E) (ce_LookupIPAddr E) (Some cfg) (safety_flags flags) = Inr r" using pre by blast
  ultimately show ?thesis
    using ValidateConfig_promise [OF v] f run_scheduler_accepts [OF v p oob tu] unfolding preflight_decides by blast
qed

subsection \<open>When a run succeeds\<close>

definition threshold_passes :: "'h run_world \<Rightarrow> Plan \<Rightarrow> 'h agg option \<Rightarrow> Threshold \<Rightarrow> bool" where
  "threshold_passes W p ao t =
     res_Passed (evaluate_one (ToThresholdSnapshot (rw_hdr W) ao) (ToStepThresholdSnapshots (rw_hdr W) ao) (ToEvaluationContext (Some p)) t)"

lemma evaluate_thresholds_passed: "snd (evaluate_thresholds W p ao) \<longleftrightarrow> list_all (threshold_passes W p ao) (pl_Thresholds p)"
proof -
  have "map the (filter (\<lambda>t. t \<noteq> None) (map Some ts)) = ts" for ts :: "Threshold list" by (induction ts) auto
  then show ?thesis
    by (auto simp: evaluate_thresholds_def EvaluateWithSteps_def evaluate_loop_spec threshold_passes_def list_all_iff)
qed

lemma BuildReport_Incomplete [simp]: "rp_Incomplete (BuildReport patterns shuffle build po ao ho startT endT incomplete results) = incomplete"
  by (cases po; cases ao) (simp_all add: report_defs)

definition run_passes :: "'h run_world \<Rightarrow> Plan \<Rightarrow> 'h agg option \<Rightarrow> bool" where
  "run_passes W p ao = (if pl_Thresholds p \<noteq> [] then list_all (threshold_passes W p ao) (pl_Thresholds p) else \<not> unexpected_errors p ao)"

lemma run_plan_success:
  "DetermineExitCode (fst (run_plan E W flags p)) = ExitCodeSuccess \<longleftrightarrow>
     (\<exists>ao health. run_scheduler E W p = Inr (ao, health, False) \<and> \<not> rw_ctxErr W
        \<and> (fv_outputJSON flags = '''' \<or> rw_WriteJSONReport W (fv_outputJSON flags) (the (snd (run_plan E W flags p))))
        \<and> run_passes W p (evaluation_aggregate ao))"
proof (cases "run_scheduler E W p")
  case (Inl e)
  then show ?thesis
    by (auto simp: run_plan_def NewHTTPExecutor_def run_scheduler_def DetermineExitCode_def Let_def split: if_splits sum.splits)
next
  case (Inr r)
  obtain ao health runErr where r: "r = (ao, health, runErr)" by (cases r)
  let ?p = "evaluate_thresholds W p (evaluation_aggregate ao)"
  show ?thesis
    using Inr evaluate_thresholds_passed [of W p "evaluation_aggregate ao"]
    by (cases ?p) (auto simp: r run_plan_def NewHTTPExecutor_def DetermineExitCode_def run_passes_def Let_def)
qed


text \<open>A run without thresholds in which no request completed passes.\<close>

lemma idle_run_passes:
  assumes "pl_Thresholds p = []" "rc_Completed (ag_RequestCounts (ag g)) = 0"
  shows "run_passes W p (Some g)"
  using assms by (simp add: run_passes_def unexpected_errors_def Let_def)

subsection \<open>The line for an error\<close>

lemma strip_set: "set (strip ws s) \<subseteq> set s"
  using strip_suffix [of s ws] by (metis Un_upper2 set_append)

lemma TrimSpace_set: "set (TrimSpace s) \<subseteq> set s"
  unfolding TrimSpace_def using strip_set by (metis order_trans set_rev)

lemma summary_one_line: "newline \<notin> set (FormatSingleLineSummary err code)"
proof (cases err)
  case (Some m)
  let ?t = "map (\<lambda>c. if c = newline then CHR '' '' else c) m"
  have "newline \<notin> set (TrimSpace ?t)" using TrimSpace_set [of ?t] by (auto simp: newline_def)
  then show ?thesis by (cases code) (simp_all add: Some FormatSingleLineSummary_def Let_def newline_def)
qed (simp add: FormatSingleLineSummary_def)

subsection \<open>A sample\<close>

definition sample_env :: "string cli_env" where
  "sample_env = \<lparr>ce_ReadFile = (\<lambda>_. None), ce_Getenv = (\<lambda>_. ''''), ce_yaml_Unmarshal = (\<lambda>_. None), ce_yaml_Decode = (\<lambda>_. None),
     ce_url_Parse = sample_url, ce_regex_ok = (\<lambda>_. True), ce_LookupIPAddr = (\<lambda>h. if h = ''localhost'' then Some [[127, 0, 0, 1]] else None),
     ce_oob = (\<lambda>_. 0), ce_url_api = sample_api, ce_json_Marshal = sample_json, ce_sha256_hex = (\<lambda>s. s), ce_next_jar = 0\<rparr>"

definition sample_values :: flagValues where
  "sample_values = \<lparr>fv_configFile = '''', fv_url = ''http://localhost:8080/'', fv_method = '''', fv_model = ''closed'', fv_rate = F_Fin 0, fv_timeUnit = 0,
     fv_users = 5, fv_duration = 2 * Second, fv_timeout = 0, fv_maxInFlight = 0, fv_responseBodyLimit = '''', fv_redirects = '''', fv_allowedHosts = None,
     fv_allowDestructive = False, fv_dryRun = False, fv_nonInteractive = False, fv_outputJSON = ''''\<rparr>"

definition sample_world :: "int list run_world" where
  "sample_world = \<lparr>rw_hdr = exact_hdr, rw_patterns = (\<lambda>s. s), rw_shuffle = (\<lambda>xs. xs), rw_build = sample_build, rw_start = 0, rw_end = 2 * Second,
     rw_Run = (Some (sample_metrics (- 1)), None, False), rw_ctxErr = False, rw_WriteJSONReport = (\<lambda>_ _. True)\<rparr>"

lemma sample_starts:
  obtains cfg pre p where "loadAndPreflightConfig sample_env sample_values = Inr (cfg, pre, p)" "ld_TimeUnit (cf_Load cfg) = 0"
proof -
  have "case loadAndPreflightConfig sample_env sample_values of Inl _ \<Rightarrow> False | Inr (cfg, _, _) \<Rightarrow> ld_TimeUnit (cf_Load cfg) = 0" by code_simp
  then show ?thesis using that by (auto split: sum.splits)
qed

theorem started_run_authorised_witness:
  "\<exists>cfg pre p. loadAndPreflightConfig sample_env sample_values = Inr (cfg, pre, p) \<and> config_ok (\<lambda>_. 0) sample_url cfg
    \<and> list_all IsLoopbackHost (pl_AllowedHosts p) \<and> run_scheduler sample_env sample_world p = Inr (rw_Run sample_world)"
proof -
  obtain cfg pre p where start: "loadAndPreflightConfig sample_env sample_values = Inr (cfg, pre, p)" and tu: "ld_TimeUnit (cf_Load cfg) = 0"
    by (rule sample_starts)
  have z: "\<And>x. int64 (ce_oob sample_env x)" "int64 (ld_TimeUnit (cf_Load cfg))" by (simp_all add: sample_env_def int64_def tu)
  have e: "ce_oob sample_env = (\<lambda>_. 0)" "ce_url_Parse sample_env = sample_url" "fv_configFile sample_values = ''''" "fv_allowedHosts sample_values = None"
    by (simp_all add: sample_env_def sample_values_def)
  show ?thesis using start started_run_authorised [OF start z, of sample_world] unfolding e by blast
qed


end
