(* ===== verification/Spec2Isabelle.thy ===== *)
theory Spec2Isabelle
  imports Scenario_Executor Mock_Clock Rate_Limiter Run_Command
begin

text \<open>
  A verification development for daegsa, a command-line load generator for HTTP services written in Go. Paths are relative to
  \<^verbatim>\<open>src/internal/\<close>.

  \<^bold>\<open>The program.\<close> \<^verbatim>\<open>daegsa run\<close> reads a YAML configuration, expands environment variables, validates it, applies the flags of the command line and
  validates again (\<^verbatim>\<open>config\<close>), asks the safety preflight whether every planned request is authorised (\<^verbatim>\<open>safety\<close>), compiles the load profile into
  segments of constant rate (\<^verbatim>\<open>profile\<close>), and builds an immutable plan (\<^verbatim>\<open>plan\<close>) with an authenticator (\<^verbatim>\<open>auth\<close>). One of two schedulers
  (\<^verbatim>\<open>scheduler\<close>) runs the plan: the open one starts requests at the planned rate whatever the answers, within a limit of requests in flight; the
  closed one runs virtual users in a loop. A request goes through the HTTP executor (\<^verbatim>\<open>executor\<close>), or through the steps of a scenario
  (\<^verbatim>\<open>scenario\<close>). Workers record results in private accumulators that are merged at the end (\<^verbatim>\<open>metrics\<close>), thresholds judge the merged
  metrics (\<^verbatim>\<open>threshold\<close>), a report is built (\<^verbatim>\<open>report\<close>) and the exit code is chosen (\<^verbatim>\<open>cli\<close>). Two reports can be compared (\<^verbatim>\<open>compare\<close>).

  \<^bold>\<open>Foundations.\<close>
  \<^item> \<open>Go_Prelude\<close>: errors as sums with \<open>result_bind\<close> and \<open>result_fold\<close>, Go's truncating division and 64-bit wrap-around, Go maps as association lists,
    bounded sample lists, and the interfaces of the development as locales: \<open>inductive_invariant\<close> (an invariant of a step relation holds in every
    reachable state), \<open>ranked_steps\<close> (a step relation that decreases a rank ends), \<open>additive_counter\<close> (a fold that adds), \<open>sample_membership\<close>.
  \<^item> \<open>Go_Float\<close>: IEEE double arithmetic on rationals with rounding to nearest even, infinities and NaN; negative zero is not distinguished.
  \<^item> \<open>Go_Strings\<close>, \<open>Go_Time\<close>: the parts of \<^verbatim>\<open>strings\<close>, \<^verbatim>\<open>strconv\<close> and \<^verbatim>\<open>time\<close> the code uses, on byte strings and on nanoseconds; strings are ASCII where
    case matters.

  \<^bold>\<open>Components.\<close> Each theory names its source files and keeps the code's names; records are the structs, datatypes the enums, a definition is one function
  and an inductive relation or an explicit sequence of steps is the interleaving of goroutines.
  \<^item> \<open>Core_Model\<close> (\<^verbatim>\<open>core\<close>): exit codes, workload parameters, the lifecycle machine with \<open>TransitionTo\<close>, the error trees of Go and their classification
    into outcomes, request timestamps. The lifecycle makes at most six transitions.
  \<^item> \<open>Profile_Compiler\<close> (\<^verbatim>\<open>profile\<close>): \<open>Compile\<close> partitions the run without gaps and refines the abstract expansion of the source segments.
  \<^item> \<open>Threshold_Parser\<close>, \<open>Threshold_Eval\<close> (\<^verbatim>\<open>threshold\<close>): parsed thresholds are well-formed, evaluation judges each one alone.
  \<^item> \<open>Metrics_Worker\<close>, \<open>Metrics_Aggregate\<close>, \<open>Metrics_Health\<close> (\<^verbatim>\<open>metrics\<close>): accumulators, merging, segment collector, calibration and generator health; every
    counter of a merge is the sum of the workers'. The HDR histogram is third-party: a record of operations with named laws.
  \<^item> \<open>Scheduler_Open\<close>, \<open>Scheduler_Stages\<close> (\<^verbatim>\<open>scheduler/open.go\<close>): the dispatcher and the workers as atomic steps on counters, job channel and
    collectors. Conservation of requests, the in-flight limit and the bound of the rate hold in every reachable state, and the stages of a validated profile
    are entered in an order the lifecycle allows.
  \<^item> \<open>Scheduler_Closed\<close> (\<^verbatim>\<open>scheduler/closed.go\<close>): main goroutine and virtual users; conservation, finality of the stop, and termination of the drain.
  \<^item> \<open>Safety_Hosts\<close>, \<open>Safety_Preflight\<close> (\<^verbatim>\<open>config/allowedhost.go\<close>, \<^verbatim>\<open>safety\<close>): what the allowlist authorises and what the preflight decides.
  \<^item> \<open>Config_Model\<close>, \<open>Config_Valid\<close>, \<open>Config_Load\<close>, \<open>Redaction\<close> (\<^verbatim>\<open>config\<close>): types, validation with its promise \<open>config_ok\<close>, environment expansion, precedence
    of flags, fingerprint and redaction. The locale \<open>template\<close> states what expanding a text with references promises; it is interpreted for the
    environment and for the variables of scenarios.
  \<^item> \<open>Auth_Model\<close> (\<^verbatim>\<open>auth\<close>) and \<open>Plan_Model\<close> (\<^verbatim>\<open>plan\<close>): credentials per worker; a validated configuration always becomes a plan its scheduler accepts.
  \<^item> \<open>Http_Executor\<close> (\<^verbatim>\<open>executor\<close>): requests, redirects, bodies, outcomes and rate-limit headers. The locale \<open>redirect_guard\<close> states what a redirect check
    keeps of the hosts a request reaches; it is interpreted for the executor and for scenarios.
  \<^item> \<open>Scenario_Extract\<close>, \<open>Scenario_Executor\<close> (\<^verbatim>\<open>scenario\<close>): substitution, extraction, steps and iterations, and how the closed scheduler counts them.
  \<^item> \<open>Report_Model\<close> (\<^verbatim>\<open>report\<close>), \<open>Report_Compare\<close> (\<^verbatim>\<open>compare\<close>): the report shows no known secret in what the target sent and names the first throttling;
    a comparison lists exactly the changed verdicts.
  \<^item> \<open>Run_Command\<close> (\<^verbatim>\<open>cli\<close>): the composition. What starts was authorised, exit code 0 means what it says, and a refusal is told from a mistake.
  \<^item> \<open>Mock_Clock\<close> (\<^verbatim>\<open>clock/mock.go\<close>) and \<open>Rate_Limiter\<close> (\<^verbatim>\<open>testtarget/ratelimit.go\<close>): the test doubles. Advancing the clock has a closed form, and the executor
    reads from the limiter's headers what the limiter meant.

  \<^bold>\<open>Termination and bounds.\<close> No definition uses fuel: loops are structural recursions or have a measure (text left to read, virtual nanoseconds up to the
  target of \<open>Advance\<close>, remaining redirects). The runs of the schedulers are explicit finite sequences of steps, so that a theorem speaks of every interleaving; that
  a drain ends is a theorem. Counters are unbounded integers, 64-bit wrap-around is written out where the code multiplies durations or converts floats, and
  the result of a conversion that Go leaves open is the parameter \<open>oob\<close>.

  \<^bold>\<open>Parameters.\<close> The HTTP client and the network, DNS, URL parsing, YAML, JSON and regular expressions, SHA-256, the histogram, files, environment and the
  iteration order of Go maps are arguments; a theorem that relies on one of them says so in a hypothesis, and its witness instantiates the argument.

  \<^bold>\<open>Not modelled.\<close> The printing of plans, reports and comparisons (\<^verbatim>\<open>plan/print.go\<close>, \<^verbatim>\<open>report/terminal.go\<close>, \<^verbatim>\<open>report/json.go\<close>), the options of the HTTP transport, the
  Cobra wiring and help, \<^verbatim>\<open>RealClock\<close>, the handlers of the test target, the doctor and the self-test, which probe the machine or drive the
  program as a whole, the desktop studio (\<^verbatim>\<open>gui\<close>), which is widgets and event wiring, and the release scripts: they are input and output or glue
  over what is modelled. Data races are outside of the model, as a step of a goroutine between two synchronisations is atomic.
\<close>

end
